theory Spec2Isabelle
  imports Complex_Main "HOL-Library.Multiset"
begin

section \<open>Python values shared by the modules\<close>

text \<open>
  Python numbers (unbounded \<open>int\<close>, and \<open>float\<close>, a double, read as the exact number
  it denotes) are modelled as \<open>int\<close> and \<open>rat\<close>; every exception the modelled code
  can raise is a value of \<open>py_error\<close>.
\<close>

datatype py_error = AttributeError | KeyError | IndexError | ValueError

text \<open>\<open>int(x)\<close>: truncation towards zero.\<close>

definition py_int :: "rat \<Rightarrow> int" where
  "py_int x = (if 0 \<le> x then \<lfloor>x\<rfloor> else \<lceil>x\<rceil>)"

text \<open>\<open>round(x)\<close> with one argument: to the nearest integer, a tie to the even one.\<close>

definition py_round :: "rat \<Rightarrow> int" where
  "py_round x =
     (let f = \<lfloor>x\<rfloor>; d = x - of_int f
      in if d < 1 / 2 then f else if 1 / 2 < d then f + 1 else if even f then f else f + 1)"

text \<open>\<open>n.bit_length()\<close> of a Python int \<open>n \<ge> 0\<close>: the number of its binary digits.\<close>

function bit_length :: "int \<Rightarrow> nat" where
  "bit_length n = (if n \<le> 0 then 0 else Suc (bit_length (n div 2)))"
  by pat_completeness auto

termination
  by (relation "measure nat") auto

declare bit_length.simps [simp del]

text \<open>The binary exponent of \<open>x \<noteq> 0\<close>: the \<open>e\<close> with \<open>2\<^sup>e \<le> |x| < 2\<^sup>e\<^sup>+\<^sup>1\<close>.\<close>

definition float_exponent :: "rat \<Rightarrow> int" where
  "float_exponent x =
     (if 1 \<le> \<bar>x\<bar> then int (bit_length \<lfloor>\<bar>x\<bar>\<rfloor>) - 1
      else - int (bit_length (\<lceil>1 / \<bar>x\<bar>\<rceil> - 1)))"

text \<open>
  The double nearest to \<open>x\<close>, a tie going to the even significand (IEEE 754 binary64,
  the rounding of every float operation and of every conversion to float): the doubles
  around \<open>x\<close> are the multiples of \<open>2\<^sup>e\<^sup>-\<^sup>5\<^sup>2\<close>, where \<open>e\<close> is the exponent of \<open>x\<close>, and at
  least -1022 (below it the doubles are subnormal and equally spaced). The range of the
  doubles ends below \<open>2\<^sup>1\<^sup>0\<^sup>2\<^sup>4\<close>; what Python does beyond it (\<open>OverflowError\<close> in a conversion,
  \<open>inf\<close> in an operation) is not modelled.
\<close>

definition to_double :: "rat \<Rightarrow> rat" where
  "to_double x =
     (if x = 0 then 0
      else let ulp = power_int 2 (max (float_exponent x) (- 1022) - 52)
           in of_int (py_round (x / ulp)) * ulp)"

section \<open>Definitions: evaluation dataclasses (evaluation\_dataclasses.py)\<close>

record Metrics =
  tp :: int
  fp :: int
  fn :: int

definition precision :: "Metrics \<Rightarrow> rat" where
  "precision m = (if tp m + fp m > 0 then of_int (tp m) / of_int (tp m + fp m) else 0)"

definition recall :: "Metrics \<Rightarrow> rat" where
  "recall m = (if tp m + fn m > 0 then of_int (tp m) / of_int (tp m + fn m) else 0)"

definition f1 :: "Metrics \<Rightarrow> rat" where
  "f1 m =
     (let p = precision m; r = recall m
      in if p + r > 0 then 2 * p * r / (p + r) else 0)"

definition from_metric_list :: "Metrics list \<Rightarrow> Metrics" where
  "from_metric_list metric_list =
     \<lparr>tp = sum_list (map tp metric_list),
      fp = sum_list (map fp metric_list),
      fn = sum_list (map fn metric_list)\<rparr>"

record BoreholeMetadataMetrics =
  elevation_metrics :: Metrics
  coordinates_metrics :: Metrics

record FileBoreholeMetadataMetrics = BoreholeMetadataMetrics +
  filename :: string

text \<open>
  A pandas \<open>DataFrame\<close> is modelled by its columns in order, each with its cells from
  the first row to the last (the row index, which \<open>ignore_index=True\<close> renumbers, is
  the position in the cell lists).
\<close>

datatype cell = Str string | Num rat | NaN

type_synonym DataFrame = "(string \<times> cell list) list"

definition nrows :: "DataFrame \<Rightarrow> nat" where
  "nrows df = (case df of [] \<Rightarrow> 0 | (c, vs) # rest \<Rightarrow> length vs)"

definition column_values :: "string \<Rightarrow> DataFrame \<Rightarrow> cell list" where
  "column_values c df =
     (case map_of df c of Some vs \<Rightarrow> vs | None \<Rightarrow> replicate (nrows df) NaN)"

text \<open>The union of the frames' column names, in order of first appearance.\<close>

fun union_columns :: "string list \<Rightarrow> string list \<Rightarrow> string list" where
  "union_columns seen [] = seen"
| "union_columns seen (c # cs) =
     union_columns (if c \<in> set seen then seen else seen @ [c]) cs"

text \<open>
  \<open>pd.concat(frames, ignore_index=True)\<close>: pandas raises \<open>ValueError\<close> ("No objects
  to concatenate") on an empty list; otherwise the rows of the frames follow each other,
  a column missing from a frame filled with NaN.
\<close>

definition pd_concat :: "DataFrame list \<Rightarrow> py_error + DataFrame" where
  "pd_concat frames =
     (if frames = [] then Inl ValueError
      else Inr (map (\<lambda>c. (c, concat (map (column_values c) frames)))
                 (union_columns [] (concat (map (map fst) frames)))))"

text \<open>\<open>FileBoreholeMetadataMetrics.get_document_level_metrics\<close>: a one-row frame.\<close>

definition file_get_document_level_metrics :: "FileBoreholeMetadataMetrics \<Rightarrow> DataFrame" where
  "file_get_document_level_metrics m =
     [(''document_name'', [Str (filename m)]),
      (''elevation'', [Num (f1 (elevation_metrics m))]),
      (''coordinate'', [Num (f1 (coordinates_metrics m))])]"

record OverallBoreholeMetadataMetrics =
  borehole_metadata_metrics :: "FileBoreholeMetadataMetrics list"

text \<open>\<open>OverallBoreholeMetadataMetrics.get_document_level_metrics\<close>.\<close>

definition get_document_level_metrics ::
  "OverallBoreholeMetadataMetrics \<Rightarrow> py_error + DataFrame" where
  "get_document_level_metrics overall =
     (let frames = map file_get_document_level_metrics (borehole_metadata_metrics overall)
      in pd_concat frames)"

section \<open>Definitions: duplicate layers across pages (duplicate\_detection.py)\<close>

text \<open>
  A layer of the current page is the dictionary the extraction produced; the detector
  reads only \<open>layer["material_description"]["rect"]\<close>, the rectangle
  \<open>[x0, y0, x1, y1]\<close> of the material description.
\<close>

record page_layer =
  material_description_rect :: "rat \<times> rat \<times> rat \<times> rat"
  material_description_lines :: "string list"

text \<open>The sort key \<open>x["material_description"]["rect"][1]\<close>.\<close>

definition rect_top :: "page_layer \<Rightarrow> rat" where
  "rect_top x = (case material_description_rect x of (x0, y0, x1, y1) \<Rightarrow> y0)"

text \<open>
  The loop over \<open>enumerate(sorted_layers)\<close>. Its arguments are the layers still to
  visit, \<open>layer_index\<close>, \<open>duplicated_layer_index\<close> and
  \<open>count_consecutive_non_duplicate_layers\<close>; it returns the final
  \<open>duplicated_layer_index\<close>. The parameter \<open>img_match\<close> stands for the value of
  \<open>img_template_probablility_match\<close> the loop body computes for a layer from the two
  page images (OpenCV's template matching, 0 when it raises \<open>cv2.error\<close>).
\<close>

fun scan_layers :: "(page_layer \<Rightarrow> rat) \<Rightarrow> page_layer list \<Rightarrow> nat \<Rightarrow> nat \<Rightarrow> nat \<Rightarrow> nat" where
  "scan_layers img_match [] layer_index duplicated_layer_index cnt = duplicated_layer_index"
| "scan_layers img_match (layer # rest) layer_index duplicated_layer_index cnt =
     (if cnt \<ge> 3 then duplicated_layer_index
      else if img_match layer > 62 / 100
        then scan_layers img_match rest (layer_index + 1) layer_index 0
        else scan_layers img_match rest (layer_index + 1) duplicated_layer_index (cnt + 1))"

definition remove_duplicate_layers ::
  "(page_layer \<Rightarrow> rat) \<Rightarrow> page_layer list \<Rightarrow> page_layer list" where
  "remove_duplicate_layers img_match layer_predictions =
     (let sorted_layers = sort_key rect_top layer_predictions;
          duplicated_layer_index = scan_layers img_match sorted_layers 0 0 0
      in drop duplicated_layer_index sorted_layers)"

text \<open>A layer whose score exceeds the threshold 0.62 counts as present on the previous page.\<close>

definition above_threshold :: "(page_layer \<Rightarrow> rat) \<Rightarrow> page_layer \<Rightarrow> bool" where
  "above_threshold img_match layer = (img_match layer > 62 / 100)"

text \<open>
  The loop invariant of the scan before it visits index \<open>i\<close> of the sorted list
  \<open>ss\<close>: the last \<open>c\<close> layers visited are not above the threshold; either no layer
  visited is (then \<open>c = i\<close> and \<open>d = 0\<close>), or \<open>d\<close> is the layer above the threshold
  right before them; no three consecutive layers below \<open>d\<close> are all at or under the
  threshold.
\<close>

definition scan_inv :: "(page_layer \<Rightarrow> rat) \<Rightarrow> page_layer list \<Rightarrow> nat \<Rightarrow> nat \<Rightarrow> nat \<Rightarrow> bool" where
  "scan_inv f ss i d c =
     (c \<le> i \<and> c \<le> 3
      \<and> (\<forall>j. i - c \<le> j \<and> j < i \<longrightarrow> \<not> above_threshold f (ss ! j))
      \<and> (if c = i then d = 0 else d + c + 1 = i \<and> above_threshold f (ss ! d))
      \<and> (\<forall>k. k + 2 < d \<longrightarrow> above_threshold f (ss ! k) \<or> above_threshold f (ss ! (k + 1))
              \<or> above_threshold f (ss ! (k + 2))))"

text \<open>
  The duplicate boundary, stated without the loop: index \<open>d\<close> of the sorted list is
  the boundary when no three consecutive layers before it are all at or under the
  threshold, and either \<open>d\<close> is above the threshold and the (up to three) layers after
  it are not, or \<open>d = 0\<close> and the first (up to three) layers are not above it.
\<close>

definition is_boundary :: "(page_layer \<Rightarrow> rat) \<Rightarrow> page_layer list \<Rightarrow> nat \<Rightarrow> bool" where
  "is_boundary f ss d =
     ((d < length ss \<or> d = 0)
      \<and> (d \<noteq> 0 \<longrightarrow> above_threshold f (ss ! d))
      \<and> (\<forall>k. k + 2 < d \<longrightarrow> above_threshold f (ss ! k) \<or> above_threshold f (ss ! (k + 1))
              \<or> above_threshold f (ss ! (k + 2)))
      \<and> (d < length ss \<and> above_threshold f (ss ! d) \<longrightarrow>
            (\<forall>j. d < j \<and> j < length ss \<and> j \<le> d + 3 \<longrightarrow> \<not> above_threshold f (ss ! j)))
      \<and> (d < length ss \<and> \<not> above_threshold f (ss ! d) \<longrightarrow>
            d = 0 \<and> (\<forall>j. j < length ss \<and> j < 3 \<longrightarrow> \<not> above_threshold f (ss ! j))))"

section \<open>Definitions: the lines quad tree (linesquadtree.py)\<close>

record Point =
  point_x :: rat
  point_y :: rat

record Line =
  line_start :: Point
  line_end :: Point

text \<open>
  Modelled from the spec: the 2D region index (the third-party \<open>quads.QuadTree\<close>, not
  part of the sources). It holds points with integer coordinates, each carrying as its
  data the set of keys of the lines registered there; \<open>find\<close> returns the point at
  given coordinates if there is one, \<open>insert\<close> adds a new point, and \<open>within_bb\<close>
  returns the points inside a box, its border included. The set of keys is a list of
  its elements in iteration order. The extent of the index (the page plus a margin of
  1000) is not modelled: every point is taken to lie inside it.
\<close>

type_synonym coordinates = "int \<times> int"

type_synonym QuadTree = "(coordinates \<times> string list) list"

definition qt_find :: "QuadTree \<Rightarrow> coordinates \<Rightarrow> string list option" where
  "qt_find qt c = map_of qt c"

definition qt_insert :: "QuadTree \<Rightarrow> coordinates \<Rightarrow> string list \<Rightarrow> QuadTree" where
  "qt_insert qt c d = qt @ [(c, d)]"

text \<open>The data set of the point at \<open>c\<close> is an object shared with the tree: changing it
  changes the point in the tree.\<close>

definition qt_set_data :: "QuadTree \<Rightarrow> coordinates \<Rightarrow> string list \<Rightarrow> QuadTree" where
  "qt_set_data qt c d = map (\<lambda>p. if fst p = c then (c, d) else p) qt"

type_synonym BoundingBox = "rat \<times> rat \<times> rat \<times> rat"

definition bb_contains :: "BoundingBox \<Rightarrow> coordinates \<Rightarrow> bool" where
  "bb_contains bb c =
     (case bb of (min_x, min_y, max_x, max_y) \<Rightarrow>
        min_x \<le> of_int (fst c) \<and> of_int (fst c) \<le> max_x
        \<and> min_y \<le> of_int (snd c) \<and> of_int (snd c) \<le> max_y)"

definition within_bb :: "QuadTree \<Rightarrow> BoundingBox \<Rightarrow> (coordinates \<times> string list) list" where
  "within_bb qt bb = filter (\<lambda>p. bb_contains bb (fst p)) qt"

text \<open>Python's \<open>set.add\<close> and \<open>set.remove\<close>; the latter raises \<open>KeyError\<close> when the
  element is not in the set.\<close>

definition set_add :: "string list \<Rightarrow> string \<Rightarrow> string list" where
  "set_add d k = (if k \<in> set d then d else d @ [k])"

definition set_remove :: "string list \<Rightarrow> string \<Rightarrow> py_error + string list" where
  "set_remove d k = (if k \<in> set d then Inr (removeAll k d) else Inl KeyError)"

record LinesQuadTree =
  qtree :: QuadTree
  hashmap :: "string \<rightharpoonup> Line"

text \<open>\<open>LinesQuadTree.__init__\<close>.\<close>

definition init_tree :: "rat \<Rightarrow> rat \<Rightarrow> LinesQuadTree" where
  "init_tree width height = \<lparr>qtree = [], hashmap = Map.empty\<rparr>"

text \<open>\<open>(round(point.x), round(point.y))\<close>.\<close>

definition rounded :: "Point \<Rightarrow> coordinates" where
  "rounded point = (py_round (point_x point), py_round (point_y point))"

text \<open>\<open>_qtree_insert\<close>.\<close>

definition qtree_insert :: "LinesQuadTree \<Rightarrow> Point \<Rightarrow> string \<Rightarrow> LinesQuadTree" where
  "qtree_insert s point line_key =
     (let coordinates = rounded point
      in case qt_find (qtree s) coordinates of
           Some d \<Rightarrow> s\<lparr>qtree := qt_set_data (qtree s) coordinates (set_add d line_key)\<rparr>
         | None \<Rightarrow> s\<lparr>qtree := qt_insert (qtree s) coordinates [line_key]\<rparr>)"

text \<open>\<open>_qtree_delete\<close>.\<close>

definition qtree_delete :: "LinesQuadTree \<Rightarrow> Point \<Rightarrow> string \<Rightarrow> py_error + LinesQuadTree" where
  "qtree_delete s point line_key =
     (let coordinates = rounded point
      in case qt_find (qtree s) coordinates of
           Some d \<Rightarrow>
             (case set_remove d line_key of
                Inl e \<Rightarrow> Inl e
              | Inr d' \<Rightarrow> Inr (s\<lparr>qtree := qt_set_data (qtree s) coordinates d'\<rparr>))
         | None \<Rightarrow> Inr s)"

text \<open>
  \<open>LinesQuadTree.add\<close>; the fresh key \<open>uuid.uuid4().hex\<close> is the argument \<open>line_key\<close>.
  The methods \<open>add\<close> and \<open>remove\<close> are named \<open>add_line\<close> and \<open>remove_line\<close>, since
  \<open>remove\<close> is a constant of HOL's sets; the private methods lose their leading
  underscore.
\<close>

definition add_line :: "LinesQuadTree \<Rightarrow> string \<Rightarrow> Line \<Rightarrow> LinesQuadTree" where
  "add_line s line_key line =
     (let s0 = s\<lparr>hashmap := (hashmap s)(line_key \<mapsto> line)\<rparr>;
          s1 = qtree_insert s0 (line_start line) line_key
      in qtree_insert s1 (line_end line) line_key)"

text \<open>
  \<open>LinesQuadTree.remove\<close>. The index is changed in place, so an exception leaves it
  as the statements before the raise made it: the result is the index after the call
  and the exception raised, if any.
\<close>

definition remove_line :: "LinesQuadTree \<Rightarrow> string \<Rightarrow> LinesQuadTree \<times> py_error option" where
  "remove_line s line_key =
     (case hashmap s line_key of
        None \<Rightarrow> (s, None)
      | Some line \<Rightarrow>
          (case qtree_delete s (line_start line) line_key of
             Inl e \<Rightarrow> (s, Some e)
           | Inr s1 \<Rightarrow>
               (case qtree_delete s1 (line_end line) line_key of
                  Inl e \<Rightarrow> (s1, Some e)
                | Inr s2 \<Rightarrow> (s2\<lparr>hashmap := (hashmap s2)(line_key := None)\<rparr>, None))))"

text \<open>
  \<open>neighbouring_lines\<close> returns the empty list for an unknown key and a dictionary
  otherwise. The two loops fill the dictionary.
\<close>

datatype neighbours = EmptyList | Neighbours "string \<rightharpoonup> Line"

fun collect_keys ::
  "string \<Rightarrow> (string \<rightharpoonup> Line) \<Rightarrow> string list \<Rightarrow> (string \<rightharpoonup> Line) \<Rightarrow> (string \<rightharpoonup> Line)" where
  "collect_keys line_key hm [] acc = acc"
| "collect_keys line_key hm (neighbour_key # ks) acc =
     collect_keys line_key hm ks
       (if neighbour_key \<noteq> line_key \<and> hm neighbour_key \<noteq> None
        then acc(neighbour_key := hm neighbour_key) else acc)"

fun collect_points ::
  "string \<Rightarrow> (string \<rightharpoonup> Line) \<Rightarrow> (coordinates \<times> string list) list
     \<Rightarrow> (string \<rightharpoonup> Line) \<Rightarrow> (string \<rightharpoonup> Line)" where
  "collect_points line_key hm [] acc = acc"
| "collect_points line_key hm (point # points) acc =
     collect_points line_key hm points (collect_keys line_key hm (snd point) acc)"

definition query_box :: "Line \<Rightarrow> rat \<Rightarrow> BoundingBox" where
  "query_box line tol =
     (let min_x = min (point_x (line_start line)) (point_x (line_end line));
          max_x = max (point_x (line_start line)) (point_x (line_end line));
          min_y = min (point_y (line_start line)) (point_y (line_end line));
          max_y = max (point_y (line_start line)) (point_y (line_end line))
      in (min_x - tol, min_y - tol, max_x + tol, max_y + tol))"

definition neighbouring_lines :: "LinesQuadTree \<Rightarrow> string \<Rightarrow> rat \<Rightarrow> neighbours" where
  "neighbouring_lines s line_key tol =
     (case hashmap s line_key of
        None \<Rightarrow> EmptyList
      | Some line \<Rightarrow>
          (let points = within_bb (qtree s) (query_box line tol)
           in Neighbours (collect_points line_key (hashmap s) points Map.empty)))"

text \<open>
  The index states a caller can build: the empty index, \<open>add\<close> with a key not yet in
  use, and \<open>remove\<close> when it returns without raising.
\<close>

inductive reachable :: "LinesQuadTree \<Rightarrow> bool" where
  reachable_init: "reachable (init_tree width height)"
| reachable_add: "reachable s \<Longrightarrow> hashmap s line_key = None \<Longrightarrow> reachable (add_line s line_key line)"
| reachable_remove: "reachable s \<Longrightarrow> remove_line s line_key = (s', None) \<Longrightarrow> reachable s'"

text \<open>
  The data model's invariant: the points of the tree have distinct coordinates; every
  live key is registered at the rounded coordinates of both endpoints of its line; and
  a key registered at a point is live and the point is a rounded endpoint of its line.
\<close>

definition registered :: "LinesQuadTree \<Rightarrow> coordinates \<Rightarrow> string \<Rightarrow> bool" where
  "registered s c k = (case map_of (qtree s) c of None \<Rightarrow> False | Some d \<Rightarrow> k \<in> set d)"

definition index_inv :: "LinesQuadTree \<Rightarrow> bool" where
  "index_inv s =
     (distinct (map fst (qtree s))
      \<and> (\<forall>k l. hashmap s k = Some l \<longrightarrow>
            registered s (rounded (line_start l)) k \<and> registered s (rounded (line_end l)) k)
      \<and> (\<forall>c k. registered s c k \<longrightarrow>
            (\<exists>l. hashmap s k = Some l
                 \<and> (c = rounded (line_start l) \<or> c = rounded (line_end l)))))"


section \<open>Definitions: predictions and their evaluation (predictions.py)\<close>

text \<open>
  Modelled from the spec: the data classes imported from modules that are not part of
  the sources. A \<open>DepthColumnEntry\<close> carries a numeric value (its rectangle and page
  are not read by the evaluation); a \<open>BoundaryInterval\<close> has an optional start and end
  entry; a \<open>Coordinate\<close> has an east and a north entry, each with a
  \<open>coordinate_value\<close>; \<open>GroundwaterInformation\<close> has the optional fields depth, date
  and elevation.
\<close>

record DepthColumnEntry =
  entry_value :: rat

record BoundaryInterval =
  interval_start :: "DepthColumnEntry option"
  interval_end :: "DepthColumnEntry option"

record CoordinateEntry =
  coordinate_value :: rat

record Coordinate =
  east :: CoordinateEntry
  north :: CoordinateEntry

record GroundwaterInformation =
  gw_depth :: "rat option"
  gw_date :: "string option"
  gw_elevation :: "rat option"

text \<open>
  \<open>LayerPrediction\<close>: \<open>material_description\<close> is the text of the material description
  (\<open>layer.material_description.text\<close>); the two flags are \<open>None\<close> until evaluated. The
  random \<open>id\<close> is not modelled.
\<close>

record LayerPrediction =
  material_description :: string
  depth_interval :: "BoundaryInterval option"
  material_is_correct :: "bool option"
  depth_interval_is_correct :: "bool option"

record BoreholeMetaData =
  coordinates :: "Coordinate option"
  groundwater_information :: "GroundwaterInformation option"

text \<open>
  \<open>FilePredictions\<close>; the dictionary \<open>metadata_is_correct\<close> maps a field name to
  \<open>True\<close>, \<open>False\<close> or \<open>None\<close> (\<open>Some None\<close> is a key holding \<open>None\<close>).
\<close>

record FilePredictions =
  layers :: "LayerPrediction list"
  file_name :: string
  language :: string
  metadata :: "BoreholeMetaData option"
  metadata_is_correct :: "string \<rightharpoonup> bool option"

text \<open>
  A ground-truth layer
  \<open>{"material_description": text, "depth_interval": {"start": number or null, "end": number or null}}\<close>.
\<close>

record ground_truth_layer =
  gt_material_description :: string
  gt_start :: "rat option"
  gt_end :: "rat option"

text \<open>
  The ground-truth metadata \<open>{"coordinates": {"E": e, "N": n}, "groundwater": [...]}\<close>;
  a key that is missing or holds null is \<open>None\<close>, and each groundwater entry is given
  as the \<open>GroundwaterInformation\<close> its keywords construct.
\<close>

record ground_truth_coordinates =
  coordinate_E :: rat
  coordinate_N :: rat

record ground_truth_metadata =
  gt_coordinates :: "ground_truth_coordinates option"
  gt_groundwater :: "GroundwaterInformation list option"

subsection \<open>Layers\<close>

text \<open>
  The first \<open>elif\<close> condition of the loop in \<open>_find_matching_layer\<close>, evaluated left to
  right: \<open>layer.depth_interval.end.value\<close> is reached only when the ground-truth start
  is 0 and the predicted start is \<open>None\<close>, and raises \<open>AttributeError\<close> when the
  predicted end is \<open>None\<close>.
\<close>

definition starts_at_zero :: "ground_truth_layer \<Rightarrow> BoundaryInterval \<Rightarrow> py_error + bool" where
  "starts_at_zero possible_match iv =
     (if gt_start possible_match = Some 0 then
        (if interval_start iv = None then
           (case interval_end iv of
              None \<Rightarrow> Inl AttributeError
            | Some e \<Rightarrow> Inr (gt_end possible_match = Some (entry_value e)))
         else Inr False)
      else Inr False)"

text \<open>The second \<open>elif\<close> with its nested \<open>if\<close>.\<close>

definition both_equal :: "ground_truth_layer \<Rightarrow> BoundaryInterval \<Rightarrow> bool" where
  "both_equal possible_match iv =
     (case interval_start iv of
        None \<Rightarrow> False
      | Some s \<Rightarrow>
          (case interval_end iv of
             None \<Rightarrow> False
           | Some e \<Rightarrow> gt_start possible_match = Some (entry_value s)
                        \<and> gt_end possible_match = Some (entry_value e)))"

text \<open>
  The loop \<open>for possible_match in possible_matches\<close>: \<open>Inr (Some m)\<close> when it returns
  \<open>(m, True)\<close> from inside the loop, \<open>Inr None\<close> when it runs to its end.
\<close>

fun match_loop :: "LayerPrediction \<Rightarrow> ground_truth_layer list \<Rightarrow> py_error + ground_truth_layer option" where
  "match_loop layer [] = Inr None"
| "match_loop layer (possible_match # rest) =
     (case depth_interval layer of
        None \<Rightarrow> match_loop layer rest
      | Some iv \<Rightarrow>
          (case starts_at_zero possible_match iv of
             Inl e \<Rightarrow> Inl e
           | Inr True \<Rightarrow> Inr (Some possible_match)
           | Inr False \<Rightarrow>
               if both_equal possible_match iv then Inr (Some possible_match)
               else match_loop layer rest))"

text \<open>\<open>max(possible_matches, key=...)\<close>: the first element whose key is largest.\<close>

fun max_from :: "('a \<Rightarrow> rat) \<Rightarrow> 'a \<Rightarrow> 'a list \<Rightarrow> 'a" where
  "max_from key best [] = best"
| "max_from key best (x # xs) =
     (if key best < key x then max_from key x xs else max_from key best xs)"

text \<open>
  \<open>_find_matching_layer\<close>. The parameters are the text normalisation \<open>parse_text\<close> and
  the similarity \<open>Levenshtein.ratio\<close>, both from other modules. The result is the pair
  the function returns (\<open>None\<close> for \<open>(None, None)\<close>) and the list \<open>unmatched_layers\<close> as
  the function leaves it.
\<close>

definition find_matching_layer ::
  "(string \<Rightarrow> string) \<Rightarrow> (string \<Rightarrow> string \<Rightarrow> rat) \<Rightarrow> LayerPrediction \<Rightarrow> ground_truth_layer list
     \<Rightarrow> py_error + ((ground_truth_layer \<times> bool) option \<times> ground_truth_layer list)" where
  "find_matching_layer parse_text ratio layer unmatched_layers =
     (let parsed_text = parse_text (material_description layer);
          possible_matches =
            filter (\<lambda>g. ratio parsed_text (gt_material_description g) > 9 / 10) unmatched_layers
      in case possible_matches of
           [] \<Rightarrow> Inr (None, unmatched_layers)
         | first # others \<Rightarrow>
             (case match_loop layer possible_matches of
                Inl e \<Rightarrow> Inl e
              | Inr (Some possible_match) \<Rightarrow>
                  Inr (Some (possible_match, True), remove1 possible_match unmatched_layers)
              | Inr None \<Rightarrow>
                  (let m = max_from (\<lambda>x. ratio parsed_text (gt_material_description x))
                             first others
                   in Inr (Some (m, False), remove1 m unmatched_layers))))"

text \<open>
  The loop of \<open>evaluate_layers\<close> over \<open>self.layers\<close>: it returns the layers with their
  flags set and the ground-truth layers left unmatched. A ground-truth layer is a
  dictionary with keys, hence true in \<open>if match\<close>.
\<close>

fun evaluate_layers_loop ::
  "(string \<Rightarrow> string) \<Rightarrow> (string \<Rightarrow> string \<Rightarrow> rat) \<Rightarrow> LayerPrediction list \<Rightarrow> ground_truth_layer list
     \<Rightarrow> py_error + (LayerPrediction list \<times> ground_truth_layer list)" where
  "evaluate_layers_loop parse_text ratio [] unmatched_layers = Inr ([], unmatched_layers)"
| "evaluate_layers_loop parse_text ratio (layer # rest) unmatched_layers =
     (case find_matching_layer parse_text ratio layer unmatched_layers of
        Inl e \<Rightarrow> Inl e
      | Inr (found, unmatched') \<Rightarrow>
          (let layer' =
                 (case found of
                    Some (m, depth_interval_correct) \<Rightarrow>
                      layer\<lparr>material_is_correct := Some True,
                            depth_interval_is_correct := Some depth_interval_correct\<rparr>
                  | None \<Rightarrow>
                      layer\<lparr>material_is_correct := Some False,
                            depth_interval_is_correct := None\<rparr>)
           in case evaluate_layers_loop parse_text ratio rest unmatched' of
                Inl e \<Rightarrow> Inl e
              | Inr (rest', unmatched'') \<Rightarrow> Inr (layer' # rest', unmatched'')))"

definition evaluate_layers ::
  "(string \<Rightarrow> string) \<Rightarrow> (string \<Rightarrow> string \<Rightarrow> rat) \<Rightarrow> FilePredictions \<Rightarrow> ground_truth_layer list
     \<Rightarrow> py_error + FilePredictions" where
  "evaluate_layers parse_text ratio self ground_truth_layers =
     (case evaluate_layers_loop parse_text ratio (layers self) ground_truth_layers of
        Inl e \<Rightarrow> Inl e
      | Inr (layers', unmatched) \<Rightarrow> Inr (self\<lparr>layers := layers'\<rparr>))"

text \<open>
  The precondition of the matching: a depth interval that is present and has no start
  has an end.
\<close>

definition end_present :: "LayerPrediction \<Rightarrow> bool" where
  "end_present layer =
     (case depth_interval layer of
        None \<Rightarrow> True
      | Some iv \<Rightarrow> interval_start iv \<noteq> None \<or> interval_end iv \<noteq> None)"

text \<open>
  The situation in which the matching raises: the interval is present without start and
  end, and a candidate (similarity above 0.9) has the ground-truth start 0.
\<close>

definition raising_case ::
  "(string \<Rightarrow> string) \<Rightarrow> (string \<Rightarrow> string \<Rightarrow> rat) \<Rightarrow> LayerPrediction \<Rightarrow> ground_truth_layer list \<Rightarrow> bool" where
  "raising_case parse_text ratio layer unmatched_layers =
     (\<not> end_present layer
      \<and> list_ex (\<lambda>g. ratio (parse_text (material_description layer)) (gt_material_description g)
                      > 9 / 10 \<and> gt_start g = Some 0) unmatched_layers)"

text \<open>
  The claim's exact depth match of a candidate: the ground-truth start is 0, the
  predicted start is absent and the ends are equal; or both predicted entries are
  present and equal the candidate's.
\<close>

definition exact_match :: "LayerPrediction \<Rightarrow> ground_truth_layer \<Rightarrow> bool" where
  "exact_match layer g =
     (case depth_interval layer of
        None \<Rightarrow> False
      | Some iv \<Rightarrow>
          (case (interval_start iv, interval_end iv) of
             (None, Some e) \<Rightarrow> gt_start g = Some 0 \<and> gt_end g = Some (entry_value e)
           | (Some s, Some e) \<Rightarrow>
               gt_start g = Some (entry_value s) \<and> gt_end g = Some (entry_value e)
           | (_, None) \<Rightarrow> False))"

subsection \<open>Metadata\<close>

text \<open>
  Python's floats are IEEE 754 doubles. The parameter \<open>fl\<close> of the definitions below
  stands for the rounding to the nearest double, \<open>to_double\<close>: \<open>fl x\<close> is the double
  that a float operation or a conversion to float returns for the exact result \<open>x\<close>.
  Python's ints and the comparison of an int with a float are exact.
\<close>

text \<open>
  \<open>math.isclose(a, b, abs_tol=abs_tol)\<close> with the default \<open>rel_tol=1e-09\<close>, as CPython
  computes it on the doubles of its arguments:
  \<open>a == b or diff <= fabs(rel_tol * b) or diff <= fabs(rel_tol * a) or diff <= abs_tol\<close>
  with \<open>diff = fabs(b - a)\<close>.
\<close>

definition isclose :: "(rat \<Rightarrow> rat) \<Rightarrow> rat \<Rightarrow> rat \<Rightarrow> rat \<Rightarrow> bool" where
  "isclose fl a b abs_tol =
     (let x = fl a; y = fl b; rel_tol = fl (1 / 10 ^ 9); diff = \<bar>fl (y - x)\<bar>
      in x = y \<or> diff \<le> \<bar>fl (rel_tol * y)\<bar> \<or> diff \<le> \<bar>fl (rel_tol * x)\<bar>
         \<or> diff \<le> fl abs_tol)"

text \<open>
  The ground-truth coordinates after the frames are reconciled (lines 204 to 218):
  \<open>int(...) + 2e6\<close> converts the int to a float and adds in floats; without a shift
  the values stay ints.
\<close>

definition reconciled :: "(rat \<Rightarrow> rat) \<Rightarrow> Coordinate \<Rightarrow> ground_truth_coordinates \<Rightarrow> rat \<times> rat" where
  "reconciled fl c g =
     (if coordinate_value (east c) > 2000000 \<and> coordinate_E g < 2000000
      then (fl (fl (of_int (py_int (coordinate_E g))) + 2000000),
            fl (fl (of_int (py_int (coordinate_N g))) + 1000000))
      else if coordinate_value (east c) < 2000000 \<and> coordinate_E g > 2000000
      then (fl (fl (of_int (py_int (coordinate_E g))) - 2000000),
            fl (fl (of_int (py_int (coordinate_N g))) - 1000000))
      else (of_int (py_int (coordinate_E g)), of_int (py_int (coordinate_N g))))"

definition coordinates_correct ::
  "(rat \<Rightarrow> rat) \<Rightarrow> Coordinate \<Rightarrow> ground_truth_coordinates \<Rightarrow> bool" where
  "coordinates_correct fl c g =
     (case reconciled fl c g of (ground_truth_east, ground_truth_north) \<Rightarrow>
        isclose fl (of_int (py_int (coordinate_value (east c)))) ground_truth_east 2
        \<and> isclose fl (of_int (py_int (coordinate_value (north c)))) ground_truth_north 2)"

text \<open>
  The four comparisons of \<open>GroundwaterInformation\<close> (a module outside the sources) are
  parameters: each takes the ground-truth record first.
\<close>

record groundwater_checks =
  is_extracted_information_correct :: "GroundwaterInformation \<Rightarrow> GroundwaterInformation \<Rightarrow> bool"
  is_extracted_depth_correct :: "GroundwaterInformation \<Rightarrow> rat option \<Rightarrow> bool"
  is_extracted_elevation_correct :: "GroundwaterInformation \<Rightarrow> rat option \<Rightarrow> bool"
  is_extracted_date_correct :: "GroundwaterInformation \<Rightarrow> string option \<Rightarrow> bool"

text \<open>
  What a call of \<open>evaluate_metadata\<close> leaves: the object with its dictionary as
  updated up to the return or the raise, the warnings logged, and the exception raised,
  if any.
\<close>

record evaluation_outcome =
  evaluated :: FilePredictions
  warnings :: "string list"
  raised :: "py_error option"

definition multiple_entries_warning :: "string \<Rightarrow> string" where
  "multiple_entries_warning name =
     ''Multiple groundwater information entries found in the ground truth for file '' @ name
     @ ''. Only the first entry will be considered for evaluation.''"

text \<open>The first part of \<open>evaluate_metadata\<close>: the value stored under \<open>coordinates\<close>.\<close>

definition coordinates_entry ::
  "(rat \<Rightarrow> rat) \<Rightarrow> BoreholeMetaData \<Rightarrow> ground_truth_metadata option \<Rightarrow> bool option" where
  "coordinates_entry fl md metadata_ground_truth =
     (case coordinates md of
        None \<Rightarrow> None
      | Some c \<Rightarrow>
          (case metadata_ground_truth of
             None \<Rightarrow> None
           | Some gt \<Rightarrow>
               (case gt_coordinates gt of
                  None \<Rightarrow> None
                | Some g \<Rightarrow> Some (coordinates_correct fl c g))))"

definition set_groundwater_entries ::
  "FilePredictions \<Rightarrow> bool option \<Rightarrow> bool option \<Rightarrow> bool option \<Rightarrow> bool option \<Rightarrow> FilePredictions" where
  "set_groundwater_entries self info depth elevation date =
     self\<lparr>metadata_is_correct :=
       (metadata_is_correct self)
         (''groundwater_information'' \<mapsto> info,
          ''groundwater_information_depth'' \<mapsto> depth,
          ''groundwater_information_elevation'' \<mapsto> elevation,
          ''groundwater_information_date'' \<mapsto> date)\<rparr>"

text \<open>
  \<open>evaluate_metadata\<close>. \<open>self.metadata\<close> may be \<open>None\<close> (the constructor's default),
  and then \<open>self.metadata.coordinates\<close> raises; an empty ground-truth groundwater list
  passes the tests for \<open>None\<close> and raises \<open>IndexError\<close> at \<open>[0]\<close>.
\<close>

definition evaluate_metadata ::
  "(rat \<Rightarrow> rat) \<Rightarrow> groundwater_checks \<Rightarrow> FilePredictions \<Rightarrow> ground_truth_metadata option
     \<Rightarrow> evaluation_outcome" where
  "evaluate_metadata fl checks self metadata_ground_truth =
     (case metadata self of
        None \<Rightarrow> \<lparr>evaluated = self, warnings = [], raised = Some AttributeError\<rparr>
      | Some md \<Rightarrow>
          (let self1 = self\<lparr>metadata_is_correct :=
                 (metadata_is_correct self)
                   (''coordinates'' \<mapsto> coordinates_entry fl md metadata_ground_truth)\<rparr>;
               undetermined =
                 \<lparr>evaluated = set_groundwater_entries self1 None None None None,
                  warnings = [], raised = None\<rparr>
           in case groundwater_information md of
                None \<Rightarrow> undetermined
              | Some extracted \<Rightarrow>
                  (case metadata_ground_truth of
                     None \<Rightarrow> undetermined
                   | Some gt \<Rightarrow>
                       (case gt_groundwater gt of
                          None \<Rightarrow> undetermined
                        | Some entries \<Rightarrow>
                            (let logged =
                                   (if length entries > 1
                                    then [multiple_entries_warning (file_name self)] else [])
                             in case entries of
                                  [] \<Rightarrow> \<lparr>evaluated = self1, warnings = logged,
                                          raised = Some IndexError\<rparr>
                                | gt_info # others \<Rightarrow>
                                    \<lparr>evaluated = set_groundwater_entries self1
                                       (Some (is_extracted_information_correct checks gt_info extracted))
                                       (Some (is_extracted_depth_correct checks gt_info (gw_depth extracted)))
                                       (Some (is_extracted_elevation_correct checks gt_info
                                                (gw_elevation extracted)))
                                       (Some (is_extracted_date_correct checks gt_info (gw_date extracted))),
                                     warnings = logged, raised = None\<rparr>)))))"

text \<open>
  What the theorems on coordinates use of the rounding to the nearest double: an integer
  of magnitude at most \<open>2\<^sup>5\<^sup>3\<close> is a double, and in the range of the normal doubles the
  rounding error is at most the fraction \<open>2\<^sup>-\<^sup>5\<^sup>3\<close> of the value. \<open>to_double\<close> has both
  properties (lemma \<open>to_double_rounds_like_double\<close>).
\<close>

definition rounds_like_double :: "(rat \<Rightarrow> rat) \<Rightarrow> bool" where
  "rounds_like_double fl =
     ((\<forall>z::int. \<bar>z\<bar> \<le> 2 ^ 53 \<longrightarrow> fl (of_int z) = of_int z)
      \<and> (\<forall>x. 1 / 2 ^ 1022 \<le> \<bar>x\<bar> \<and> \<bar>x\<bar> \<le> 2 ^ 1023 \<longrightarrow> \<bar>fl x - x\<bar> \<le> \<bar>x\<bar> / 2 ^ 53))"

text \<open>
  The shift between the reference frames in the words of the specification: +2,000,000
  east and +1,000,000 north when the predicted east is above 2,000,000 and the
  ground-truth east below it, the opposite shift in the reverse case, none otherwise.
\<close>

definition frame_shift :: "Coordinate \<Rightarrow> ground_truth_coordinates \<Rightarrow> int \<times> int" where
  "frame_shift c g =
     (if coordinate_value (east c) > 2000000 \<and> coordinate_E g < 2000000 then (2000000, 1000000)
      else if coordinate_value (east c) < 2000000 \<and> coordinate_E g > 2000000
      then (- 2000000, - 1000000)
      else (0, 0))"

section \<open>Theorems: evaluation dataclasses\<close>

lemma sum_list_nonneg_int:
  fixes f :: "'a \<Rightarrow> int"
  shows "(\<And>x. x \<in> set xs \<Longrightarrow> 0 \<le> f x) \<Longrightarrow> 0 \<le> sum_list (map f xs)"
  by (induction xs) auto

lemma precision_nonneg: "0 \<le> tp m \<Longrightarrow> 0 \<le> fp m \<Longrightarrow> 0 \<le> precision m"
  by (auto simp: precision_def)

lemma recall_nonneg: "0 \<le> tp m \<Longrightarrow> 0 \<le> fn m \<Longrightarrow> 0 \<le> recall m"
  by (auto simp: recall_def)

lemma precision_formula:
  assumes "0 \<le> tp m" and "0 \<le> fp m"
  shows "precision m = (if tp m + fp m = 0 then 0 else of_int (tp m) / of_int (tp m + fp m))"
  using assms by (auto simp: precision_def)

lemma recall_formula:
  assumes "0 \<le> tp m" and "0 \<le> fn m"
  shows "recall m = (if tp m + fn m = 0 then 0 else of_int (tp m) / of_int (tp m + fn m))"
  using assms by (auto simp: recall_def)

lemma f1_formula:
  assumes "0 \<le> tp m" and "0 \<le> fp m" and "0 \<le> fn m"
  shows "f1 m = (if precision m + recall m = 0 then 0
                 else 2 * precision m * recall m / (precision m + recall m))"
  using precision_nonneg[of m] recall_nonneg[of m] assms
  by (auto simp: f1_def Let_def)

lemma from_metric_list_nonneg:
  assumes "\<forall>x\<in>set ms. 0 \<le> tp x \<and> 0 \<le> fp x \<and> 0 \<le> fn x"
  shows "0 \<le> tp (from_metric_list ms) \<and> 0 \<le> fp (from_metric_list ms)
         \<and> 0 \<le> fn (from_metric_list ms)"
  using assms by (simp add: from_metric_list_def sum_list_nonneg_int)

text \<open>
  Claim C3. For every Metrics value whose counts \<open>tp\<close>, \<open>fp\<close>, \<open>fn\<close> are non-negative
  integers (the data model's range): precision is \<open>tp / (tp + fp)\<close> and 0 when
  \<open>tp + fp = 0\<close>; recall is \<open>tp / (tp + fn)\<close> and 0 when \<open>tp + fn = 0\<close>; F1 is
  \<open>2 P R / (P + R)\<close> and 0 when \<open>P + R = 0\<close>. \<open>from_metric_list\<close> returns the
  element-wise sum of the counts, and the scores of the result are these formulas
  applied to the summed counts, which is not the average of the members' scores:
  for \<open>[Metrics(1,0,0), Metrics(2,1,0)]\<close> the F1 of the sum is 6/7 while the members'
  F1 scores average to 9/10. \<open>Metrics(0,0,0)\<close> scores 0, 0, 0; \<open>Metrics(3,1,1)\<close>
  scores 3/4, 3/4, 3/4; the list above sums to \<open>Metrics(3,1,0)\<close>. Python's float
  division is read as exact division of rationals.
\<close>

theorem metrics_scores_and_sum:
  assumes "0 \<le> tp m" and "0 \<le> fp m" and "0 \<le> fn m"
    and "\<forall>x\<in>set ms. 0 \<le> tp x \<and> 0 \<le> fp x \<and> 0 \<le> fn x"
  shows
    "precision m = (if tp m + fp m = 0 then 0 else of_int (tp m) / of_int (tp m + fp m))
     \<and> recall m = (if tp m + fn m = 0 then 0 else of_int (tp m) / of_int (tp m + fn m))
     \<and> f1 m = (if precision m + recall m = 0 then 0
               else 2 * precision m * recall m / (precision m + recall m))
     \<and> from_metric_list ms =
         \<lparr>tp = (\<Sum>x\<leftarrow>ms. tp x), fp = (\<Sum>x\<leftarrow>ms. fp x), fn = (\<Sum>x\<leftarrow>ms. fn x)\<rparr>
     \<and> precision (from_metric_list ms) =
         (if (\<Sum>x\<leftarrow>ms. tp x) + (\<Sum>x\<leftarrow>ms. fp x) = 0 then 0
          else of_int (\<Sum>x\<leftarrow>ms. tp x) / of_int ((\<Sum>x\<leftarrow>ms. tp x) + (\<Sum>x\<leftarrow>ms. fp x)))
     \<and> recall (from_metric_list ms) =
         (if (\<Sum>x\<leftarrow>ms. tp x) + (\<Sum>x\<leftarrow>ms. fn x) = 0 then 0
          else of_int (\<Sum>x\<leftarrow>ms. tp x) / of_int ((\<Sum>x\<leftarrow>ms. tp x) + (\<Sum>x\<leftarrow>ms. fn x)))
     \<and> f1 (from_metric_list ms) =
         (if precision (from_metric_list ms) + recall (from_metric_list ms) = 0 then 0
          else 2 * precision (from_metric_list ms) * recall (from_metric_list ms)
               / (precision (from_metric_list ms) + recall (from_metric_list ms)))
     \<and> precision \<lparr>tp = 0, fp = 0, fn = 0\<rparr> = 0 \<and> recall \<lparr>tp = 0, fp = 0, fn = 0\<rparr> = 0
     \<and> f1 \<lparr>tp = 0, fp = 0, fn = 0\<rparr> = 0
     \<and> precision \<lparr>tp = 3, fp = 1, fn = 1\<rparr> = 3 / 4 \<and> recall \<lparr>tp = 3, fp = 1, fn = 1\<rparr> = 3 / 4
     \<and> f1 \<lparr>tp = 3, fp = 1, fn = 1\<rparr> = 3 / 4
     \<and> from_metric_list [\<lparr>tp = 1, fp = 0, fn = 0\<rparr>, \<lparr>tp = 2, fp = 1, fn = 0\<rparr>]
         = \<lparr>tp = 3, fp = 1, fn = 0\<rparr>
     \<and> f1 (from_metric_list [\<lparr>tp = 1, fp = 0, fn = 0\<rparr>, \<lparr>tp = 2, fp = 1, fn = 0\<rparr>]) = 6 / 7
     \<and> (f1 \<lparr>tp = 1, fp = 0, fn = 0\<rparr> + f1 \<lparr>tp = 2, fp = 1, fn = 0\<rparr>) / 2 = 9 / 10"
proof -
  let ?s = "from_metric_list ms"
  have sums: "?s = \<lparr>tp = (\<Sum>x\<leftarrow>ms. tp x), fp = (\<Sum>x\<leftarrow>ms. fp x), fn = (\<Sum>x\<leftarrow>ms. fn x)\<rparr>"
    by (simp add: from_metric_list_def)
  have nn: "0 \<le> tp ?s \<and> 0 \<le> fp ?s \<and> 0 \<le> fn ?s"
    using assms(4) by (rule from_metric_list_nonneg)
  have sel: "tp ?s = (\<Sum>x\<leftarrow>ms. tp x)" "fp ?s = (\<Sum>x\<leftarrow>ms. fp x)" "fn ?s = (\<Sum>x\<leftarrow>ms. fn x)"
    by (simp_all add: from_metric_list_def)
  have p: "precision ?s =
         (if (\<Sum>x\<leftarrow>ms. tp x) + (\<Sum>x\<leftarrow>ms. fp x) = 0 then 0
          else of_int (\<Sum>x\<leftarrow>ms. tp x) / of_int ((\<Sum>x\<leftarrow>ms. tp x) + (\<Sum>x\<leftarrow>ms. fp x)))"
    using precision_formula[of ?s] nn unfolding sel by simp
  have r: "recall ?s =
         (if (\<Sum>x\<leftarrow>ms. tp x) + (\<Sum>x\<leftarrow>ms. fn x) = 0 then 0
          else of_int (\<Sum>x\<leftarrow>ms. tp x) / of_int ((\<Sum>x\<leftarrow>ms. tp x) + (\<Sum>x\<leftarrow>ms. fn x)))"
    using recall_formula[of ?s] nn unfolding sel by simp
  have f: "f1 ?s = (if precision ?s + recall ?s = 0 then 0
          else 2 * precision ?s * recall ?s / (precision ?s + recall ?s))"
    using f1_formula[of ?s] nn by simp
  have e0: "precision \<lparr>tp = 0, fp = 0, fn = 0\<rparr> = 0 \<and> recall \<lparr>tp = 0, fp = 0, fn = 0\<rparr> = 0
     \<and> f1 \<lparr>tp = 0, fp = 0, fn = 0\<rparr> = 0"
    by (simp add: precision_def recall_def f1_def Let_def)
  have e1: "precision \<lparr>tp = 3, fp = 1, fn = 1\<rparr> = 3 / 4 \<and> recall \<lparr>tp = 3, fp = 1, fn = 1\<rparr> = 3 / 4
     \<and> f1 \<lparr>tp = 3, fp = 1, fn = 1\<rparr> = 3 / 4"
    by (simp add: precision_def recall_def f1_def Let_def)
  have e2: "from_metric_list [\<lparr>tp = 1, fp = 0, fn = 0\<rparr>, \<lparr>tp = 2, fp = 1, fn = 0\<rparr>]
         = \<lparr>tp = 3, fp = 1, fn = 0\<rparr>"
    by (simp add: from_metric_list_def)
  have e3: "f1 (from_metric_list [\<lparr>tp = 1, fp = 0, fn = 0\<rparr>, \<lparr>tp = 2, fp = 1, fn = 0\<rparr>]) = 6 / 7
     \<and> (f1 \<lparr>tp = 1, fp = 0, fn = 0\<rparr> + f1 \<lparr>tp = 2, fp = 1, fn = 0\<rparr>) / 2 = 9 / 10"
    by (simp add: from_metric_list_def precision_def recall_def f1_def Let_def)
  show ?thesis
    using precision_formula[OF assms(1,2)] recall_formula[OF assms(1,3)]
      f1_formula[OF assms(1,2,3)] sums p r f e0 e1 e2 e3
    by blast
qed

theorem metrics_scores_and_sum_witness:
  "0 \<le> tp \<lparr>tp = 2, fp = 1, fn = 3\<rparr> \<and> 0 \<le> fp \<lparr>tp = 2, fp = 1, fn = 3\<rparr>
   \<and> 0 \<le> fn \<lparr>tp = 2, fp = 1, fn = 3\<rparr>
   \<and> list_all (\<lambda>x. 0 \<le> tp x \<and> 0 \<le> fp x \<and> 0 \<le> fn x)
        [\<lparr>tp = 2, fp = 0, fn = 0\<rparr>, \<lparr>tp = 1, fp = 1, fn = 0\<rparr>]
   \<and> precision \<lparr>tp = 2, fp = 1, fn = 3\<rparr> = 2 / 3
   \<and> recall \<lparr>tp = 2, fp = 1, fn = 3\<rparr> = 2 / 5
   \<and> from_metric_list [\<lparr>tp = 2, fp = 0, fn = 0\<rparr>, \<lparr>tp = 1, fp = 1, fn = 0\<rparr>]
       = \<lparr>tp = 3, fp = 1, fn = 0\<rparr>
   \<and> precision (from_metric_list [\<lparr>tp = 2, fp = 0, fn = 0\<rparr>, \<lparr>tp = 1, fp = 1, fn = 0\<rparr>]) = 3 / 4"
proof -
  let ?m = "\<lparr>tp = 2, fp = 1, fn = 3\<rparr>"
  let ?ms = "[\<lparr>tp = 2, fp = 0, fn = 0\<rparr>, \<lparr>tp = 1, fp = 1, fn = 0\<rparr>]"
  have a: "0 \<le> tp ?m" and b: "0 \<le> fp ?m" and c: "0 \<le> fn ?m" by simp_all
  have d: "\<forall>x\<in>set ?ms. 0 \<le> tp x \<and> 0 \<le> fp x \<and> 0 \<le> fn x" by simp
  note inst = metrics_scores_and_sum[OF a b c d]
  have p: "precision ?m = 2 / 3" using inst[THEN conjunct1] by simp
  have r: "recall ?m = 2 / 5" using inst[THEN conjunct2, THEN conjunct1] by simp
  have s: "from_metric_list ?ms = \<lparr>tp = 3, fp = 1, fn = 0\<rparr>"
    using inst[THEN conjunct2, THEN conjunct2, THEN conjunct2, THEN conjunct1] by simp
  have ps: "precision (from_metric_list ?ms) = 3 / 4"
    using inst[THEN conjunct2, THEN conjunct2, THEN conjunct2, THEN conjunct2, THEN conjunct1]
    by simp
  show ?thesis using a b c p r s ps by simp
qed

lemma union_columns_seen: "set cs \<subseteq> set seen \<Longrightarrow> union_columns seen cs = seen"
  by (induction cs arbitrary: seen) auto

lemma union_columns_append:
  "union_columns seen (xs @ ys) = union_columns (union_columns seen xs) ys"
  by (induction xs arbitrary: seen) auto

lemma file_frame_columns:
  "map fst (file_get_document_level_metrics m) = [''document_name'', ''elevation'', ''coordinate'']"
  by (simp add: file_get_document_level_metrics_def)

lemma file_frames_column_names:
  "set (concat (map (map fst) (map file_get_document_level_metrics ms)))
     \<subseteq> set [''document_name'', ''elevation'', ''coordinate'']"
  by (induction ms) (auto simp: file_get_document_level_metrics_def)

lemma file_frames_union_columns:
  assumes "ms \<noteq> []"
  shows "union_columns [] (concat (map (map fst) (map file_get_document_level_metrics ms)))
         = [''document_name'', ''elevation'', ''coordinate'']"
proof -
  obtain m rest where ms: "ms = m # rest" using assms by (cases ms) auto
  have "union_columns [] (concat (map (map fst) (map file_get_document_level_metrics ms)))
        = union_columns (union_columns [] [''document_name'', ''elevation'', ''coordinate''])
            (concat (map (map fst) (map file_get_document_level_metrics rest)))"
    unfolding ms by (simp add: file_frame_columns del: union_columns.simps add: union_columns_append[symmetric])
  also have "union_columns [] [''document_name'', ''elevation'', ''coordinate'']
             = [''document_name'', ''elevation'', ''coordinate'']" by simp
  also have "union_columns [''document_name'', ''elevation'', ''coordinate'']
            (concat (map (map fst) (map file_get_document_level_metrics rest)))
            = [''document_name'', ''elevation'', ''coordinate'']"
    by (rule union_columns_seen) (rule file_frames_column_names)
  finally show ?thesis .
qed

lemma file_frames_document_name:
  "concat (map (column_values ''document_name'') (map file_get_document_level_metrics ms))
   = map (\<lambda>m. Str (filename m)) ms"
  by (induction ms) (simp_all add: column_values_def file_get_document_level_metrics_def)

lemma file_frames_elevation:
  "concat (map (column_values ''elevation'') (map file_get_document_level_metrics ms))
   = map (\<lambda>m. Num (f1 (elevation_metrics m))) ms"
  by (induction ms) (simp_all add: column_values_def file_get_document_level_metrics_def)

lemma file_frames_coordinate:
  "concat (map (column_values ''coordinate'') (map file_get_document_level_metrics ms))
   = map (\<lambda>m. Num (f1 (coordinates_metrics m))) ms"
  by (induction ms) (simp_all add: column_values_def file_get_document_level_metrics_def)

text \<open>
  Claim C6 (as amended). For every OverallBoreholeMetadataMetrics holding \<open>n \<ge> 1\<close>
  appended per-file metrics, \<open>get_document_level_metrics\<close> returns a table with exactly
  \<open>n\<close> rows, one per file in insertion order, whose columns are \<open>document_name\<close>,
  \<open>elevation\<close> and \<open>coordinate\<close>; the last two hold each file's elevation F1 and
  coordinate F1 score.
\<close>

theorem document_level_table:
  assumes "borehole_metadata_metrics overall \<noteq> []"
  shows "get_document_level_metrics overall =
      Inr [(''document_name'', map (\<lambda>m. Str (filename m)) (borehole_metadata_metrics overall)),
           (''elevation'',
              map (\<lambda>m. Num (f1 (elevation_metrics m))) (borehole_metadata_metrics overall)),
           (''coordinate'',
              map (\<lambda>m. Num (f1 (coordinates_metrics m))) (borehole_metadata_metrics overall))]
     \<and> map_sum id nrows (get_document_level_metrics overall)
         = Inr (length (borehole_metadata_metrics overall))"
proof -
  let ?ms = "borehole_metadata_metrics overall"
  let ?frames = "map file_get_document_level_metrics ?ms"
  have ne: "?frames \<noteq> []" using assms by simp
  have "get_document_level_metrics overall = pd_concat ?frames"
    by (simp add: get_document_level_metrics_def Let_def del: map_map)
  also have "\<dots> = Inr (map (\<lambda>c. (c, concat (map (column_values c) ?frames)))
                 (union_columns [] (concat (map (map fst) ?frames))))"
    using ne unfolding pd_concat_def by (simp del: map_map)
  also have "\<dots> = Inr (map (\<lambda>c. (c, concat (map (column_values c) ?frames)))
                 [''document_name'', ''elevation'', ''coordinate''])"
    by (simp only: file_frames_union_columns[OF assms])
  also have "\<dots> = Inr [(''document_name'', map (\<lambda>m. Str (filename m)) ?ms),
           (''elevation'', map (\<lambda>m. Num (f1 (elevation_metrics m))) ?ms),
           (''coordinate'', map (\<lambda>m. Num (f1 (coordinates_metrics m))) ?ms)]"
    by (simp add: file_frames_document_name file_frames_elevation file_frames_coordinate
        del: map_map)
  finally have table: "get_document_level_metrics overall =
      Inr [(''document_name'', map (\<lambda>m. Str (filename m)) ?ms),
           (''elevation'', map (\<lambda>m. Num (f1 (elevation_metrics m))) ?ms),
           (''coordinate'', map (\<lambda>m. Num (f1 (coordinates_metrics m))) ?ms)]" .
  then show ?thesis by (simp add: nrows_def)
qed

theorem document_level_table_witness:
  "borehole_metadata_metrics
     \<lparr>borehole_metadata_metrics =
        [\<lparr>elevation_metrics = \<lparr>tp = 1, fp = 0, fn = 0\<rparr>,
          coordinates_metrics = \<lparr>tp = 0, fp = 1, fn = 0\<rparr>, filename = ''b.pdf''\<rparr>,
         \<lparr>elevation_metrics = \<lparr>tp = 0, fp = 0, fn = 1\<rparr>,
          coordinates_metrics = \<lparr>tp = 1, fp = 0, fn = 0\<rparr>, filename = ''a.pdf''\<rparr>]\<rparr> \<noteq> []
   \<and> get_document_level_metrics
     \<lparr>borehole_metadata_metrics =
        [\<lparr>elevation_metrics = \<lparr>tp = 1, fp = 0, fn = 0\<rparr>,
          coordinates_metrics = \<lparr>tp = 0, fp = 1, fn = 0\<rparr>, filename = ''b.pdf''\<rparr>,
         \<lparr>elevation_metrics = \<lparr>tp = 0, fp = 0, fn = 1\<rparr>,
          coordinates_metrics = \<lparr>tp = 1, fp = 0, fn = 0\<rparr>, filename = ''a.pdf''\<rparr>]\<rparr>
     = Inr [(''document_name'', [Str ''b.pdf'', Str ''a.pdf'']),
            (''elevation'', [Num 1, Num 0]),
            (''coordinate'', [Num 0, Num 1])]"
proof -
  let ?o = "\<lparr>borehole_metadata_metrics =
        [\<lparr>elevation_metrics = \<lparr>tp = 1, fp = 0, fn = 0\<rparr>,
          coordinates_metrics = \<lparr>tp = 0, fp = 1, fn = 0\<rparr>, filename = ''b.pdf''\<rparr>,
         \<lparr>elevation_metrics = \<lparr>tp = 0, fp = 0, fn = 1\<rparr>,
          coordinates_metrics = \<lparr>tp = 1, fp = 0, fn = 0\<rparr>, filename = ''a.pdf''\<rparr>]\<rparr>"
  have ne: "borehole_metadata_metrics ?o \<noteq> []" by simp
  have "get_document_level_metrics ?o
     = Inr [(''document_name'', [Str ''b.pdf'', Str ''a.pdf'']),
            (''elevation'', [Num 1, Num 0]),
            (''coordinate'', [Num 0, Num 1])]"
    using document_level_table[OF ne, THEN conjunct1]
    by (simp add: f1_def precision_def recall_def Let_def)
  with ne show ?thesis by simp
qed

text \<open>
  Claim C6 as stated fails: the table of one file has the columns \<open>document_name\<close>,
  \<open>elevation\<close>, \<open>coordinate\<close>, not \<open>elevation_f1\<close> and \<open>coordinate_f1\<close>; and with
  no file appended the concatenation raises instead of returning a table of 0 rows.
\<close>

theorem document_level_columns_counterexample:
  "map_sum id (map fst)
     (get_document_level_metrics
        \<lparr>borehole_metadata_metrics =
           [\<lparr>elevation_metrics = \<lparr>tp = 1, fp = 0, fn = 0\<rparr>,
             coordinates_metrics = \<lparr>tp = 0, fp = 1, fn = 0\<rparr>, filename = ''a.pdf''\<rparr>]\<rparr>)
     = Inr [''document_name'', ''elevation'', ''coordinate'']
   \<and> ''elevation_f1'' \<notin> set [''document_name'', ''elevation'', ''coordinate'']
   \<and> ''coordinate_f1'' \<notin> set [''document_name'', ''elevation'', ''coordinate'']
   \<and> get_document_level_metrics \<lparr>borehole_metadata_metrics = []\<rparr> = Inl ValueError"
  by (simp add: get_document_level_metrics_def pd_concat_def Let_def column_values_def
      file_get_document_level_metrics_def)

section \<open>Theorems: duplicate layers across pages\<close>

lemma scan_inv_stop:
  assumes "scan_inv f ss i d c" "i \<le> length ss" "c \<ge> 3 \<or> i = length ss"
  shows "is_boundary f ss d"
proof -
  have "c = i \<or> c \<noteq> i" by simp
  then show ?thesis
  proof
    assume ci: "c = i"
    with assms have d0: "d = 0" and nd: "\<forall>j. j < i \<longrightarrow> \<not> above_threshold f (ss ! j)"
      and c3: "c \<le> 3"
      by (auto simp: scan_inv_def)
    show ?thesis
      unfolding is_boundary_def using d0 nd ci c3 assms(2,3) by auto
  next
    assume ci: "c \<noteq> i"
    with assms(1) have dd: "d + c + 1 = i" and Dd: "above_threshold f (ss ! d)"
      and nd: "\<forall>j. i - c \<le> j \<and> j < i \<longrightarrow> \<not> above_threshold f (ss ! j)"
      and c3: "c \<le> 3"
      and nr: "\<forall>k. k + 2 < d \<longrightarrow> above_threshold f (ss ! k) \<or> above_threshold f (ss ! (k + 1))
              \<or> above_threshold f (ss ! (k + 2))"
      by (auto simp: scan_inv_def)
    have a: "d < length ss" using dd assms(2) by simp
    have b: "\<forall>j. d < j \<and> j < length ss \<and> j \<le> d + 3 \<longrightarrow> \<not> above_threshold f (ss ! j)"
    proof (intro allI impI)
      fix j assume j: "d < j \<and> j < length ss \<and> j \<le> d + 3"
      have "i - c \<le> j \<and> j < i" using j dd c3 assms(3) by auto
      with nd show "\<not> above_threshold f (ss ! j)" by blast
    qed
    show ?thesis unfolding is_boundary_def using a b Dd nr by blast
  qed
qed

lemma scan_inv_dup:
  assumes "scan_inv f ss i d c" "c < 3" "above_threshold f (ss ! i)"
  shows "scan_inv f ss (i + 1) i 0"
proof -
  have nr: "above_threshold f (ss ! k) \<or> above_threshold f (ss ! (k + 1)) \<or> above_threshold f (ss ! (k + 2))"
    if k: "k + 2 < i" for k
  proof (cases "c = i")
    case True
    with k assms(2) show ?thesis by simp
  next
    case False
    with assms(1) have dd: "d + c + 1 = i" and Dd: "above_threshold f (ss ! d)"
      and nr0: "\<forall>k. k + 2 < d \<longrightarrow> above_threshold f (ss ! k) \<or> above_threshold f (ss ! (k + 1))
              \<or> above_threshold f (ss ! (k + 2))"
      by (auto simp: scan_inv_def)
    have "k + 2 < d \<or> k = d \<or> k + 1 = d \<or> k + 2 = d" using k dd assms(2) by arith
    then show ?thesis using nr0 Dd by auto
  qed
  show ?thesis unfolding scan_inv_def using assms(3) nr by auto
qed

lemma scan_inv_nondup:
  assumes "scan_inv f ss i d c" "c < 3" "\<not> above_threshold f (ss ! i)"
  shows "scan_inv f ss (i + 1) d (c + 1)"
proof -
  from assms(1) have ci: "c \<le> i"
    and nd: "\<forall>j. i - c \<le> j \<and> j < i \<longrightarrow> \<not> above_threshold f (ss ! j)"
    and dd: "if c = i then d = 0 else d + c + 1 = i \<and> above_threshold f (ss ! d)"
    and nr: "\<forall>k. k + 2 < d \<longrightarrow> above_threshold f (ss ! k) \<or> above_threshold f (ss ! (k + 1))
              \<or> above_threshold f (ss ! (k + 2))"
    by (auto simp: scan_inv_def)
  have nd': "\<forall>j. (i + 1) - (c + 1) \<le> j \<and> j < i + 1 \<longrightarrow> \<not> above_threshold f (ss ! j)"
  proof (intro allI impI)
    fix j assume j: "(i + 1) - (c + 1) \<le> j \<and> j < i + 1"
    then have "j = i \<or> (i - c \<le> j \<and> j < i)" by auto
    then show "\<not> above_threshold f (ss ! j)" using nd assms(3) by blast
  qed
  have dd': "if c + 1 = i + 1 then d = 0 else d + (c + 1) + 1 = i + 1 \<and> above_threshold f (ss ! d)"
    using dd by (auto split: if_splits)
  show ?thesis unfolding scan_inv_def using ci assms(2) nd' dd' nr by simp
qed

lemma scan_layers_boundary_gen:
  "drop i ss = xs \<Longrightarrow> i \<le> length ss \<Longrightarrow> scan_inv f ss i d c
     \<Longrightarrow> is_boundary f ss (scan_layers f xs i d c)"
proof (induction xs arbitrary: i d c)
  case Nil
  then have "i = length ss" by simp
  with Nil show ?case using scan_inv_stop[of f ss i d c] by simp
next
  case (Cons x xs)
  have i: "i < length ss" using Cons.prems(1,2) by (metis drop_all le_neq_implies_less list.distinct(1) order.refl  drop_eq_Nil)
  have x: "ss ! i = x" and rest: "drop (i + 1) ss = xs"
    using Cons.prems(1) i by (metis Cons_nth_drop_Suc list.inject Suc_eq_plus1)+
  show ?case
  proof (cases "c \<ge> 3")
    case True
    then show ?thesis using scan_inv_stop[OF Cons.prems(3) Cons.prems(2)] by simp
  next
    case False
    then have c: "c < 3" by simp
    show ?thesis
    proof (cases "f x > 62 / 100")
      case True
      have "scan_inv f ss (i + 1) i 0" using scan_inv_dup[OF Cons.prems(3) c] True x by (simp add: above_threshold_def)
      from Cons.IH[OF rest _ this] i True c show ?thesis by simp
    next
      case False
      have "scan_inv f ss (i + 1) d (c + 1)" using scan_inv_nondup[OF Cons.prems(3) c] False x by (simp add: above_threshold_def)
      from Cons.IH[OF rest _ this] i False c show ?thesis by simp
    qed
  qed
qed


lemma scan_inv_init: "scan_inv f ss 0 0 0"
  by (simp add: scan_inv_def)

lemma scan_layers_is_boundary: "is_boundary f ss (scan_layers f ss 0 0 0)"
  using scan_layers_boundary_gen[of 0 ss ss f 0 0] scan_inv_init by simp

lemma is_boundary_less_False:
  assumes d: "is_boundary f ss d" and d': "is_boundary f ss d'" and less: "d < d'"
  shows False
proof -
  from d' less have n: "d' < length ss" and D': "above_threshold f (ss ! d')"
    and nr: "\<forall>k. k + 2 < d' \<longrightarrow> above_threshold f (ss ! k) \<or> above_threshold f (ss ! (k + 1))
              \<or> above_threshold f (ss ! (k + 2))"
    by (auto simp: is_boundary_def)
  have dn: "d < length ss" using less n by simp
  show False
  proof (cases "above_threshold f (ss ! d)")
    case True
    with d dn have after: "\<forall>j. d < j \<and> j < length ss \<and> j \<le> d + 3 \<longrightarrow> \<not> above_threshold f (ss ! j)"
      by (simp add: is_boundary_def)
    have far: "d + 3 < d'"
    proof (rule ccontr)
      assume "\<not> d + 3 < d'"
      then have "d < d' \<and> d' < length ss \<and> d' \<le> d + 3" using less n by simp
      with after D' show False by blast
    qed
    have "\<not> above_threshold f (ss ! (d + 1))" "\<not> above_threshold f (ss ! (d + 2))"
      "\<not> above_threshold f (ss ! (d + 3))"
      using after[rule_format, of "d + 1"] after[rule_format, of "d + 2"]
        after[rule_format, of "d + 3"] far n
      by auto
    moreover have "(d + 1) + 2 < d'" using far by simp
    moreover have e: "d + 1 + 1 = d + 2" "d + 1 + 2 = d + 3" by simp_all
    ultimately show False using nr[rule_format, of "d + 1"] unfolding e by blast
  next
    case False
    with d dn have d0: "d = 0"
      and first: "\<forall>j. j < length ss \<and> j < 3 \<longrightarrow> \<not> above_threshold f (ss ! j)"
      by (auto simp: is_boundary_def)
    have far: "2 < d'"
    proof (rule ccontr)
      assume "\<not> 2 < d'"
      then have "d' < length ss \<and> d' < 3" using n by simp
      with first D' show False by blast
    qed
    have "\<not> above_threshold f (ss ! 0)" "\<not> above_threshold f (ss ! 1)" "\<not> above_threshold f (ss ! 2)"
    proof -
      have len: "0 < length ss" "1 < length ss" "2 < length ss" using far n by linarith+
      show "\<not> above_threshold f (ss ! 0)" using first[rule_format, of 0] len(1) by simp
      show "\<not> above_threshold f (ss ! 1)" using first[rule_format, of 1] len(2) by simp
      show "\<not> above_threshold f (ss ! 2)" using first[rule_format, of 2] len(3) by simp
    qed
    moreover have e: "0 + 1 = (1::nat)" "0 + 2 = (2::nat)" "(0::nat) + 2 < d'" using far by simp_all
    ultimately show False using nr[rule_format, of 0] unfolding e by blast
  qed
qed

lemma is_boundary_unique:
  "is_boundary f ss d \<Longrightarrow> is_boundary f ss d' \<Longrightarrow> d = d'"
  using is_boundary_less_False[of f ss d d'] is_boundary_less_False[of f ss d' d]
  by (meson linorder_neqE_nat)

lemma scan_layers_no_duplicate:
  assumes "\<forall>l\<in>set ss. f l \<le> 62 / 100"
  shows "scan_layers f ss 0 0 0 = 0"
proof (rule ccontr)
  let ?d = "scan_layers f ss 0 0 0"
  assume nz: "?d \<noteq> 0"
  have b: "is_boundary f ss ?d" by (rule scan_layers_is_boundary)
  with nz have "?d < length ss" "above_threshold f (ss ! ?d)" by (auto simp: is_boundary_def)
  with assms show False unfolding above_threshold_def by (metis not_less nth_mem)
qed

lemma first_run_boundary:
  assumes j: "0 < j" "j + 2 < length ss"
    and run: "\<not> above_threshold f (ss ! j)" "\<not> above_threshold f (ss ! (j + 1))"
             "\<not> above_threshold f (ss ! (j + 2))"
    and first: "\<forall>k<j. above_threshold f (ss ! k) \<or> above_threshold f (ss ! (k + 1))
                     \<or> above_threshold f (ss ! (k + 2))"
  shows "is_boundary f ss (j - 1)"
proof -
  have D: "above_threshold f (ss ! (j - 1))"
    using first[rule_format, of "j - 1"] j(1) run by (auto simp: numeral_2_eq_2)
  have after: "\<forall>i. j - 1 < i \<and> i < length ss \<and> i \<le> j - 1 + 3 \<longrightarrow> \<not> above_threshold f (ss ! i)"
  proof (intro allI impI)
    fix i assume "j - 1 < i \<and> i < length ss \<and> i \<le> j - 1 + 3"
    then have "i = j \<or> i = j + 1 \<or> i = j + 2" using j(1) by arith
    then show "\<not> above_threshold f (ss ! i)" using run by auto
  qed
  show ?thesis unfolding is_boundary_def using D after first j by auto
qed

lemma scan_layers_all_duplicates:
  assumes "\<forall>l\<in>set ss. f l > 62 / 100" and "ss \<noteq> []"
  shows "scan_layers f ss 0 0 0 = length ss - 1"
proof -
  have hi: "above_threshold f (ss ! i)" if "i < length ss" for i
    using assms(1) that by (simp add: above_threshold_def)
  have n: "0 < length ss" using assms(2) by simp
  have "is_boundary f ss (length ss - 1)"
    unfolding is_boundary_def using hi n by auto
  then show ?thesis
    using is_boundary_unique[OF scan_layers_is_boundary, of f ss "length ss - 1"] by simp
qed

text \<open>
  Claim C4. \<open>remove_duplicate_layers\<close> sorts the candidates by the top coordinate of
  their material-description rectangle, ascending, and returns the sorted candidates
  from the duplicate boundary index onward (inclusive), where the boundary is the index
  the scan ends with: the last candidate scoring above 0.62 among those visited before
  three consecutive candidates scored at most 0.62 (0 when there is none); this index
  is the only one satisfying \<open>is_boundary\<close>. For two completely dissimilar bitmaps
  (every score at most 0.62) all candidates are returned, in sorted order (unchanged
  when they were sorted already). For two identical bitmaps (every candidate is found
  on the previous page: every score exceeds 0.62, so that no three consecutive
  candidates score at most 0.62) the boundary is the last sorted candidate, and every
  candidate before it is removed. When the first three consecutive candidates scoring
  at most 0.62 are at the sorted positions \<open>j, j + 1, j + 2\<close> with \<open>j \<ge> 1\<close>, the
  boundary is \<open>j - 1\<close>, a candidate scoring above 0.62.
\<close>

theorem remove_duplicate_layers_boundary:
  "remove_duplicate_layers f ls
     = drop (scan_layers f (sort_key rect_top ls) 0 0 0) (sort_key rect_top ls)
   \<and> sorted (map rect_top (sort_key rect_top ls))
   \<and> mset (sort_key rect_top ls) = mset ls
   \<and> is_boundary f (sort_key rect_top ls) (scan_layers f (sort_key rect_top ls) 0 0 0)
   \<and> (\<forall>d. is_boundary f (sort_key rect_top ls) d
          \<longrightarrow> d = scan_layers f (sort_key rect_top ls) 0 0 0)
   \<and> ((\<forall>l\<in>set ls. f l \<le> 62 / 100)
          \<longrightarrow> remove_duplicate_layers f ls = sort_key rect_top ls)
   \<and> ((\<forall>l\<in>set ls. f l \<le> 62 / 100) \<and> sorted (map rect_top ls)
          \<longrightarrow> remove_duplicate_layers f ls = ls)
   \<and> ((\<forall>l\<in>set ls. f l > 62 / 100) \<and> ls \<noteq> []
          \<longrightarrow> remove_duplicate_layers f ls = [last (sort_key rect_top ls)]
              \<and> scan_layers f (sort_key rect_top ls) 0 0 0 = length ls - 1)
   \<and> (0 < j \<and> j + 2 < length ls
        \<and> \<not> above_threshold f (sort_key rect_top ls ! j)
        \<and> \<not> above_threshold f (sort_key rect_top ls ! (j + 1))
        \<and> \<not> above_threshold f (sort_key rect_top ls ! (j + 2))
        \<and> (\<forall>k<j. above_threshold f (sort_key rect_top ls ! k)
                 \<or> above_threshold f (sort_key rect_top ls ! (k + 1))
                 \<or> above_threshold f (sort_key rect_top ls ! (k + 2)))
          \<longrightarrow> remove_duplicate_layers f ls = drop (j - 1) (sort_key rect_top ls)
              \<and> above_threshold f (sort_key rect_top ls ! (j - 1)))"
proof -
  let ?ss = "sort_key rect_top ls"
  let ?d = "scan_layers f ?ss 0 0 0"
  have A: "remove_duplicate_layers f ls = drop ?d ?ss"
    by (simp add: remove_duplicate_layers_def Let_def)
  have B: "sorted (map rect_top ?ss)" by simp
  have C: "mset ?ss = mset ls" by simp
  have D: "is_boundary f ?ss ?d" by (rule scan_layers_is_boundary)
  have E: "\<forall>d. is_boundary f ?ss d \<longrightarrow> d = ?d"
    using is_boundary_unique[OF _ D] by blast
  have F: "(\<forall>l\<in>set ls. f l \<le> 62 / 100) \<longrightarrow> remove_duplicate_layers f ls = ?ss"
  proof
    assume "\<forall>l\<in>set ls. f l \<le> 62 / 100"
    then have "\<forall>l\<in>set ?ss. f l \<le> 62 / 100" by simp
    then have "?d = 0" by (rule scan_layers_no_duplicate)
    with A show "remove_duplicate_layers f ls = ?ss" by simp
  qed
  have G: "(\<forall>l\<in>set ls. f l \<le> 62 / 100) \<and> sorted (map rect_top ls)
             \<longrightarrow> remove_duplicate_layers f ls = ls"
  proof
    assume h: "(\<forall>l\<in>set ls. f l \<le> 62 / 100) \<and> sorted (map rect_top ls)"
    then have "remove_duplicate_layers f ls = ?ss" using F by blast
    moreover have "?ss = ls" using h by (simp add: sort_key_id_if_sorted)
    ultimately show "remove_duplicate_layers f ls = ls" by simp
  qed
  have I: "(\<forall>l\<in>set ls. f l > 62 / 100) \<and> ls \<noteq> []
          \<longrightarrow> remove_duplicate_layers f ls = [last ?ss] \<and> ?d = length ls - 1"
  proof
    assume h: "(\<forall>l\<in>set ls. f l > 62 / 100) \<and> ls \<noteq> []"
    then have all: "\<forall>l\<in>set ?ss. f l > 62 / 100" by simp
    have "length ?ss = length ls" by simp
    then have ne: "?ss \<noteq> []" using h by (metis length_0_conv)
    have d: "?d = length ?ss - 1" by (rule scan_layers_all_duplicates[OF all ne])
    have "drop (length ?ss - 1) ?ss = [last ?ss]"
      using ne by (metis append_butlast_last_id append_eq_conv_conj length_butlast)
    then show "remove_duplicate_layers f ls = [last ?ss] \<and> ?d = length ls - 1"
      using A d by simp
  qed
  have H: "0 < j \<and> j + 2 < length ls
        \<and> \<not> above_threshold f (?ss ! j)
        \<and> \<not> above_threshold f (?ss ! (j + 1))
        \<and> \<not> above_threshold f (?ss ! (j + 2))
        \<and> (\<forall>k<j. above_threshold f (?ss ! k) \<or> above_threshold f (?ss ! (k + 1))
                 \<or> above_threshold f (?ss ! (k + 2)))
          \<longrightarrow> remove_duplicate_layers f ls = drop (j - 1) ?ss
              \<and> above_threshold f (?ss ! (j - 1))"
  proof
    assume h: "0 < j \<and> j + 2 < length ls
        \<and> \<not> above_threshold f (?ss ! j)
        \<and> \<not> above_threshold f (?ss ! (j + 1))
        \<and> \<not> above_threshold f (?ss ! (j + 2))
        \<and> (\<forall>k<j. above_threshold f (?ss ! k) \<or> above_threshold f (?ss ! (k + 1))
                 \<or> above_threshold f (?ss ! (k + 2)))"
    from h have j0: "0 < j" and len: "j + 2 < length ?ss"
      and r0: "\<not> above_threshold f (?ss ! j)"
      and r1: "\<not> above_threshold f (?ss ! (j + 1))"
      and r2: "\<not> above_threshold f (?ss ! (j + 2))"
      and fst: "\<forall>k<j. above_threshold f (?ss ! k) \<or> above_threshold f (?ss ! (k + 1))
                 \<or> above_threshold f (?ss ! (k + 2))"
      by simp_all
    have b: "is_boundary f ?ss (j - 1)"
      by (rule first_run_boundary[OF j0 len r0 r1 r2 fst])
    have eq: "j - 1 = ?d" by (rule E[rule_format, OF b])
    have k: "j - 1 < j" using j0 by simp
    have e: "j - 1 + 1 = j" "j - 1 + 2 = j + 1" using j0 by simp_all
    have "above_threshold f (?ss ! (j - 1)) \<or> above_threshold f (?ss ! (j - 1 + 1))
                 \<or> above_threshold f (?ss ! (j - 1 + 2))"
      by (rule fst[rule_format, OF k])
    then have dj: "above_threshold f (?ss ! (j - 1))" unfolding e using r0 r1 by blast
    have "remove_duplicate_layers f ls = drop (j - 1) ?ss" unfolding eq by (rule A)
    then show "remove_duplicate_layers f ls = drop (j - 1) ?ss
              \<and> above_threshold f (?ss ! (j - 1))" using dj by (rule conjI)
  qed
  show ?thesis by (intro conjI A B C D E F G I H)
qed

theorem remove_duplicate_layers_boundary_witness:
  "list_all (\<lambda>l. (\<lambda>x::page_layer. 0::rat) l \<le> 62 / 100) [\<lparr>material_description_rect = (0, 1, 10, 2), material_description_lines = []\<rparr>, \<lparr>material_description_rect = (0, 0, 10, 1), material_description_lines = []\<rparr>]
   \<and> remove_duplicate_layers (\<lambda>x::page_layer. 0::rat) [\<lparr>material_description_rect = (0, 1, 10, 2), material_description_lines = []\<rparr>, \<lparr>material_description_rect = (0, 0, 10, 1), material_description_lines = []\<rparr>] = [\<lparr>material_description_rect = (0, 0, 10, 1), material_description_lines = []\<rparr>, \<lparr>material_description_rect = (0, 1, 10, 2), material_description_lines = []\<rparr>]
   \<and> list_all (\<lambda>l. (\<lambda>x::page_layer. 1::rat) l > 62 / 100) [\<lparr>material_description_rect = (0, 1, 10, 2), material_description_lines = []\<rparr>, \<lparr>material_description_rect = (0, 0, 10, 1), material_description_lines = []\<rparr>]
   \<and> [\<lparr>material_description_rect = (0, 1, 10, 2), material_description_lines = []\<rparr>, \<lparr>material_description_rect = (0, 0, 10, 1), material_description_lines = []\<rparr>] \<noteq> []
   \<and> remove_duplicate_layers (\<lambda>x::page_layer. 1::rat) [\<lparr>material_description_rect = (0, 1, 10, 2), material_description_lines = []\<rparr>, \<lparr>material_description_rect = (0, 0, 10, 1), material_description_lines = []\<rparr>] = [\<lparr>material_description_rect = (0, 1, 10, 2), material_description_lines = []\<rparr>]
   \<and> (0::nat) < 2 \<and> 2 + 2 < length [\<lparr>material_description_rect = (0, 1, 10, 2), material_description_lines = []\<rparr>,
      \<lparr>material_description_rect = (0, 0, 10, 1), material_description_lines = []\<rparr>,
      \<lparr>material_description_rect = (0, 2, 10, 3), material_description_lines = []\<rparr>,
      \<lparr>material_description_rect = (0, 3, 10, 4), material_description_lines = []\<rparr>,
      \<lparr>material_description_rect = (0, 4, 10, 5), material_description_lines = []\<rparr>]
   \<and> \<not> above_threshold (\<lambda>x. if rect_top x < 2 then (1::rat) else 0) (sort_key rect_top [\<lparr>material_description_rect = (0, 1, 10, 2), material_description_lines = []\<rparr>,
      \<lparr>material_description_rect = (0, 0, 10, 1), material_description_lines = []\<rparr>,
      \<lparr>material_description_rect = (0, 2, 10, 3), material_description_lines = []\<rparr>,
      \<lparr>material_description_rect = (0, 3, 10, 4), material_description_lines = []\<rparr>,
      \<lparr>material_description_rect = (0, 4, 10, 5), material_description_lines = []\<rparr>] ! 2)
   \<and> \<not> above_threshold (\<lambda>x. if rect_top x < 2 then (1::rat) else 0) (sort_key rect_top [\<lparr>material_description_rect = (0, 1, 10, 2), material_description_lines = []\<rparr>,
      \<lparr>material_description_rect = (0, 0, 10, 1), material_description_lines = []\<rparr>,
      \<lparr>material_description_rect = (0, 2, 10, 3), material_description_lines = []\<rparr>,
      \<lparr>material_description_rect = (0, 3, 10, 4), material_description_lines = []\<rparr>,
      \<lparr>material_description_rect = (0, 4, 10, 5), material_description_lines = []\<rparr>] ! (2 + 1))
   \<and> \<not> above_threshold (\<lambda>x. if rect_top x < 2 then (1::rat) else 0) (sort_key rect_top [\<lparr>material_description_rect = (0, 1, 10, 2), material_description_lines = []\<rparr>,
      \<lparr>material_description_rect = (0, 0, 10, 1), material_description_lines = []\<rparr>,
      \<lparr>material_description_rect = (0, 2, 10, 3), material_description_lines = []\<rparr>,
      \<lparr>material_description_rect = (0, 3, 10, 4), material_description_lines = []\<rparr>,
      \<lparr>material_description_rect = (0, 4, 10, 5), material_description_lines = []\<rparr>] ! (2 + 2))
   \<and> above_threshold (\<lambda>x. if rect_top x < 2 then (1::rat) else 0) (sort_key rect_top [\<lparr>material_description_rect = (0, 1, 10, 2), material_description_lines = []\<rparr>,
      \<lparr>material_description_rect = (0, 0, 10, 1), material_description_lines = []\<rparr>,
      \<lparr>material_description_rect = (0, 2, 10, 3), material_description_lines = []\<rparr>,
      \<lparr>material_description_rect = (0, 3, 10, 4), material_description_lines = []\<rparr>,
      \<lparr>material_description_rect = (0, 4, 10, 5), material_description_lines = []\<rparr>] ! 0)
   \<and> above_threshold (\<lambda>x. if rect_top x < 2 then (1::rat) else 0) (sort_key rect_top [\<lparr>material_description_rect = (0, 1, 10, 2), material_description_lines = []\<rparr>,
      \<lparr>material_description_rect = (0, 0, 10, 1), material_description_lines = []\<rparr>,
      \<lparr>material_description_rect = (0, 2, 10, 3), material_description_lines = []\<rparr>,
      \<lparr>material_description_rect = (0, 3, 10, 4), material_description_lines = []\<rparr>,
      \<lparr>material_description_rect = (0, 4, 10, 5), material_description_lines = []\<rparr>] ! 1)
   \<and> remove_duplicate_layers (\<lambda>x. if rect_top x < 2 then (1::rat) else 0) [\<lparr>material_description_rect = (0, 1, 10, 2), material_description_lines = []\<rparr>,
      \<lparr>material_description_rect = (0, 0, 10, 1), material_description_lines = []\<rparr>,
      \<lparr>material_description_rect = (0, 2, 10, 3), material_description_lines = []\<rparr>,
      \<lparr>material_description_rect = (0, 3, 10, 4), material_description_lines = []\<rparr>,
      \<lparr>material_description_rect = (0, 4, 10, 5), material_description_lines = []\<rparr>] = [\<lparr>material_description_rect = (0, 1, 10, 2), material_description_lines = []\<rparr>,
      \<lparr>material_description_rect = (0, 2, 10, 3), material_description_lines = []\<rparr>,
      \<lparr>material_description_rect = (0, 3, 10, 4), material_description_lines = []\<rparr>,
      \<lparr>material_description_rect = (0, 4, 10, 5), material_description_lines = []\<rparr>]"
proof -
  let ?f1 = "(\<lambda>x::page_layer. 0::rat)"
  let ?f2 = "(\<lambda>x. if rect_top x < 2 then (1::rat) else 0)"
  let ?l1 = "[\<lparr>material_description_rect = (0, 1, 10, 2), material_description_lines = []\<rparr>, \<lparr>material_description_rect = (0, 0, 10, 1), material_description_lines = []\<rparr>]"
  let ?l2 = "[\<lparr>material_description_rect = (0, 1, 10, 2), material_description_lines = []\<rparr>,
      \<lparr>material_description_rect = (0, 0, 10, 1), material_description_lines = []\<rparr>,
      \<lparr>material_description_rect = (0, 2, 10, 3), material_description_lines = []\<rparr>,
      \<lparr>material_description_rect = (0, 3, 10, 4), material_description_lines = []\<rparr>,
      \<lparr>material_description_rect = (0, 4, 10, 5), material_description_lines = []\<rparr>]"
  have s1: "sort_key rect_top ?l1 = [\<lparr>material_description_rect = (0, 0, 10, 1), material_description_lines = []\<rparr>, \<lparr>material_description_rect = (0, 1, 10, 2), material_description_lines = []\<rparr>]"
    by (simp add: rect_top_def)
  have s2: "sort_key rect_top ?l2 = [\<lparr>material_description_rect = (0, 0, 10, 1), material_description_lines = []\<rparr>,
      \<lparr>material_description_rect = (0, 1, 10, 2), material_description_lines = []\<rparr>,
      \<lparr>material_description_rect = (0, 2, 10, 3), material_description_lines = []\<rparr>,
      \<lparr>material_description_rect = (0, 3, 10, 4), material_description_lines = []\<rparr>,
      \<lparr>material_description_rect = (0, 4, 10, 5), material_description_lines = []\<rparr>]"
    by (simp add: rect_top_def)
  have h1: "\<forall>l\<in>set ?l1. ?f1 l \<le> 62 / 100" by simp
  have r1: "remove_duplicate_layers ?f1 ?l1 = [\<lparr>material_description_rect = (0, 0, 10, 1), material_description_lines = []\<rparr>, \<lparr>material_description_rect = (0, 1, 10, 2), material_description_lines = []\<rparr>]"
    using remove_duplicate_layers_boundary[of ?f1 ?l1 0, THEN conjunct2, THEN conjunct2,
        THEN conjunct2, THEN conjunct2, THEN conjunct2, THEN conjunct1] h1
    unfolding s1 by blast
  have a0: "above_threshold ?f2 (sort_key rect_top ?l2 ! 0)"
    and a1: "above_threshold ?f2 (sort_key rect_top ?l2 ! 1)"
    and a2: "\<not> above_threshold ?f2 (sort_key rect_top ?l2 ! 2)"
    and a3: "\<not> above_threshold ?f2 (sort_key rect_top ?l2 ! (2 + 1))"
    and a4: "\<not> above_threshold ?f2 (sort_key rect_top ?l2 ! (2 + 2))"
    unfolding s2 by (simp_all add: above_threshold_def rect_top_def)
  have len: "(0::nat) < 2 \<and> 2 + 2 < length ?l2" by simp
  have fst: "\<forall>k<2. above_threshold ?f2 (sort_key rect_top ?l2 ! k)
                 \<or> above_threshold ?f2 (sort_key rect_top ?l2 ! (k + 1))
                 \<or> above_threshold ?f2 (sort_key rect_top ?l2 ! (k + 2))"
  proof (intro allI impI)
    fix k :: nat assume "k < 2"
    then have "k = 0 \<or> k = 1" by arith
    then show "above_threshold ?f2 (sort_key rect_top ?l2 ! k)
                 \<or> above_threshold ?f2 (sort_key rect_top ?l2 ! (k + 1))
                 \<or> above_threshold ?f2 (sort_key rect_top ?l2 ! (k + 2))"
      using a0 a1 by auto
  qed
  have "remove_duplicate_layers ?f2 ?l2 = drop (2 - 1) (sort_key rect_top ?l2)"
    using remove_duplicate_layers_boundary[of ?f2 ?l2 2, THEN conjunct2, THEN conjunct2,
        THEN conjunct2, THEN conjunct2, THEN conjunct2, THEN conjunct2, THEN conjunct2,
        THEN conjunct2]
      len a2 a3 a4 fst
    by blast
  then have r2: "remove_duplicate_layers ?f2 ?l2 = [\<lparr>material_description_rect = (0, 1, 10, 2), material_description_lines = []\<rparr>,
      \<lparr>material_description_rect = (0, 2, 10, 3), material_description_lines = []\<rparr>,
      \<lparr>material_description_rect = (0, 3, 10, 4), material_description_lines = []\<rparr>,
      \<lparr>material_description_rect = (0, 4, 10, 5), material_description_lines = []\<rparr>]"
    unfolding s2 by simp
  have h4: "(\<forall>l\<in>set ?l1. (\<lambda>x::page_layer. 1::rat) l > 62 / 100) \<and> ?l1 \<noteq> []" by simp
  have "remove_duplicate_layers (\<lambda>x::page_layer. 1::rat) ?l1 = [last (sort_key rect_top ?l1)]"
    using remove_duplicate_layers_boundary[of "(\<lambda>x::page_layer. 1::rat)" ?l1 0, THEN conjunct2, THEN conjunct2,
        THEN conjunct2, THEN conjunct2, THEN conjunct2, THEN conjunct2, THEN conjunct2,
        THEN conjunct1] h4
    by blast
  then have r4: "remove_duplicate_layers (\<lambda>x::page_layer. 1::rat) ?l1 = [\<lparr>material_description_rect = (0, 1, 10, 2), material_description_lines = []\<rparr>]"
    unfolding s1 by simp
  have h4a: "list_all (\<lambda>l. (\<lambda>x::page_layer. 1::rat) l > 62 / 100) ?l1" by simp
  have h4b: "?l1 \<noteq> []" by simp
  have h1': "list_all (\<lambda>l. ?f1 l \<le> 62 / 100) ?l1" by simp
  show ?thesis
    by (intro conjI h1' r1 h4a h4b r4 a0 a1 a2 a3 a4 r2 len[THEN conjunct1] len[THEN conjunct2])
qed

section \<open>Theorems: the lines quad tree\<close>

lemma collect_keys_apply:
  "collect_keys q hm ks acc k =
     (if k \<in> set ks \<and> k \<noteq> q \<and> hm k \<noteq> None then hm k else acc k)"
  by (induction ks arbitrary: acc) auto

lemma collect_points_apply:
  "collect_points q hm ps acc k =
     (if (\<exists>p\<in>set ps. k \<in> set (snd p)) \<and> k \<noteq> q \<and> hm k \<noteq> None then hm k else acc k)"
  by (induction ps arbitrary: acc) (auto simp: collect_keys_apply)

lemma registered_within_bb:
  assumes "distinct (map fst (qtree s))"
  shows "(\<exists>p\<in>set (within_bb (qtree s) bb). k \<in> set (snd p))
         \<longleftrightarrow> (\<exists>c. bb_contains bb c \<and> registered s c k)"
proof
  assume "\<exists>p\<in>set (within_bb (qtree s) bb). k \<in> set (snd p)"
  then obtain c d where p: "(c, d) \<in> set (qtree s)" "bb_contains bb c" "k \<in> set d"
    by (auto simp: within_bb_def)
  then have "map_of (qtree s) c = Some d" using assms by simp
  with p have "bb_contains bb c \<and> registered s c k" by (simp add: registered_def)
  then show "\<exists>c. bb_contains bb c \<and> registered s c k" ..
next
  assume "\<exists>c. bb_contains bb c \<and> registered s c k"
  then obtain c d where "bb_contains bb c" "map_of (qtree s) c = Some d" "k \<in> set d"
    by (auto simp: registered_def split: option.splits)
  then have "(c, d) \<in> set (within_bb (qtree s) bb) \<and> k \<in> set (snd (c, d))"
    by (simp add: within_bb_def map_of_SomeD)
  then show "\<exists>p\<in>set (within_bb (qtree s) bb). k \<in> set (snd p)" by blast
qed

lemma neighbouring_lines_inv:
  assumes inv: "index_inv s" and live: "hashmap s q = Some L"
  shows "neighbouring_lines s q t =
     Neighbours (\<lambda>k. case hashmap s k of
         None \<Rightarrow> None
       | Some l \<Rightarrow>
           if k \<noteq> q \<and> (bb_contains (query_box L t) (rounded (line_start l))
                        \<or> bb_contains (query_box L t) (rounded (line_end l)))
           then Some l else None)"
proof -
  have d: "distinct (map fst (qtree s))" using inv by (simp add: index_inv_def)
  have reg: "\<And>k l. hashmap s k = Some l \<Longrightarrow>
            registered s (rounded (line_start l)) k \<and> registered s (rounded (line_end l)) k"
    using inv unfolding index_inv_def by blast
  have only_ends: "\<And>c k. registered s c k \<Longrightarrow>
            (\<exists>l. hashmap s k = Some l \<and> (c = rounded (line_start l) \<or> c = rounded (line_end l)))"
    using inv unfolding index_inv_def by blast
  have "collect_points q (hashmap s) (within_bb (qtree s) (query_box L t)) Map.empty k
      = (case hashmap s k of
         None \<Rightarrow> None
       | Some l \<Rightarrow>
           if k \<noteq> q \<and> (bb_contains (query_box L t) (rounded (line_start l))
                        \<or> bb_contains (query_box L t) (rounded (line_end l)))
           then Some l else None)" for k
  proof (cases "hashmap s k")
    case None
    then show ?thesis by (simp add: collect_points_apply)
  next
    case (Some l)
    have "(\<exists>c. bb_contains (query_box L t) c \<and> registered s c k)
          \<longleftrightarrow> (bb_contains (query_box L t) (rounded (line_start l))
                        \<or> bb_contains (query_box L t) (rounded (line_end l)))"
    proof
      assume "\<exists>c. bb_contains (query_box L t) c \<and> registered s c k"
      then obtain c where c: "bb_contains (query_box L t) c" "registered s c k" by blast
      from only_ends[OF c(2)] Some
      have "c = rounded (line_start l) \<or> c = rounded (line_end l)" by simp
      with c(1) show "bb_contains (query_box L t) (rounded (line_start l))
                        \<or> bb_contains (query_box L t) (rounded (line_end l))" by blast
    next
      assume "bb_contains (query_box L t) (rounded (line_start l))
                        \<or> bb_contains (query_box L t) (rounded (line_end l))"
      with reg[OF Some] show "\<exists>c. bb_contains (query_box L t) c \<and> registered s c k"
        by blast
    qed
    then show ?thesis using Some
      by (simp add: collect_points_apply registered_within_bb[OF d])
  qed
  then have "collect_points q (hashmap s) (within_bb (qtree s) (query_box L t)) Map.empty
      = (\<lambda>k. case hashmap s k of
         None \<Rightarrow> None
       | Some l \<Rightarrow>
           if k \<noteq> q \<and> (bb_contains (query_box L t) (rounded (line_start l))
                        \<or> bb_contains (query_box L t) (rounded (line_end l)))
           then Some l else None)"
    by (rule ext)
  then show ?thesis using live by (simp add: neighbouring_lines_def Let_def)
qed

lemma qt_set_data_fst: "map fst (qt_set_data qt c d) = map fst qt"
  by (induction qt) (auto simp: qt_set_data_def)

lemma map_of_qt_set_data:
  "map_of (qt_set_data qt c d) c' =
     (if c' = c \<and> map_of qt c \<noteq> None then Some d else map_of qt c')"
  by (induction qt) (auto simp: qt_set_data_def)

lemma map_of_qt_insert:
  "map_of qt c = None \<Longrightarrow>
     map_of (qt_insert qt c d) c' = (if c' = c then Some d else map_of qt c')"
  by (auto simp: qt_insert_def map_add_def split: option.splits)

lemma distinct_qt_insert:
  "map_of qt c = None \<Longrightarrow> distinct (map fst qt) \<Longrightarrow> distinct (map fst (qt_insert qt c d))"
  by (auto simp: qt_insert_def map_of_eq_None_iff)

lemma qtree_insert_hashmap: "hashmap (qtree_insert s p k) = hashmap s"
  by (simp add: qtree_insert_def Let_def split: option.splits)

lemma qtree_insert_distinct:
  "distinct (map fst (qtree s)) \<Longrightarrow> distinct (map fst (qtree (qtree_insert s p k)))"
  by (simp add: qtree_insert_def Let_def qt_find_def qt_set_data_fst distinct_qt_insert
      split: option.splits)

lemma qtree_insert_registered:
  "registered (qtree_insert s p k) c k' \<longleftrightarrow> registered s c k' \<or> (c = rounded p \<and> k' = k)"
  by (auto simp: registered_def qtree_insert_def Let_def qt_find_def map_of_qt_set_data
      map_of_qt_insert set_add_def split: option.splits if_splits)

lemma qtree_delete_hashmap: "qtree_delete s p k = Inr s' \<Longrightarrow> hashmap s' = hashmap s"
  by (auto simp: qtree_delete_def Let_def split: option.splits sum.splits)

lemma qtree_delete_distinct:
  "qtree_delete s p k = Inr s' \<Longrightarrow> distinct (map fst (qtree s))
     \<Longrightarrow> distinct (map fst (qtree s'))"
  by (auto simp: qtree_delete_def Let_def qt_set_data_fst split: option.splits sum.splits)

lemma qtree_delete_registered:
  "qtree_delete s p k = Inr s' \<Longrightarrow>
     registered s' c k' \<longleftrightarrow> registered s c k' \<and> \<not> (c = rounded p \<and> k' = k)"
  by (auto simp: registered_def qtree_delete_def Let_def qt_find_def map_of_qt_set_data
      set_remove_def split: option.splits sum.splits if_splits)

lemma index_inv_init: "index_inv (init_tree w h)"
  by (simp add: index_inv_def init_tree_def registered_def)

lemma add_line_hashmap: "hashmap (add_line s k l) = (hashmap s)(k \<mapsto> l)"
  by (simp add: add_line_def Let_def qtree_insert_hashmap)

lemma add_line_registered:
  "registered (add_line s k l) c k' \<longleftrightarrow>
     registered s c k' \<or> (k' = k \<and> (c = rounded (line_start l) \<or> c = rounded (line_end l)))"
proof -
  have "registered (s\<lparr>hashmap := (hashmap s)(k \<mapsto> l)\<rparr>) c k' = registered s c k'"
    by (simp add: registered_def)
  then show ?thesis
    by (auto simp: add_line_def Let_def qtree_insert_registered)
qed

lemma add_line_distinct:
  "distinct (map fst (qtree s)) \<Longrightarrow> distinct (map fst (qtree (add_line s k l)))"
  by (simp add: add_line_def Let_def qtree_insert_distinct)

lemma index_inv_add:
  assumes inv: "index_inv s" and fresh: "hashmap s k = None"
  shows "index_inv (add_line s k l)"
proof -
  have d: "distinct (map fst (qtree s))" using inv by (simp add: index_inv_def)
  have reg: "\<And>k l. hashmap s k = Some l \<Longrightarrow>
            registered s (rounded (line_start l)) k \<and> registered s (rounded (line_end l)) k"
    using inv unfolding index_inv_def by blast
  have only_ends: "\<And>c k. registered s c k \<Longrightarrow>
            (\<exists>l. hashmap s k = Some l \<and> (c = rounded (line_start l) \<or> c = rounded (line_end l)))"
    using inv unfolding index_inv_def by blast
  have a: "\<forall>k' l'. hashmap (add_line s k l) k' = Some l' \<longrightarrow>
            registered (add_line s k l) (rounded (line_start l')) k'
            \<and> registered (add_line s k l) (rounded (line_end l')) k'"
    using reg by (auto simp: add_line_hashmap add_line_registered)
  have b: "\<forall>c k'. registered (add_line s k l) c k' \<longrightarrow>
            (\<exists>l'. hashmap (add_line s k l) k' = Some l'
                 \<and> (c = rounded (line_start l') \<or> c = rounded (line_end l')))"
  proof (intro allI impI)
    fix c k' assume r: "registered (add_line s k l) c k'"
    show "\<exists>l'. hashmap (add_line s k l) k' = Some l'
                 \<and> (c = rounded (line_start l') \<or> c = rounded (line_end l'))"
    proof (cases "k' = k")
      case True
      with r fresh only_ends[of c k] show ?thesis
        by (auto simp: add_line_hashmap add_line_registered)
    next
      case False
      with r have "registered s c k'" by (simp add: add_line_registered)
      from only_ends[OF this] False show ?thesis by (simp add: add_line_hashmap)
    qed
  qed
  show ?thesis unfolding index_inv_def using add_line_distinct[OF d] a b by blast
qed

lemma remove_line_success:
  assumes "remove_line s k = (s', None)" and "hashmap s k = Some l"
  shows "hashmap s' = (hashmap s)(k := None)"
    and "distinct (map fst (qtree s)) \<Longrightarrow> distinct (map fst (qtree s'))"
    and "registered s' c k' \<longleftrightarrow>
           registered s c k' \<and> \<not> (k' = k \<and> (c = rounded (line_start l) \<or> c = rounded (line_end l)))"
proof -
  from assms obtain s1 s2 where
    s1: "qtree_delete s (line_start l) k = Inr s1" and
    s2: "qtree_delete s1 (line_end l) k = Inr s2" and
    s': "s' = s2\<lparr>hashmap := (hashmap s2)(k := None)\<rparr>"
    by (auto simp: remove_line_def split: sum.splits)
  show "hashmap s' = (hashmap s)(k := None)"
    using qtree_delete_hashmap[OF s1] qtree_delete_hashmap[OF s2] s' by simp
  show "distinct (map fst (qtree s)) \<Longrightarrow> distinct (map fst (qtree s'))"
    using qtree_delete_distinct[OF s1] qtree_delete_distinct[OF s2] s' by simp
  have "registered s' c k' = registered s2 c k'" using s' by (simp add: registered_def)
  then show "registered s' c k' \<longleftrightarrow>
           registered s c k' \<and> \<not> (k' = k \<and> (c = rounded (line_start l) \<or> c = rounded (line_end l)))"
    using qtree_delete_registered[OF s1, of c k'] qtree_delete_registered[OF s2, of c k']
    by auto
qed

lemma remove_line_unknown: "hashmap s k = None \<Longrightarrow> remove_line s k = (s, None)"
  by (simp add: remove_line_def)

lemma index_inv_remove:
  assumes inv: "index_inv s" and rm: "remove_line s k = (s', None)"
  shows "index_inv s'"
proof (cases "hashmap s k")
  case None
  with rm inv show ?thesis by (simp add: remove_line_unknown)
next
  case (Some l)
  note succ = remove_line_success[OF rm Some]
  have d: "distinct (map fst (qtree s))" using inv by (simp add: index_inv_def)
  have reg: "\<And>k l. hashmap s k = Some l \<Longrightarrow>
            registered s (rounded (line_start l)) k \<and> registered s (rounded (line_end l)) k"
    using inv unfolding index_inv_def by blast
  have only_ends: "\<And>c k. registered s c k \<Longrightarrow>
            (\<exists>l. hashmap s k = Some l \<and> (c = rounded (line_start l) \<or> c = rounded (line_end l)))"
    using inv unfolding index_inv_def by blast
  have a: "\<forall>k' l'. hashmap s' k' = Some l' \<longrightarrow>
            registered s' (rounded (line_start l')) k' \<and> registered s' (rounded (line_end l')) k'"
    using reg by (auto simp: succ(1) succ(3) split: if_splits)
  have b: "\<forall>c k'. registered s' c k' \<longrightarrow>
            (\<exists>l'. hashmap s' k' = Some l'
                 \<and> (c = rounded (line_start l') \<or> c = rounded (line_end l')))"
  proof (intro allI impI)
    fix c k' assume r: "registered s' c k'"
    then have r0: "registered s c k'"
      and nk: "\<not> (k' = k \<and> (c = rounded (line_start l) \<or> c = rounded (line_end l)))"
      by (simp_all add: succ(3))
    from only_ends[OF r0] obtain l' where l': "hashmap s k' = Some l'"
      "c = rounded (line_start l') \<or> c = rounded (line_end l')" by blast
    have "k' \<noteq> k" using nk l' Some by auto
    with l' show "\<exists>l'. hashmap s' k' = Some l'
                 \<and> (c = rounded (line_start l') \<or> c = rounded (line_end l'))"
      by (auto simp: succ(1))
  qed
  show ?thesis unfolding index_inv_def using succ(2)[OF d] a b by blast
qed

lemma reachable_index_inv: "reachable s \<Longrightarrow> index_inv s"
  by (induction rule: reachable.induct) (auto intro: index_inv_init index_inv_add index_inv_remove)





text \<open>
  Two indexes built by \<open>add\<close> and \<open>remove\<close> that hold the same lines under the same keys
  answer every query alike; a query for an unknown key returns the empty list and
  removing an unknown key changes nothing; removing a live key whose endpoints round to
  different points returns normally and leaves the index holding the other lines only;
  removing a live key whose endpoints round to the same point raises.
\<close>

lemma query_depends_on_hashmap:
  assumes "reachable s" and "reachable s'" and "hashmap s = hashmap s'"
  shows "neighbouring_lines s q t = neighbouring_lines s' q t"
proof (cases "hashmap s q")
  case None
  then show ?thesis using assms(3) by (simp add: neighbouring_lines_def)
next
  case (Some L)
  then have "hashmap s' q = Some L" using assms(3) by simp
  from neighbouring_lines_inv[OF reachable_index_inv[OF assms(1)] Some, of t]
       neighbouring_lines_inv[OF reachable_index_inv[OF assms(2)] this, of t]
  show ?thesis using assms(3) by simp
qed

lemma neighbouring_lines_unknown:
  "hashmap s k = None \<Longrightarrow> neighbouring_lines s k t = EmptyList"
  by (simp add: neighbouring_lines_def)

lemma remove_line_succeeds:
  assumes r: "reachable s" and live: "hashmap s k = Some l"
    and ne: "rounded (line_start l) \<noteq> rounded (line_end l)"
  shows "snd (remove_line s k) = None
         \<and> hashmap (fst (remove_line s k)) = (hashmap s)(k := None)
         \<and> reachable (fst (remove_line s k))"
proof -
  have inv: "index_inv s" using r by (rule reachable_index_inv)
  then have reg: "registered s (rounded (line_start l)) k" "registered s (rounded (line_end l)) k"
    using live unfolding index_inv_def by blast+
  from reg(1) obtain s1 where s1: "qtree_delete s (line_start l) k = Inr s1"
    by (auto simp: registered_def qtree_delete_def Let_def qt_find_def set_remove_def
        split: option.splits)
  have "registered s1 (rounded (line_end l)) k"
    using qtree_delete_registered[OF s1, of "rounded (line_end l)" k] reg(2) ne by auto
  then obtain s2 where s2: "qtree_delete s1 (line_end l) k = Inr s2"
    by (auto simp: registered_def qtree_delete_def Let_def qt_find_def set_remove_def
        split: option.splits)
  have rm: "remove_line s k = (s2\<lparr>hashmap := (hashmap s2)(k := None)\<rparr>, None)"
    using live s1 s2 by (simp add: remove_line_def)
  have "reachable (s2\<lparr>hashmap := (hashmap s2)(k := None)\<rparr>)"
    by (rule reachable_remove[OF r rm])
  then show ?thesis using rm remove_line_success(1)[OF rm live] by simp
qed

lemma remove_line_raises:
  assumes r: "reachable s" and live: "hashmap s k = Some l"
    and eq: "rounded (line_start l) = rounded (line_end l)"
  shows "snd (remove_line s k) = Some KeyError \<and> hashmap (fst (remove_line s k)) k = Some l"
proof -
  have inv: "index_inv s" using r by (rule reachable_index_inv)
  then have reg: "registered s (rounded (line_start l)) k"
    using live unfolding index_inv_def by blast
  from reg obtain s1 where s1: "qtree_delete s (line_start l) k = Inr s1"
    by (auto simp: registered_def qtree_delete_def Let_def qt_find_def set_remove_def
        split: option.splits)
  have d: "distinct (map fst (qtree s))" using inv by (simp add: index_inv_def)
  have nreg: "\<not> registered s1 (rounded (line_end l)) k"
    using qtree_delete_registered[OF s1, of "rounded (line_end l)" k] eq by simp
  have some: "map_of (qtree s1) (rounded (line_end l)) \<noteq> None"
    using s1 reg eq
    by (auto simp: registered_def qtree_delete_def Let_def qt_find_def set_remove_def
        map_of_qt_set_data split: option.splits if_splits)
  have "qtree_delete s1 (line_end l) k = Inl KeyError"
    using nreg some
    by (auto simp: registered_def qtree_delete_def Let_def qt_find_def set_remove_def
        split: option.splits)
  then have "remove_line s k = (s1, Some KeyError)"
    using live s1 by (simp add: remove_line_def)
  then show ?thesis using qtree_delete_hashmap[OF s1] live by simp
qed

text \<open>
  Claim C7 does not hold of the code for a line whose two endpoints round to the same
  integer point, here the line \<open>k\<close> from (5, 5) to (5.4, 5.2): \<open>remove\<close> raises
  \<open>KeyError\<close> at the second \<open>_qtree_delete\<close> and the key stays in the hashmap, so a
  later query for \<open>k\<close> still returns its neighbour \<open>m\<close>, while in the index where \<open>k\<close>
  was never inserted the query returns the empty list.
\<close>

theorem remove_line_short_line_raises:
  "snd (remove_line
         (add_line (add_line (init_tree 100 100) ''m''
            \<lparr>line_start = \<lparr>point_x = 5, point_y = 5\<rparr>, line_end = \<lparr>point_x = 50, point_y = 5\<rparr>\<rparr>) ''k''
            \<lparr>line_start = \<lparr>point_x = 5, point_y = 5\<rparr>,
              line_end = \<lparr>point_x = 27 / 5, point_y = 26 / 5\<rparr>\<rparr>) ''k'')
     = Some KeyError
   \<and> (case neighbouring_lines
         (fst (remove_line
           (add_line (add_line (init_tree 100 100) ''m''
            \<lparr>line_start = \<lparr>point_x = 5, point_y = 5\<rparr>, line_end = \<lparr>point_x = 50, point_y = 5\<rparr>\<rparr>) ''k''
            \<lparr>line_start = \<lparr>point_x = 5, point_y = 5\<rparr>,
              line_end = \<lparr>point_x = 27 / 5, point_y = 26 / 5\<rparr>\<rparr>) ''k'')) ''k'' 1
       of Neighbours m \<Rightarrow> m ''m'' | EmptyList \<Rightarrow> None)
     = Some \<lparr>line_start = \<lparr>point_x = 5, point_y = 5\<rparr>, line_end = \<lparr>point_x = 50, point_y = 5\<rparr>\<rparr>
   \<and> neighbouring_lines
         (add_line (init_tree 100 100) ''m''
            \<lparr>line_start = \<lparr>point_x = 5, point_y = 5\<rparr>, line_end = \<lparr>point_x = 50, point_y = 5\<rparr>\<rparr>)
         ''k'' 1 = EmptyList"
proof (intro conjI)
  show "snd (remove_line
         (add_line (add_line (init_tree 100 100) ''m''
            \<lparr>line_start = \<lparr>point_x = 5, point_y = 5\<rparr>, line_end = \<lparr>point_x = 50, point_y = 5\<rparr>\<rparr>) ''k''
            \<lparr>line_start = \<lparr>point_x = 5, point_y = 5\<rparr>,
              line_end = \<lparr>point_x = 27 / 5, point_y = 26 / 5\<rparr>\<rparr>) ''k'')
     = Some KeyError"
    by code_simp
  show "(case neighbouring_lines
         (fst (remove_line
           (add_line (add_line (init_tree 100 100) ''m''
            \<lparr>line_start = \<lparr>point_x = 5, point_y = 5\<rparr>, line_end = \<lparr>point_x = 50, point_y = 5\<rparr>\<rparr>) ''k''
            \<lparr>line_start = \<lparr>point_x = 5, point_y = 5\<rparr>,
              line_end = \<lparr>point_x = 27 / 5, point_y = 26 / 5\<rparr>\<rparr>) ''k'')) ''k'' 1
       of Neighbours m \<Rightarrow> m ''m'' | EmptyList \<Rightarrow> None)
     = Some \<lparr>line_start = \<lparr>point_x = 5, point_y = 5\<rparr>, line_end = \<lparr>point_x = 50, point_y = 5\<rparr>\<rparr>"
    by code_simp
  show "neighbouring_lines
         (add_line (init_tree 100 100) ''m''
            \<lparr>line_start = \<lparr>point_x = 5, point_y = 5\<rparr>, line_end = \<lparr>point_x = 50, point_y = 5\<rparr>\<rparr>)
         ''k'' 1 = EmptyList"
    by (simp add: neighbouring_lines_def add_line_hashmap init_tree_def)
qed

section \<open>Theorems: layer matching\<close>

lemma end_present_cases:
  "end_present l \<longleftrightarrow>
     (depth_interval l = None
      \<or> (\<exists>iv. depth_interval l = Some iv \<and> (interval_start iv \<noteq> None \<or> interval_end iv \<noteq> None)))"
  by (auto simp: end_present_def split: option.splits)

lemma match_loop_end_present:
  "end_present l \<Longrightarrow> match_loop l pm = Inr (find (exact_match l) pm)"
proof (induction pm)
  case Nil
  then show ?case by simp
next
  case (Cons g pm)
  show ?case
  proof (cases "depth_interval l")
    case None
    then show ?thesis using Cons by (simp add: exact_match_def)
  next
    case (Some iv)
    with Cons.prems have ep: "interval_start iv \<noteq> None \<or> interval_end iv \<noteq> None"
      by (simp add: end_present_def)
    show ?thesis
    proof (cases "interval_start iv")
      case None
      with ep obtain e where e: "interval_end iv = Some e" by auto
      show ?thesis using Some None e Cons
        by (simp add: starts_at_zero_def both_equal_def exact_match_def)
    next
      case (Some s)
      show ?thesis using \<open>depth_interval l = Some iv\<close> Some Cons
        by (cases "interval_end iv")
           (simp_all add: starts_at_zero_def both_equal_def exact_match_def)
    qed
  qed
qed

lemma match_loop_no_end:
  assumes "depth_interval l = Some iv" and "interval_start iv = None" and "interval_end iv = None"
  shows "match_loop l pm =
     (if list_ex (\<lambda>g. gt_start g = Some 0) pm then Inl AttributeError else Inr None)"
  using assms by (induction pm) (simp_all add: starts_at_zero_def both_equal_def)

lemma not_end_present:
  "\<not> end_present l \<longleftrightarrow>
     (\<exists>iv. depth_interval l = Some iv \<and> interval_start iv = None \<and> interval_end iv = None)"
  by (auto simp: end_present_def split: option.splits)

lemma match_loop_raises_iff:
  "match_loop l pm = Inl e \<longleftrightarrow>
     e = AttributeError \<and> \<not> end_present l \<and> list_ex (\<lambda>g. gt_start g = Some 0) pm"
proof (cases "end_present l")
  case True
  then show ?thesis by (simp add: match_loop_end_present)
next
  case False
  then obtain iv where iv: "depth_interval l = Some iv" "interval_start iv = None"
    "interval_end iv = None" using not_end_present by blast
  show ?thesis using False by (auto simp: match_loop_no_end[OF iv])
qed

lemma list_ex_filter: "list_ex P (filter Q xs) \<longleftrightarrow> list_ex (\<lambda>x. Q x \<and> P x) xs"
  by (induction xs) auto

lemma find_matching_layer_raises_iff:
  "find_matching_layer parse_text ratio l pool = Inl e \<longleftrightarrow>
     e = AttributeError \<and> raising_case parse_text ratio l pool"
proof -
  let ?pm = "filter (\<lambda>g. ratio (parse_text (material_description l)) (gt_material_description g)
                        > 9 / 10) pool"
  have "find_matching_layer parse_text ratio l pool = Inl e \<longleftrightarrow> match_loop l ?pm = Inl e"
  proof (cases ?pm)
    case Nil
    then show ?thesis by (simp add: find_matching_layer_def Let_def)
  next
    case (Cons a list)
    then show ?thesis
      by (cases "match_loop l ?pm")
         (auto simp: find_matching_layer_def Let_def split: option.splits)
  qed
  then show ?thesis
    by (simp add: match_loop_raises_iff raising_case_def list_ex_filter)
qed

lemma find_matching_layer_total:
  "end_present l \<Longrightarrow> \<exists>r. find_matching_layer parse_text ratio l pool = Inr r"
proof (cases "find_matching_layer parse_text ratio l pool")
  case (Inl e)
  assume "end_present l"
  with Inl show ?thesis by (simp add: find_matching_layer_raises_iff raising_case_def)
next
  case (Inr r)
  then show ?thesis by blast
qed

lemma evaluate_layers_loop_total:
  "\<forall>l\<in>set ls. end_present l \<Longrightarrow> \<exists>r. evaluate_layers_loop parse_text ratio ls pool = Inr r"
proof (induction ls arbitrary: pool)
  case Nil
  then show ?case by simp
next
  case (Cons l ls)
  then obtain found pool' where f: "find_matching_layer parse_text ratio l pool = Inr (found, pool')"
    using find_matching_layer_total[of l parse_text ratio pool] by auto
  have "\<forall>l\<in>set ls. end_present l" using Cons.prems by simp
  from Cons.IH[OF this, of pool']
  obtain r where "evaluate_layers_loop parse_text ratio ls pool' = Inr r" by blast
  then show ?case using f by (cases r) (simp add: Let_def)
qed

lemma evaluate_layers_loop_raises:
  "evaluate_layers_loop parse_text ratio pre pool = Inr (pre', pool')
     \<Longrightarrow> find_matching_layer parse_text ratio l pool' = Inl e
     \<Longrightarrow> evaluate_layers_loop parse_text ratio (pre @ l # post) pool = Inl e"
proof (induction pre arbitrary: pool pre')
  case Nil
  then show ?case by simp
next
  case (Cons a pre)
  then show ?case
    by (auto simp: Let_def split: sum.splits prod.splits)
qed

lemma max_from_mem: "max_from key best xs \<in> set (best # xs)"
  by (induction xs arbitrary: best) auto

lemma max_from_ge_best: "key best \<le> key (max_from key best xs)"
proof (induction xs arbitrary: best)
  case Nil
  then show ?case by simp
next
  case (Cons a xs)
  show ?case
  proof (cases "key best < key a")
    case True
    then show ?thesis using Cons[of a] by simp
  next
    case False
    then show ?thesis using Cons[of best] by simp
  qed
qed

lemma max_from_greatest: "x \<in> set (best # xs) \<Longrightarrow> key x \<le> key (max_from key best xs)"
proof (induction xs arbitrary: best x)
  case Nil
  then show ?case by simp
next
  case (Cons a xs)
  show ?case
  proof (cases "key best < key a")
    case True
    have "key best \<le> key (max_from key a xs)" using True max_from_ge_best[of key a xs] by simp
    moreover have "x \<in> set (a # xs) \<Longrightarrow> key x \<le> key (max_from key a xs)" by (rule Cons.IH)
    ultimately show ?thesis using Cons.prems True by auto
  next
    case False
    have "key a \<le> key (max_from key best xs)" using False max_from_ge_best[of key best xs] by simp
    moreover have "x \<in> set (best # xs) \<Longrightarrow> key x \<le> key (max_from key best xs)" by (rule Cons.IH)
    ultimately show ?thesis using Cons.prems False by auto
  qed
qed

lemma find_matching_layer_end_present:
  assumes "end_present l"
  shows "find_matching_layer parse_text ratio l pool =
     (case filter (\<lambda>g. ratio (parse_text (material_description l)) (gt_material_description g)
                         > 9 / 10) pool of
        [] \<Rightarrow> Inr (None, pool)
      | c # cs \<Rightarrow>
          (case find (exact_match l) (c # cs) of
             Some g \<Rightarrow> Inr (Some (g, True), remove1 g pool)
           | None \<Rightarrow>
               Inr (Some (max_from (\<lambda>x. ratio (parse_text (material_description l))
                                        (gt_material_description x)) c cs, False),
                    remove1 (max_from (\<lambda>x. ratio (parse_text (material_description l))
                                        (gt_material_description x)) c cs) pool)))"
proof -
  let ?pm = "filter (\<lambda>g. ratio (parse_text (material_description l)) (gt_material_description g)
                         > 9 / 10) pool"
  have ml: "match_loop l ?pm = Inr (find (exact_match l) ?pm)"
    by (rule match_loop_end_present[OF assms])
  show ?thesis
  proof (cases ?pm)
    case Nil
    then show ?thesis by (simp add: find_matching_layer_def Let_def)
  next
    case (Cons c cs)
    show ?thesis
      unfolding find_matching_layer_def Let_def ml unfolding Cons
      by (simp split: option.splits)
  qed
qed

lemma find_matching_layer_candidates:
  assumes "filter (\<lambda>g. ratio (parse_text (material_description l)) (gt_material_description g)
                         > 9 / 10) pool = c # cs"
  shows "find_matching_layer parse_text ratio l pool =
     (case match_loop l (c # cs) of
        Inl e \<Rightarrow> Inl e
      | Inr (Some possible_match) \<Rightarrow>
          Inr (Some (possible_match, True), remove1 possible_match pool)
      | Inr None \<Rightarrow>
          Inr (Some (max_from (\<lambda>x. ratio (parse_text (material_description l))
                                        (gt_material_description x)) c cs, False),
               remove1 (max_from (\<lambda>x. ratio (parse_text (material_description l))
                                        (gt_material_description x)) c cs) pool))"
  unfolding find_matching_layer_def Let_def assms by (simp del: match_loop.simps)

lemma match_loop_found:
  assumes "match_loop l pm = Inr (Some m)"
  shows "m \<in> set pm"
proof -
  have "end_present l"
  proof (rule ccontr)
    assume "\<not> end_present l"
    then obtain iv where iv: "depth_interval l = Some iv" "interval_start iv = None"
      "interval_end iv = None" using not_end_present by blast
    from assms show False by (simp add: match_loop_no_end[OF iv] split: if_splits)
  qed
  then have "find (exact_match l) pm = Some m"
    using assms by (simp add: match_loop_end_present)
  then show ?thesis by (auto simp: find_Some_iff)
qed

lemma find_matching_layer_consumes:
  assumes "find_matching_layer parse_text ratio l pool = Inr (Some (g, b), pool')"
  shows "g \<in> set pool
         \<and> ratio (parse_text (material_description l)) (gt_material_description g) > 9 / 10
         \<and> pool' = remove1 g pool"
proof -
  let ?key = "\<lambda>x. ratio (parse_text (material_description l)) (gt_material_description x)"
  let ?pm = "filter (\<lambda>g. ?key g > 9 / 10) pool"
  have mem: "g \<in> set ?pm \<and> pool' = remove1 g pool"
  proof (cases ?pm)
    case Nil
    with assms show ?thesis by (simp add: find_matching_layer_def Let_def)
  next
    case (Cons c cs)
    note unf = find_matching_layer_candidates[where ratio=ratio and parse_text=parse_text and l=l and pool=pool, OF Cons]
    show ?thesis
    proof (cases "match_loop l (c # cs)")
      case (Inl e)
      with assms show ?thesis unfolding unf by simp
    next
      case (Inr found)
      show ?thesis
      proof (cases found)
        case None
        from assms have "g = max_from ?key c cs \<and> pool' = remove1 g pool"
          unfolding unf Inr None by auto
        then show ?thesis using max_from_mem[of ?key c cs] unfolding Cons by simp
      next
        case (Some m)
        from assms have g: "g = m \<and> pool' = remove1 g pool"
          unfolding unf Inr Some by auto
        have "match_loop l (c # cs) = Inr (Some m)" unfolding Inr Some ..
        then have "m \<in> set (c # cs)" by (rule match_loop_found)
        with g show ?thesis unfolding Cons by simp
      qed
    qed
  qed
  then show ?thesis by simp
qed

lemma find_matching_layer_none:
  assumes "find_matching_layer parse_text ratio l pool = Inr (None, pool')"
  shows "pool' = pool
     \<and> filter (\<lambda>g. ratio (parse_text (material_description l)) (gt_material_description g)
                     > 9 / 10) pool = []"
  using assms
  by (auto simp: find_matching_layer_def Let_def split: list.splits sum.splits option.splits)

lemma evaluate_layers_loop_consumes:
  "evaluate_layers_loop parse_text ratio ls pool = Inr (ls', pool') \<Longrightarrow>
     length ls' = length ls
     \<and> mset pool' \<subseteq># mset pool
     \<and> length pool = length pool' + length (filter (\<lambda>l. material_is_correct l = Some True) ls')"
proof (induction ls arbitrary: pool ls' pool')
  case Nil
  then show ?case by simp
next
  case (Cons l ls)
  from Cons.prems obtain found p1 rest' where
    f: "find_matching_layer parse_text ratio l pool = Inr (found, p1)" and
    r: "evaluate_layers_loop parse_text ratio ls p1 = Inr (rest', pool')" and
    ls': "ls' = (case found of
                    Some (m, d) \<Rightarrow> l\<lparr>material_is_correct := Some True,
                            depth_interval_is_correct := Some d\<rparr>
                  | None \<Rightarrow> l\<lparr>material_is_correct := Some False,
                            depth_interval_is_correct := None\<rparr>) # rest'"
    by (auto simp: Let_def split: sum.splits prod.splits)
  note ih = Cons.IH[OF r]
  show ?case
  proof (cases found)
    case None
    with f have "p1 = pool" using find_matching_layer_none by blast
    with ih ls' None show ?thesis by simp
  next
    case (Some mb)
    obtain m b where mb: "mb = (m, b)" by (cases mb)
    from find_matching_layer_consumes[OF f[unfolded Some mb]]
    have m: "m \<in> set pool" "p1 = remove1 m pool" by simp_all
    have "mset p1 \<subseteq># mset pool" using m by simp
    moreover have "length pool = Suc (length p1)" using m by (simp add: length_remove1) (metis One_nat_def Suc_pred length_pos_if_in_set)
    ultimately show ?thesis using ih ls' Some mb
      by (auto intro: subset_mset.order_trans)
  qed
qed

text \<open>
  Claim C10. If a predicted layer's depth interval is present with neither start nor
  end, and some ground-truth candidate (similarity above 0.9) has the start 0, then
  \<open>_find_matching_layer\<close> raises \<open>AttributeError\<close>, and so does \<open>evaluate_layers\<close>
  when it reaches that layer with such a pool, whatever layers came before. This is the
  only way the matching raises. It returns a
  result for every pool when the precondition \<open>end_present\<close> holds (a present interval
  without start has an end), and \<open>evaluate_layers\<close> returns when all layers satisfy it;
  when a layer violates it, the pool holding one entry of start 0 with a similar text
  makes the matching raise.
\<close>

theorem find_matching_layer_raises:
  "(depth_interval l = Some iv \<and> interval_start iv = None \<and> interval_end iv = None
      \<and> g \<in> set pool
      \<and> ratio (parse_text (material_description l)) (gt_material_description g) > 9 / 10
      \<and> gt_start g = Some 0
     \<longrightarrow> find_matching_layer parse_text ratio l pool = Inl AttributeError
         \<and> evaluate_layers_loop parse_text ratio (l # rest) pool = Inl AttributeError
         \<and> evaluate_layers parse_text ratio (self\<lparr>layers := l # rest\<rparr>) pool = Inl AttributeError)
   \<and> (evaluate_layers_loop parse_text ratio before ground_truth_layers = Inr (before', pool)
      \<and> find_matching_layer parse_text ratio l pool = Inl AttributeError
     \<longrightarrow> evaluate_layers parse_text ratio (self\<lparr>layers := before @ l # rest\<rparr>) ground_truth_layers
           = Inl AttributeError)
   \<and> (find_matching_layer parse_text ratio l pool = Inl e
     \<longrightarrow> e = AttributeError \<and> raising_case parse_text ratio l pool)
   \<and> (end_present l \<longrightarrow> (\<exists>r. find_matching_layer parse_text ratio l pool = Inr r))
   \<and> ((\<forall>x\<in>set ls. end_present x)
     \<longrightarrow> (\<exists>r. evaluate_layers parse_text ratio (self\<lparr>layers := ls\<rparr>) pool = Inr r))
   \<and> (\<not> end_present l \<and> ratio (parse_text (material_description l)) t > 9 / 10
     \<longrightarrow> find_matching_layer parse_text ratio l
           [\<lparr>gt_material_description = t, gt_start = Some 0, gt_end = en\<rparr>] = Inl AttributeError)"
proof (intro conjI impI)
  assume h: "depth_interval l = Some iv \<and> interval_start iv = None \<and> interval_end iv = None
      \<and> g \<in> set pool
      \<and> ratio (parse_text (material_description l)) (gt_material_description g) > 9 / 10
      \<and> gt_start g = Some 0"
  then have "\<not> end_present l" by (simp add: end_present_def)
  moreover have "list_ex (\<lambda>g. ratio (parse_text (material_description l)) (gt_material_description g)
                      > 9 / 10 \<and> gt_start g = Some 0) pool"
    using h unfolding list_ex_iff by blast
  ultimately have rc: "raising_case parse_text ratio l pool" by (simp add: raising_case_def)
  then show f: "find_matching_layer parse_text ratio l pool = Inl AttributeError"
    by (simp add: find_matching_layer_raises_iff)
  then show lp: "evaluate_layers_loop parse_text ratio (l # rest) pool = Inl AttributeError"
    by simp
  then show "evaluate_layers parse_text ratio (self\<lparr>layers := l # rest\<rparr>) pool = Inl AttributeError"
    by (simp add: evaluate_layers_def)
next
  assume "evaluate_layers_loop parse_text ratio before ground_truth_layers = Inr (before', pool)
      \<and> find_matching_layer parse_text ratio l pool = Inl AttributeError"
  then have "evaluate_layers_loop parse_text ratio (before @ l # rest) ground_truth_layers
      = Inl AttributeError"
    using evaluate_layers_loop_raises[of parse_text ratio before ground_truth_layers before' pool l
        AttributeError rest]
    by blast
  then show "evaluate_layers parse_text ratio (self\<lparr>layers := before @ l # rest\<rparr>)
      ground_truth_layers = Inl AttributeError"
    by (simp add: evaluate_layers_def)
next
  assume "find_matching_layer parse_text ratio l pool = Inl e"
  then show "e = AttributeError" "raising_case parse_text ratio l pool"
    by (simp_all add: find_matching_layer_raises_iff)
next
  assume "end_present l"
  then show "\<exists>r. find_matching_layer parse_text ratio l pool = Inr r"
    by (rule find_matching_layer_total)
next
  assume "\<forall>x\<in>set ls. end_present x"
  from evaluate_layers_loop_total[OF this, of parse_text ratio pool]
  obtain r where "evaluate_layers_loop parse_text ratio ls pool = Inr r" by blast
  then show "\<exists>r. evaluate_layers parse_text ratio (self\<lparr>layers := ls\<rparr>) pool = Inr r"
    by (cases r) (simp add: evaluate_layers_def)
next
  assume "\<not> end_present l \<and> ratio (parse_text (material_description l)) t > 9 / 10"
  then have "raising_case parse_text ratio l
           [\<lparr>gt_material_description = t, gt_start = Some 0, gt_end = en\<rparr>]"
    by (simp add: raising_case_def)
  then show "find_matching_layer parse_text ratio l
           [\<lparr>gt_material_description = t, gt_start = Some 0, gt_end = en\<rparr>] = Inl AttributeError"
    by (simp add: find_matching_layer_raises_iff)
qed

theorem find_matching_layer_raises_witness:
  "depth_interval \<lparr>material_description = ''Sand'',
        depth_interval = Some \<lparr>interval_start = None, interval_end = None\<rparr>,
        material_is_correct = None, depth_interval_is_correct = None\<rparr>
     = Some \<lparr>interval_start = None, interval_end = None\<rparr>
   \<and> interval_start \<lparr>interval_start = None, interval_end = None\<rparr> = None
   \<and> interval_end \<lparr>interval_start = None, interval_end = None\<rparr> = None
   \<and> \<lparr>gt_material_description = ''Sand'', gt_start = Some 0, gt_end = Some 3\<rparr>
       \<in> set [\<lparr>gt_material_description = ''Sand'', gt_start = Some 0, gt_end = Some 3\<rparr>]
   \<and> (if ''Sand'' = gt_material_description
          \<lparr>gt_material_description = ''Sand'', gt_start = Some 0, gt_end = Some 3\<rparr>
        then (1::rat) else 0) > 9 / 10
   \<and> find_matching_layer (\<lambda>t. t) (\<lambda>a b. if a = b then 1 else 0)
        \<lparr>material_description = ''Sand'',
         depth_interval = Some \<lparr>interval_start = None, interval_end = None\<rparr>,
         material_is_correct = None, depth_interval_is_correct = None\<rparr>
        [\<lparr>gt_material_description = ''Sand'', gt_start = Some 0, gt_end = Some 3\<rparr>]
       = Inl AttributeError
   \<and> end_present \<lparr>material_description = ''Sand'',
         depth_interval = Some \<lparr>interval_start = None, interval_end = Some \<lparr>entry_value = 3\<rparr>\<rparr>,
         material_is_correct = None, depth_interval_is_correct = None\<rparr>
   \<and> (\<exists>r. find_matching_layer (\<lambda>t. t) (\<lambda>a b. if a = b then 1 else 0)
        \<lparr>material_description = ''Sand'',
         depth_interval = Some \<lparr>interval_start = None, interval_end = Some \<lparr>entry_value = 3\<rparr>\<rparr>,
         material_is_correct = None, depth_interval_is_correct = None\<rparr>
        [\<lparr>gt_material_description = ''Sand'', gt_start = Some 0, gt_end = Some 3\<rparr>] = Inr r)"
proof -
  let ?iv = "\<lparr>interval_start = None, interval_end = None\<rparr>"
  let ?l0 = "\<lparr>material_description = ''Sand'', depth_interval = Some ?iv,
         material_is_correct = None, depth_interval_is_correct = None\<rparr>"
  let ?l1 = "\<lparr>material_description = ''Sand'',
         depth_interval = Some \<lparr>interval_start = None, interval_end = Some \<lparr>entry_value = 3\<rparr>\<rparr>,
         material_is_correct = None, depth_interval_is_correct = None\<rparr>"
  let ?g = "\<lparr>gt_material_description = ''Sand'', gt_start = Some 0, gt_end = Some 3\<rparr>"
  let ?R = "\<lambda>a b :: string. if a = b then (1::rat) else 0"
  let ?P = "\<lambda>t :: string. t"
  have h: "depth_interval ?l0 = Some ?iv \<and> interval_start ?iv = None \<and> interval_end ?iv = None
      \<and> ?g \<in> set [?g]
      \<and> ?R (?P (material_description ?l0)) (gt_material_description ?g) > 9 / 10
      \<and> gt_start ?g = Some 0"
    by simp
  have raise: "find_matching_layer ?P ?R ?l0 [?g] = Inl AttributeError"
    using find_matching_layer_raises[where l = ?l0 and iv = ?iv and g = ?g and pool = "[?g]"
        and ratio = ?R and parse_text = ?P, THEN conjunct1] h
    by blast
  have ep: "end_present ?l1" by (simp add: end_present_def)
  have tot: "\<exists>r. find_matching_layer ?P ?R ?l1 [?g] = Inr r"
    using find_matching_layer_raises[where l = ?l1 and pool = "[?g]"
        and ratio = ?R and parse_text = ?P, THEN conjunct2, THEN conjunct2, THEN conjunct2,
        THEN conjunct1] ep
    by blast
  show ?thesis using h raise ep tot by simp
qed

text \<open>
  Claim C1 does not hold of the code at a layer whose depth interval is present with
  neither start nor end: the ground-truth entry with the same text and start 0 is a
  candidate and is not an exact depth match, so the claim has it removed from the pool
  and the layer marked material-correct, interval-incorrect; the code raises
  \<open>AttributeError\<close>. For layers that satisfy \<open>end_present\<close> the matching does what
  the claim says (lemmas \<open>find_matching_layer_end_present\<close>, \<open>max_from_greatest\<close>,
  \<open>find_matching_layer_consumes\<close> and \<open>evaluate_layers_loop_consumes\<close>).
\<close>

theorem evaluate_layers_absent_end_raises:
  "filter (\<lambda>g. (if ''Clay, brown'' = gt_material_description g then (1::rat) else 0) > 9 / 10)
      [\<lparr>gt_material_description = ''Clay, brown'', gt_start = Some 0, gt_end = Some 2\<rparr>]
     = [\<lparr>gt_material_description = ''Clay, brown'', gt_start = Some 0, gt_end = Some 2\<rparr>]
   \<and> \<not> exact_match
        \<lparr>material_description = ''Clay, brown'',
         depth_interval = Some \<lparr>interval_start = None, interval_end = None\<rparr>,
         material_is_correct = None, depth_interval_is_correct = None\<rparr>
        \<lparr>gt_material_description = ''Clay, brown'', gt_start = Some 0, gt_end = Some 2\<rparr>
   \<and> find_matching_layer (\<lambda>t. t) (\<lambda>a b. if a = b then 1 else 0)
        \<lparr>material_description = ''Clay, brown'',
         depth_interval = Some \<lparr>interval_start = None, interval_end = None\<rparr>,
         material_is_correct = None, depth_interval_is_correct = None\<rparr>
        [\<lparr>gt_material_description = ''Clay, brown'', gt_start = Some 0, gt_end = Some 2\<rparr>]
       = Inl AttributeError
   \<and> evaluate_layers (\<lambda>t. t) (\<lambda>a b. if a = b then 1 else 0)
        \<lparr>layers = [\<lparr>material_description = ''Clay, brown'',
           depth_interval = Some \<lparr>interval_start = None, interval_end = None\<rparr>,
           material_is_correct = None, depth_interval_is_correct = None\<rparr>],
         file_name = ''borehole.pdf'', language = ''de'', metadata = None,
         metadata_is_correct = Map.empty\<rparr>
        [\<lparr>gt_material_description = ''Clay, brown'', gt_start = Some 0, gt_end = Some 2\<rparr>]
       = Inl AttributeError"
  by (simp add: find_matching_layer_def evaluate_layers_def exact_match_def starts_at_zero_def
      both_equal_def Let_def)

section \<open>Theorems: metadata evaluation\<close>

subsection \<open>Rounding to the nearest double\<close>

lemma bit_length_bounds:
  "0 < n \<Longrightarrow> 2 ^ (bit_length n - 1) \<le> n \<and> n < 2 ^ bit_length n"
proof (induction n rule: bit_length.induct)
  case (1 n)
  show ?case
  proof (cases "n div 2 \<le> 0")
    case True
    then have n1: "n = 1" using 1(2) by presburger
    have "bit_length 1 = Suc 0"
      by (simp add: bit_length.simps[of 1] bit_length.simps[of 0])
    then show ?thesis unfolding n1 by simp
  next
    case False
    let ?m = "n div 2"
    have m: "0 < ?m" using False by simp
    have ih: "2 ^ (bit_length ?m - 1) \<le> ?m \<and> ?m < 2 ^ bit_length ?m"
      using 1(1) 1(2) m by simp
    have bl: "bit_length n = Suc (bit_length ?m)"
      using 1(2) by (simp add: bit_length.simps[of n])
    have pos: "0 < bit_length ?m" using m by (simp add: bit_length.simps[of ?m])
    have "(2::int) ^ bit_length ?m = 2 * 2 ^ (bit_length ?m - 1)"
      using pos by (cases "bit_length ?m") simp_all
    then have lo: "2 ^ bit_length ?m \<le> n" using ih by linarith
    have "?m + 1 \<le> 2 ^ bit_length ?m" using ih by linarith
    then have "2 * ?m + 2 \<le> 2 ^ Suc (bit_length ?m)" by simp
    moreover have "n < 2 * ?m + 2" by linarith
    ultimately have hi: "n < 2 ^ Suc (bit_length ?m)" by linarith
    show ?thesis unfolding bl using lo hi by simp
  qed
qed

lemma bit_length_pos: "0 < n \<Longrightarrow> 0 < bit_length n"
  by (simp add: bit_length.simps[of n])

lemma float_exponent_bounds:
  assumes "x \<noteq> 0"
  shows "power_int 2 (float_exponent x) \<le> \<bar>x\<bar> \<and> \<bar>x\<bar> < power_int 2 (float_exponent x + 1)"
proof (cases "1 \<le> \<bar>x\<bar>")
  case True
  let ?n = "\<lfloor>\<bar>x\<bar>\<rfloor>"
  let ?b = "bit_length ?n"
  have n: "0 < ?n" using True by simp
  note bb = bit_length_bounds[OF n]
  have bpos: "0 < ?b" by (rule bit_length_pos[OF n])
  have e: "float_exponent x = int (?b - 1)" using True bpos
    by (simp add: float_exponent_def of_nat_diff)
  have e1: "float_exponent x + 1 = int ?b" using True
    by (simp add: float_exponent_def)
  have "(of_int (2 ^ (?b - 1)) :: rat) \<le> of_int ?n" using bb by (simp only: of_int_le_iff)
  also have "\<dots> \<le> \<bar>x\<bar>" by simp
  finally have lo: "(2 :: rat) ^ (?b - 1) \<le> \<bar>x\<bar>" by simp
  have "?n + 1 \<le> 2 ^ ?b" using bb by linarith
  then have "(of_int (?n + 1) :: rat) \<le> of_int (2 ^ ?b)" by (simp only: of_int_le_iff)
  then have "(of_int ?n :: rat) + 1 \<le> 2 ^ ?b" by simp
  moreover have "\<bar>x\<bar> < of_int ?n + 1" by linarith
  ultimately have hi: "\<bar>x\<bar> < (2 :: rat) ^ ?b" by linarith
  show ?thesis unfolding e1 unfolding e using lo hi by (simp only: power_int_of_nat)
next
  case False
  then have x1: "\<bar>x\<bar> < 1" by simp
  have x0: "0 < \<bar>x\<bar>" using assms by simp
  let ?y = "1 / \<bar>x\<bar>"
  let ?c = "\<lceil>?y\<rceil>"
  let ?n = "?c - 1"
  let ?k = "bit_length ?n"
  have y1: "1 < ?y" using x0 x1 by (simp add: field_simps)
  then have c2: "2 \<le> ?c" by linarith
  then have n: "0 < ?n" by linarith
  note bb = bit_length_bounds[OF n]
  have kpos: "0 < ?k" by (rule bit_length_pos[OF n])
  have e: "float_exponent x = - int ?k" using False by (simp add: float_exponent_def)
  have e1: "float_exponent x + 1 = - int (?k - 1)" using kpos unfolding e
    by (simp add: of_nat_diff)
  have "(of_int (2 ^ (?k - 1)) :: rat) \<le> of_int ?n" using bb by (simp only: of_int_le_iff)
  then have "(2 :: rat) ^ (?k - 1) \<le> of_int ?c - 1" by (simp only: of_int_diff of_int_1 of_int_power of_int_numeral)
  moreover have "of_int ?c - 1 < ?y" by linarith
  ultimately have a: "(2 :: rat) ^ (?k - 1) < ?y" by linarith
  have "?n + 1 \<le> 2 ^ ?k" using bb by linarith
  then have "?c \<le> 2 ^ ?k" by simp
  then have "(of_int ?c :: rat) \<le> of_int (2 ^ ?k)" by (simp only: of_int_le_iff)
  then have "of_int ?c \<le> (2 :: rat) ^ ?k" by simp
  moreover have "?y \<le> of_int ?c" by linarith
  ultimately have b: "?y \<le> (2 :: rat) ^ ?k" by linarith
  have lo: "1 / 2 ^ ?k \<le> \<bar>x\<bar>"
  proof -
    have "1 \<le> 2 ^ ?k * \<bar>x\<bar>" using b x0 by (simp add: field_simps)
    then show ?thesis by (simp add: field_simps)
  qed
  have hi: "\<bar>x\<bar> < 1 / 2 ^ (?k - 1)"
  proof -
    have "2 ^ (?k - 1) * \<bar>x\<bar> < 1" using a x0 by (simp add: field_simps)
    then show ?thesis by (simp add: field_simps)
  qed
  have p1: "power_int (2 :: rat) (- int ?k) = 1 / 2 ^ ?k"
    by (simp add: power_int_minus_divide)
  have p2: "power_int (2 :: rat) (- int (?k - 1)) = 1 / 2 ^ (?k - 1)"
    by (simp only: power_int_minus_divide power_int_of_nat)
  show ?thesis unfolding e1 unfolding e p1 p2 using lo hi by simp
qed

lemma py_round_of_int: "py_round (of_int m) = m"
  by (simp add: py_round_def)

lemma py_round_error: "\<bar>of_int (py_round q) - q\<bar> \<le> 1 / 2"
proof -
  let ?f = "\<lfloor>q\<rfloor>"
  have a: "of_int ?f \<le> q" and b: "q < of_int ?f + 1" by linarith+
  consider "q - of_int ?f < 1 / 2" | "1 / 2 < q - of_int ?f" | "q - of_int ?f = 1 / 2"
    by linarith
  then show ?thesis
  proof cases
    case 1
    then have "py_round q = ?f" by (simp add: py_round_def Let_def)
    then show ?thesis using a 1 by simp
  next
    case 2
    then have "py_round q = ?f + 1" by (simp add: py_round_def Let_def)
    then show ?thesis using b 2 by simp
  next
    case 3
    then have "py_round q = ?f \<or> py_round q = ?f + 1" by (simp add: py_round_def Let_def)
    then show ?thesis using 3 by auto
  qed
qed

lemma pow2_exponent_less:
  assumes "power_int (2 :: rat) a \<le> v" and "v < power_int 2 b"
  shows "a < b"
proof (rule ccontr)
  assume "\<not> a < b"
  then have "b \<le> a" by simp
  then have "power_int (2 :: rat) b \<le> power_int 2 a" by (rule power_int_increasing) simp
  then show False using assms by linarith
qed

lemma to_double_exact:
  assumes x: "x = of_int m * power_int 2 (max (float_exponent x) (- 1022) - 52)"
  shows "to_double x = x"
proof (cases "x = 0")
  case True
  then show ?thesis by (simp add: to_double_def)
next
  case False
  let ?u = "power_int (2 :: rat) (max (float_exponent x) (- 1022) - 52)"
  have u: "?u \<noteq> 0" by simp
  have "x / ?u = of_int m * ?u / ?u" using x by simp
  then have q: "x / ?u = of_int m" using u by simp
  have "to_double x = of_int (py_round (x / ?u)) * ?u"
    using False by (simp add: to_double_def Let_def)
  also have "\<dots> = of_int m * ?u" unfolding q py_round_of_int ..
  finally show ?thesis using x by simp
qed

lemma to_double_int:
  assumes z: "\<bar>z\<bar> \<le> 2 ^ 53"
  shows "to_double (of_int z) = of_int z"
proof (cases "z = 0")
  case True
  then show ?thesis by (simp add: to_double_def)
next
  case False
  let ?x = "of_int z :: rat"
  let ?e = "float_exponent ?x"
  have x0: "?x \<noteq> 0" using False by simp
  note eb = float_exponent_bounds[OF x0]
  have x1: "1 \<le> \<bar>?x\<bar>"
  proof -
    have "1 \<le> \<bar>z\<bar>" using False by simp
    then have "(of_int 1 :: rat) \<le> of_int \<bar>z\<bar>" by (simp only: of_int_le_iff)
    then show ?thesis by simp
  qed
  have x53: "\<bar>?x\<bar> \<le> 2 ^ 53"
  proof -
    have "(of_int \<bar>z\<bar> :: rat) \<le> of_int (2 ^ 53)" using z by (simp only: of_int_le_iff)
    then show ?thesis by simp
  qed
  have "power_int (2 :: rat) 0 \<le> \<bar>?x\<bar>" using x1 by simp
  then have "0 < ?e + 1" using eb by (intro pow2_exponent_less[of 0 "\<bar>?x\<bar>"]) simp_all
  then have e0: "0 \<le> ?e" by simp
  have "\<bar>?x\<bar> < power_int (2 :: rat) 54"
  proof -
    have "(2 :: rat) ^ 53 < 2 ^ 54" by simp
    then have "\<bar>?x\<bar> < 2 ^ 54" using x53 by linarith
    then show ?thesis by simp
  qed
  then have "?e < 54" using eb by (intro pow2_exponent_less[of ?e "\<bar>?x\<bar>"]) simp_all
  then have e53: "?e \<le> 53" by simp
  have mx: "max ?e (- 1022) = ?e" using e0 by simp
  show ?thesis
  proof (cases "?e \<le> 52")
    case True
    let ?n = "nat (52 - ?e)"
    have n: "int ?n = 52 - ?e" using True by simp
    have "power_int (2 :: rat) (52 - ?e) * power_int 2 (?e - 52) = power_int 2 ((52 - ?e) + (?e - 52))"
      by (rule power_int_add[symmetric]) simp
    then have one: "power_int (2 :: rat) (52 - ?e) * power_int 2 (?e - 52) = 1" by simp
    have p: "(2 :: rat) ^ ?n = power_int 2 (52 - ?e)"
      using power_int_of_nat[of "2 :: rat" ?n] unfolding n by simp
    have "of_int (z * 2 ^ ?n) * power_int (2 :: rat) (?e - 52)
          = ?x * (power_int 2 (52 - ?e) * power_int 2 (?e - 52))"
      unfolding of_int_mult of_int_power p[symmetric] by simp
    then have "?x = of_int (z * 2 ^ ?n) * power_int 2 (max ?e (- 1022) - 52)"
      unfolding one mx by simp
    then show ?thesis by (rule to_double_exact)
  next
    case False
    then have e: "?e = 53" using e53 by simp
    have "power_int (2 :: rat) 53 \<le> \<bar>?x\<bar>" using eb unfolding e by simp
    then have "(2 :: rat) ^ 53 \<le> \<bar>?x\<bar>" by simp
    then have "\<bar>?x\<bar> = 2 ^ 53" using x53 by linarith
    then have "(of_int \<bar>z\<bar> :: rat) = of_int (2 ^ 53)" by simp
    then have "\<bar>z\<bar> = 2 ^ 53" by (simp only: of_int_eq_iff)
    then have "z = 2 ^ 53 \<or> z = - (2 ^ 53)" by linarith
    then have "z = (z div 2) * 2" by auto
    then have "?x = of_int ((z div 2) * 2)" by simp
    then have "?x = of_int (z div 2) * 2" by (simp only: of_int_mult of_int_numeral)
    moreover have "power_int (2 :: rat) (max ?e (- 1022) - 52) = 2" unfolding mx e by simp
    ultimately have "?x = of_int (z div 2) * power_int 2 (max ?e (- 1022) - 52)" by simp
    then show ?thesis by (rule to_double_exact)
  qed
qed

lemma to_double_error:
  assumes lo: "1 / 2 ^ 1022 \<le> \<bar>x\<bar>"
  shows "\<bar>to_double x - x\<bar> \<le> \<bar>x\<bar> / 2 ^ 53"
proof -
  have pos: "(0 :: rat) < 1 / 2 ^ 1022" by simp
  then have x0: "x \<noteq> 0" using lo by auto
  let ?e = "float_exponent x"
  note eb = float_exponent_bounds[OF x0]
  have "power_int (2 :: rat) (- 1022) \<le> \<bar>x\<bar>"
    using lo by (simp add: power_int_minus_divide)
  then have "- 1022 < ?e + 1" using eb by (intro pow2_exponent_less[of "- 1022" "\<bar>x\<bar>"]) simp_all
  then have mx: "max ?e (- 1022) = ?e" by simp
  let ?u = "power_int (2 :: rat) (?e - 52)"
  let ?q = "x / ?u"
  have u: "0 < ?u" by simp
  have td: "to_double x = of_int (py_round ?q) * ?u"
    using x0 by (simp add: to_double_def Let_def mx)
  have "to_double x - x = (of_int (py_round ?q) - ?q) * ?u"
    unfolding td using u by (simp add: field_simps)
  then have "\<bar>to_double x - x\<bar> = \<bar>of_int (py_round ?q) - ?q\<bar> * ?u"
    using u by (simp add: abs_mult)
  also have "\<dots> \<le> 1 / 2 * ?u"
    by (rule mult_right_mono[OF py_round_error]) (use u in simp)
  also have "\<dots> = power_int 2 ?e / 2 ^ 53"
  proof -
    have "power_int (2 :: rat) (?e - 52) = power_int 2 ?e / power_int 2 52"
      by (rule power_int_diff) simp
    then show ?thesis by simp
  qed
  also have "\<dots> \<le> \<bar>x\<bar> / 2 ^ 53"
    by (rule divide_right_mono) (use eb in simp_all)
  finally show ?thesis .
qed

lemma to_double_rounds_like_double: "rounds_like_double to_double"
  unfolding rounds_like_double_def
proof (intro conjI allI impI)
  fix z :: int assume "\<bar>z\<bar> \<le> 2 ^ 53"
  then show "to_double (of_int z) = of_int z" by (rule to_double_int)
next
  fix x :: rat assume "1 / 2 ^ 1022 \<le> \<bar>x\<bar> \<and> \<bar>x\<bar> \<le> 2 ^ 1023"
  then show "\<bar>to_double x - x\<bar> \<le> \<bar>x\<bar> / 2 ^ 53" using to_double_error by blast
qed

text \<open>
  Above \<open>2\<^sup>5\<^sup>3\<close> the rounding decides: \<open>math.isclose(10**17, 10**17 - 10**8 - 1, abs_tol=2)\<close>
  is \<open>True\<close> in Python, as in the model with \<open>to_double\<close>, although the exact numbers
  differ by more than a billionth of either; the literal \<open>1e-09\<close> is the double
  \<open>4835703278458517 / 2\<^sup>8\<^sup>2\<close>.
\<close>

lemma isclose_rounds_large_values:
  "isclose to_double (10 ^ 17) (10 ^ 17 - 10 ^ 8 - 1) 2
   \<and> \<not> isclose (\<lambda>x. x) (10 ^ 17) (10 ^ 17 - 10 ^ 8 - 1) 2
   \<and> to_double (1 / 10 ^ 9) = 4835703278458517 / 2 ^ 82"
  by code_simp

subsection \<open>Coordinates and groundwater\<close>

lemma py_int_abs: "\<bar>(of_int (py_int x) :: rat)\<bar> \<le> \<bar>x\<bar>"
proof (cases "0 \<le> x")
  case True
  then have "0 \<le> \<lfloor>x\<rfloor>" by simp
  then have "\<bar>(of_int \<lfloor>x\<rfloor> :: rat)\<bar> = of_int \<lfloor>x\<rfloor>" by simp
  also have "\<dots> \<le> x" by simp
  finally show ?thesis using True by (simp add: py_int_def)
next
  case False
  then have neg: "x < 0" by simp
  then have "\<lceil>x\<rceil> \<le> 0" by (simp add: ceiling_le_zero)
  then have "\<bar>(of_int \<lceil>x\<rceil> :: rat)\<bar> = - of_int \<lceil>x\<rceil>" by simp
  also have "\<dots> \<le> - x" by simp
  finally show ?thesis using neg by (simp add: py_int_def)
qed

lemma py_int_bound:
  assumes "\<bar>x\<bar> \<le> 2 * 10 ^ 9"
  shows "\<bar>py_int x\<bar> \<le> 2 * 10 ^ 9"
proof -
  have "\<bar>(of_int (py_int x) :: rat)\<bar> \<le> 2 * 10 ^ 9" using py_int_abs[of x] assms by linarith
  then have "(of_int \<bar>py_int x\<bar> :: rat) \<le> of_int (2 * 10 ^ 9)" by simp
  then show ?thesis by (simp only: of_int_le_iff)
qed

lemma rel_tol_bounds:
  assumes fl: "rounds_like_double fl"
  shows "1 / 10 ^ 10 \<le> fl (1 / 10 ^ 9) \<and> fl (1 / 10 ^ 9) \<le> 11 / 10 ^ 10"
proof -
  have err: "\<And>x. 1 / 2 ^ 1022 \<le> \<bar>x\<bar> \<and> \<bar>x\<bar> \<le> 2 ^ 1023 \<Longrightarrow> \<bar>fl x - x\<bar> \<le> \<bar>x\<bar> / 2 ^ 53"
    using fl unfolding rounds_like_double_def by blast
  have r: "1 / 2 ^ 1022 \<le> \<bar>1 / 10 ^ 9 :: rat\<bar> \<and> \<bar>1 / 10 ^ 9 :: rat\<bar> \<le> 2 ^ 1023" by simp
  have "\<bar>fl (1 / 10 ^ 9) - 1 / 10 ^ 9\<bar> \<le> \<bar>1 / 10 ^ 9 :: rat\<bar> / 2 ^ 53" by (rule err[OF r])
  also have "\<dots> \<le> 1 / 10 ^ 10" by simp
  finally have "\<bar>fl (1 / 10 ^ 9) - 1 / 10 ^ 9\<bar> \<le> 1 / 10 ^ 10" .
  then have "1 / 10 ^ 9 - 1 / 10 ^ 10 \<le> fl (1 / 10 ^ 9)"
    and "fl (1 / 10 ^ 9) \<le> 1 / 10 ^ 9 + 1 / 10 ^ 10" by linarith+
  then show ?thesis by simp
qed

lemma rel_tol_product_small:
  assumes fl: "rounds_like_double fl" and z: "\<bar>z\<bar> \<le> 2002000000"
  shows "\<bar>fl (fl (1 / 10 ^ 9) * of_int z)\<bar> < 3"
proof (cases "z = 0")
  case True
  have exact: "\<And>z::int. \<bar>z\<bar> \<le> 2 ^ 53 \<Longrightarrow> fl (of_int z) = of_int z"
    using fl unfolding rounds_like_double_def by blast
  have "fl 0 = 0" using exact[of 0] by simp
  then show ?thesis using True by simp
next
  case False
  have err: "\<And>x. 1 / 2 ^ 1022 \<le> \<bar>x\<bar> \<and> \<bar>x\<bar> \<le> 2 ^ 1023 \<Longrightarrow> \<bar>fl x - x\<bar> \<le> \<bar>x\<bar> / 2 ^ 53"
    using fl unfolding rounds_like_double_def by blast
  note rel = rel_tol_bounds[OF fl]
  let ?r = "fl (1 / 10 ^ 9)"
  let ?t = "?r * of_int z"
  have r0: "0 \<le> ?r" using rel by simp
  have z1: "1 \<le> \<bar>(of_int z :: rat)\<bar>"
  proof -
    have "1 \<le> \<bar>z\<bar>" using False by simp
    then have "(of_int 1 :: rat) \<le> of_int \<bar>z\<bar>" by (simp only: of_int_le_iff)
    then show ?thesis by simp
  qed
  have z2: "\<bar>(of_int z :: rat)\<bar> \<le> 2002000000"
  proof -
    have "(of_int \<bar>z\<bar> :: rat) \<le> of_int 2002000000" using z by (simp only: of_int_le_iff)
    then show ?thesis by simp
  qed
  have abs_t: "\<bar>?t\<bar> = ?r * \<bar>(of_int z :: rat)\<bar>" using r0 by (simp add: abs_mult)
  have lo: "1 / 10 ^ 10 \<le> \<bar>?t\<bar>"
  proof -
    have "1 / 10 ^ 10 * 1 \<le> ?r * \<bar>(of_int z :: rat)\<bar>"
      by (rule mult_mono) (use rel z1 in simp_all)
    then show ?thesis unfolding abs_t by simp
  qed
  have hi: "\<bar>?t\<bar> \<le> 23 / 10"
  proof -
    have "?r * \<bar>(of_int z :: rat)\<bar> \<le> 11 / 10 ^ 10 * 2002000000"
      by (rule mult_mono) (use rel z2 r0 in simp_all)
    also have "\<dots> \<le> 23 / 10" by simp
    finally show ?thesis unfolding abs_t .
  qed
  have rng: "1 / 2 ^ 1022 \<le> \<bar>?t\<bar> \<and> \<bar>?t\<bar> \<le> 2 ^ 1023"
  proof
    have "(1 / 2 ^ 1022 :: rat) \<le> 1 / 10 ^ 10" by simp
    then show "1 / 2 ^ 1022 \<le> \<bar>?t\<bar>" using lo by linarith
    have "(23 / 10 :: rat) \<le> 2 ^ 1023" by simp
    then show "\<bar>?t\<bar> \<le> 2 ^ 1023" using hi by linarith
  qed
  have "\<bar>fl ?t - ?t\<bar> \<le> \<bar>?t\<bar> / 2 ^ 53" by (rule err[OF rng])
  also have "\<dots> \<le> \<bar>?t\<bar> / 10" by (rule divide_left_mono) simp_all
  finally have "\<bar>fl ?t\<bar> \<le> \<bar>?t\<bar> + \<bar>?t\<bar> / 10" by linarith
  then show ?thesis using hi by linarith
qed

lemma isclose_integers:
  assumes fl: "rounds_like_double fl"
    and za: "\<bar>za\<bar> \<le> 2002000000" and zb: "\<bar>zb\<bar> \<le> 2002000000"
  shows "isclose fl (of_int za) (of_int zb) 2 \<longleftrightarrow> \<bar>za - zb\<bar> \<le> 2"
proof -
  have exact: "\<And>z::int. \<bar>z\<bar> \<le> 2 ^ 53 \<Longrightarrow> fl (of_int z) = of_int z"
    using fl unfolding rounds_like_double_def by blast
  have big: "(4004000000 :: int) \<le> 2 ^ 53" by simp
  have xa: "fl (of_int za) = of_int za" using exact[of za] za big by linarith
  have xb: "fl (of_int zb) = of_int zb" using exact[of zb] zb big by linarith
  have "\<bar>zb - za\<bar> \<le> 4004000000" using za zb by linarith
  then have "\<bar>zb - za\<bar> \<le> 2 ^ 53" using big by linarith
  then have d: "fl (of_int zb - of_int za) = of_int (zb - za)"
    using exact[of "zb - za"] by simp
  have two: "fl 2 = 2" using exact[of 2] by simp
  note sa = rel_tol_product_small[OF fl za] and sb = rel_tol_product_small[OF fl zb]
  have n: "\<bar>(of_int (zb - za) :: rat)\<bar> = of_int \<bar>za - zb\<bar>"
  proof -
    have "\<bar>zb - za\<bar> = \<bar>za - zb\<bar>" by linarith
    then show ?thesis by simp
  qed
  have le2: "(of_int \<bar>za - zb\<bar> :: rat) \<le> 2 \<longleftrightarrow> \<bar>za - zb\<bar> \<le> 2"
    using of_int_le_iff[of "\<bar>za - zb\<bar>" 2, where ?'a = rat] by simp
  have lt3: "(of_int \<bar>za - zb\<bar> :: rat) < 3 \<longleftrightarrow> \<bar>za - zb\<bar> \<le> 2"
  proof -
    have "(of_int \<bar>za - zb\<bar> :: rat) < of_int 3 \<longleftrightarrow> \<bar>za - zb\<bar> < 3" by (simp only: of_int_less_iff)
    moreover have "\<bar>za - zb\<bar> < 3 \<longleftrightarrow> \<bar>za - zb\<bar> \<le> 2" by linarith
    moreover have "(of_int 3 :: rat) = 3" by simp
    ultimately show ?thesis by (simp only:)
  qed
  have eq0: "(of_int za :: rat) = of_int zb \<Longrightarrow> \<bar>za - zb\<bar> \<le> 2" by simp
  have ia: "(of_int \<bar>za - zb\<bar> :: rat) \<le> \<bar>fl (fl (1 / 10 ^ 9) * of_int za)\<bar> \<Longrightarrow> \<bar>za - zb\<bar> \<le> 2"
    using sa lt3 by linarith
  have ib: "(of_int \<bar>za - zb\<bar> :: rat) \<le> \<bar>fl (fl (1 / 10 ^ 9) * of_int zb)\<bar> \<Longrightarrow> \<bar>za - zb\<bar> \<le> 2"
    using sb lt3 by linarith
  show ?thesis
    unfolding isclose_def Let_def xa xb d two n
    using eq0 ia ib le2 by blast
qed

lemma fl_shifted:
  assumes fl: "rounds_like_double fl" and z: "\<bar>z\<bar> \<le> 2 * 10 ^ 9" and k: "\<bar>k\<bar> \<le> 2000000"
  shows "fl (fl (of_int z) + of_int k) = of_int (z + k)"
proof -
  have exact: "\<And>z::int. \<bar>z\<bar> \<le> 2 ^ 53 \<Longrightarrow> fl (of_int z) = of_int z"
    using fl unfolding rounds_like_double_def by blast
  have big: "(2 * 10 ^ 9 + 2000000 :: int) \<le> 2 ^ 53" by simp
  have a: "fl (of_int z) = of_int z" using exact[of z] z big by linarith
  have "\<bar>z + k\<bar> \<le> 2 ^ 53" using z k big by linarith
  then have "fl (of_int (z + k)) = of_int (z + k)" by (rule exact)
  then show ?thesis unfolding a by simp
qed

lemma reconciled_exact:
  assumes fl: "rounds_like_double fl"
    and E: "\<bar>coordinate_E g\<bar> \<le> 2 * 10 ^ 9" and N: "\<bar>coordinate_N g\<bar> \<le> 2 * 10 ^ 9"
  shows "reconciled fl c g =
     (of_int (py_int (coordinate_E g) + fst (frame_shift c g)),
      of_int (py_int (coordinate_N g) + snd (frame_shift c g)))"
proof -
  note zE = py_int_bound[OF E] and zN = py_int_bound[OF N]
  have p1: "fl (fl (of_int (py_int (coordinate_E g))) + 2000000)
            = of_int (py_int (coordinate_E g) + 2000000)"
    using fl_shifted[OF fl zE, of 2000000] by simp
  have p2: "fl (fl (of_int (py_int (coordinate_N g))) + 1000000)
            = of_int (py_int (coordinate_N g) + 1000000)"
    using fl_shifted[OF fl zN, of 1000000] by simp
  have m1: "fl (fl (of_int (py_int (coordinate_E g))) - 2000000)
            = of_int (py_int (coordinate_E g) + - 2000000)"
    using fl_shifted[OF fl zE, of "- 2000000"] by simp
  have m2: "fl (fl (of_int (py_int (coordinate_N g))) - 1000000)
            = of_int (py_int (coordinate_N g) + - 1000000)"
    using fl_shifted[OF fl zN, of "- 1000000"] by simp
  show ?thesis
    unfolding reconciled_def frame_shift_def p1 p2 m1 m2 by simp
qed

lemma frame_shift_bounds:
  "\<bar>fst (frame_shift c g)\<bar> \<le> 2000000 \<and> \<bar>snd (frame_shift c g)\<bar> \<le> 1000000"
  by (simp add: frame_shift_def)

lemma coordinates_correct_exact:
  assumes fl: "rounds_like_double fl"
    and pe: "\<bar>coordinate_value (east c)\<bar> \<le> 2 * 10 ^ 9"
    and pn: "\<bar>coordinate_value (north c)\<bar> \<le> 2 * 10 ^ 9"
    and E: "\<bar>coordinate_E g\<bar> \<le> 2 * 10 ^ 9" and N: "\<bar>coordinate_N g\<bar> \<le> 2 * 10 ^ 9"
  shows "coordinates_correct fl c g \<longleftrightarrow>
     \<bar>py_int (coordinate_value (east c))
        - (py_int (coordinate_E g) + fst (frame_shift c g))\<bar> \<le> 2
     \<and> \<bar>py_int (coordinate_value (north c))
        - (py_int (coordinate_N g) + snd (frame_shift c g))\<bar> \<le> 2"
proof -
  note zpe = py_int_bound[OF pe] and zpn = py_int_bound[OF pn]
    and zE = py_int_bound[OF E] and zN = py_int_bound[OF N]
  note sh = frame_shift_bounds[of c g]
  have pw: "(2 * 10 ^ 9 :: int) = 2000000000" by simp
  have b1: "\<bar>py_int (coordinate_value (east c))\<bar> \<le> 2002000000"
    using zpe unfolding pw by linarith
  have b2: "\<bar>py_int (coordinate_value (north c))\<bar> \<le> 2002000000"
    using zpn unfolding pw by linarith
  have b3: "\<bar>py_int (coordinate_E g) + fst (frame_shift c g)\<bar> \<le> 2002000000"
    using zE sh unfolding pw by linarith
  have b4: "\<bar>py_int (coordinate_N g) + snd (frame_shift c g)\<bar> \<le> 2002000000"
    using zN sh unfolding pw by linarith
  show ?thesis
    unfolding coordinates_correct_def reconciled_exact[OF fl E N]
    by (simp only: prod.case isclose_integers[OF fl b1 b3] isclose_integers[OF fl b2 b4])
qed

lemma evaluate_metadata_coordinates:
  assumes "metadata self = Some md"
  shows "metadata_is_correct (evaluated (evaluate_metadata fl checks self mgt)) ''coordinates''
         = Some (coordinates_entry fl md mgt)"
  using assms
  by (simp add: evaluate_metadata_def Let_def set_groundwater_entries_def
      split: option.splits list.splits)

lemma evaluate_metadata_undetermined:
  assumes "metadata self = Some md"
    and "groundwater_information md = None \<or> mgt = None
         \<or> (\<exists>gt. mgt = Some gt \<and> gt_groundwater gt = None)"
  shows "metadata_is_correct (evaluated (evaluate_metadata fl checks self mgt))
            ''groundwater_information'' = Some None
     \<and> metadata_is_correct (evaluated (evaluate_metadata fl checks self mgt))
            ''groundwater_information_depth'' = Some None
     \<and> metadata_is_correct (evaluated (evaluate_metadata fl checks self mgt))
            ''groundwater_information_elevation'' = Some None
     \<and> metadata_is_correct (evaluated (evaluate_metadata fl checks self mgt))
            ''groundwater_information_date'' = Some None
     \<and> raised (evaluate_metadata fl checks self mgt) = None
     \<and> warnings (evaluate_metadata fl checks self mgt) = []"
  using assms
  by (auto simp: evaluate_metadata_def Let_def set_groundwater_entries_def
      split: option.splits)

lemma evaluate_metadata_first_entry:
  assumes "metadata self = Some md" and "groundwater_information md = Some extracted"
    and "mgt = Some gt" and "gt_groundwater gt = Some entries" and "entries \<noteq> []"
  shows "metadata_is_correct (evaluated (evaluate_metadata fl checks self mgt))
            ''groundwater_information''
           = Some (Some (is_extracted_information_correct checks (hd entries) extracted))
     \<and> metadata_is_correct (evaluated (evaluate_metadata fl checks self mgt))
            ''groundwater_information_depth''
           = Some (Some (is_extracted_depth_correct checks (hd entries) (gw_depth extracted)))
     \<and> metadata_is_correct (evaluated (evaluate_metadata fl checks self mgt))
            ''groundwater_information_elevation''
           = Some (Some (is_extracted_elevation_correct checks (hd entries) (gw_elevation extracted)))
     \<and> metadata_is_correct (evaluated (evaluate_metadata fl checks self mgt))
            ''groundwater_information_date''
           = Some (Some (is_extracted_date_correct checks (hd entries) (gw_date extracted)))
     \<and> raised (evaluate_metadata fl checks self mgt) = None
     \<and> warnings (evaluate_metadata fl checks self mgt)
         = (if length entries > 1 then [multiple_entries_warning (file_name self)] else [])"
proof -
  obtain e es where es: "entries = e # es" using assms(5) by (cases entries) auto
  show ?thesis using assms(1-4) unfolding es
    by (simp add: evaluate_metadata_def Let_def set_groundwater_entries_def)
qed

text \<open>
  Claim C2. When both the predicted metadata and the ground truth carry coordinates,
  of magnitude at most 2,000,000,000 (both Swiss reference frames lie far inside),
  \<open>evaluate_metadata\<close> reconciles the frames before comparing: the truncated
  ground truth is shifted by +2,000,000 / +1,000,000 if the predicted east exceeds
  2,000,000 while the ground-truth east is below it, by -2,000,000 / -1,000,000 in
  the reverse case, and not at all otherwise. Then \<open>metadata_is_correct['coordinates']\<close>
  is \<open>True\<close> if and only if the truncated east values and the truncated north values
  each differ by at most 2, and \<open>False\<close> otherwise: in this range the float operations
  are exact and the relative tolerance of \<open>math.isclose\<close> stays below 3. Predicted
  (2,600,000 / 1,200,000) against ground truth (600,000 / 200,000) is correct, and a
  pair differing by more than 2 in either axis after reconciliation is incorrect.
\<close>

theorem coordinates_within_tolerance:
  assumes "metadata self = Some md" and "coordinates md = Some c"
    and "mgt = Some gt" and "gt_coordinates gt = Some g"
    and "rounds_like_double fl"
    and "\<bar>coordinate_value (east c)\<bar> \<le> 2 * 10 ^ 9" and "\<bar>coordinate_value (north c)\<bar> \<le> 2 * 10 ^ 9"
    and "\<bar>coordinate_E g\<bar> \<le> 2 * 10 ^ 9" and "\<bar>coordinate_N g\<bar> \<le> 2 * 10 ^ 9"
  shows
    "(coordinate_value (east c) > 2000000 \<and> coordinate_E g < 2000000
          \<longrightarrow> reconciled fl c g = (of_int (py_int (coordinate_E g)) + 2000000,
                                     of_int (py_int (coordinate_N g)) + 1000000))
     \<and> (coordinate_value (east c) < 2000000 \<and> coordinate_E g > 2000000
          \<longrightarrow> reconciled fl c g = (of_int (py_int (coordinate_E g)) - 2000000,
                                     of_int (py_int (coordinate_N g)) - 1000000))
     \<and> (\<not> (coordinate_value (east c) > 2000000 \<and> coordinate_E g < 2000000)
        \<and> \<not> (coordinate_value (east c) < 2000000 \<and> coordinate_E g > 2000000)
          \<longrightarrow> reconciled fl c g = (of_int (py_int (coordinate_E g)),
                                     of_int (py_int (coordinate_N g))))
     \<and> metadata_is_correct (evaluated (evaluate_metadata fl checks self mgt)) ''coordinates''
       = Some (Some
           (\<bar>of_int (py_int (coordinate_value (east c))) - fst (reconciled fl c g)\<bar> \<le> 2
            \<and> \<bar>of_int (py_int (coordinate_value (north c))) - snd (reconciled fl c g)\<bar> \<le> 2))
     \<and> (\<bar>of_int (py_int (coordinate_value (east c))) - fst (reconciled fl c g)\<bar> > 2
        \<or> \<bar>of_int (py_int (coordinate_value (north c))) - snd (reconciled fl c g)\<bar> > 2
          \<longrightarrow> metadata_is_correct (evaluated (evaluate_metadata fl checks self mgt))
                ''coordinates'' = Some (Some False))
     \<and> coordinates_correct fl
          \<lparr>east = \<lparr>coordinate_value = 2600000\<rparr>, north = \<lparr>coordinate_value = 1200000\<rparr>\<rparr>
          \<lparr>coordinate_E = 600000, coordinate_N = 200000\<rparr>"
proof -
  note fl = assms(5)
  note rec = reconciled_exact[OF fl assms(8,9), of c]
  have A: "coordinate_value (east c) > 2000000 \<and> coordinate_E g < 2000000
          \<longrightarrow> reconciled fl c g = (of_int (py_int (coordinate_E g)) + 2000000,
                                     of_int (py_int (coordinate_N g)) + 1000000)"
    unfolding rec by (simp add: frame_shift_def)
  have B: "coordinate_value (east c) < 2000000 \<and> coordinate_E g > 2000000
          \<longrightarrow> reconciled fl c g = (of_int (py_int (coordinate_E g)) - 2000000,
                                     of_int (py_int (coordinate_N g)) - 1000000)"
    unfolding rec by (auto simp: frame_shift_def)
  have C: "\<not> (coordinate_value (east c) > 2000000 \<and> coordinate_E g < 2000000)
        \<and> \<not> (coordinate_value (east c) < 2000000 \<and> coordinate_E g > 2000000)
          \<longrightarrow> reconciled fl c g = (of_int (py_int (coordinate_E g)),
                                     of_int (py_int (coordinate_N g)))"
    unfolding rec by (auto simp: frame_shift_def)
  have entry: "coordinates_entry fl md mgt = Some (coordinates_correct fl c g)"
    using assms(2-4) by (simp add: coordinates_entry_def)
  have e1: "\<bar>(of_int (py_int (coordinate_value (east c))) :: rat) - fst (reconciled fl c g)\<bar> \<le> 2
        \<longleftrightarrow> \<bar>py_int (coordinate_value (east c))
              - (py_int (coordinate_E g) + fst (frame_shift c g))\<bar> \<le> 2"
  proof -
    have "(of_int (py_int (coordinate_value (east c))) :: rat) - fst (reconciled fl c g)
        = of_int (py_int (coordinate_value (east c))
              - (py_int (coordinate_E g) + fst (frame_shift c g)))"
      unfolding rec by simp
    then have "\<bar>(of_int (py_int (coordinate_value (east c))) :: rat) - fst (reconciled fl c g)\<bar>
        = of_int \<bar>py_int (coordinate_value (east c))
              - (py_int (coordinate_E g) + fst (frame_shift c g))\<bar>"
      by simp
    then show ?thesis
      using of_int_le_iff[of "\<bar>py_int (coordinate_value (east c))
              - (py_int (coordinate_E g) + fst (frame_shift c g))\<bar>" 2, where ?'a = rat]
      by simp
  qed
  have e2: "\<bar>(of_int (py_int (coordinate_value (north c))) :: rat) - snd (reconciled fl c g)\<bar> \<le> 2
        \<longleftrightarrow> \<bar>py_int (coordinate_value (north c))
              - (py_int (coordinate_N g) + snd (frame_shift c g))\<bar> \<le> 2"
  proof -
    have "(of_int (py_int (coordinate_value (north c))) :: rat) - snd (reconciled fl c g)
        = of_int (py_int (coordinate_value (north c))
              - (py_int (coordinate_N g) + snd (frame_shift c g)))"
      unfolding rec by simp
    then have "\<bar>(of_int (py_int (coordinate_value (north c))) :: rat) - snd (reconciled fl c g)\<bar>
        = of_int \<bar>py_int (coordinate_value (north c))
              - (py_int (coordinate_N g) + snd (frame_shift c g))\<bar>"
      by simp
    then show ?thesis
      using of_int_le_iff[of "\<bar>py_int (coordinate_value (north c))
              - (py_int (coordinate_N g) + snd (frame_shift c g))\<bar>" 2, where ?'a = rat]
      by simp
  qed
  have cc: "coordinates_correct fl c g \<longleftrightarrow>
      \<bar>(of_int (py_int (coordinate_value (east c))) :: rat) - fst (reconciled fl c g)\<bar> \<le> 2
      \<and> \<bar>(of_int (py_int (coordinate_value (north c))) :: rat) - snd (reconciled fl c g)\<bar> \<le> 2"
    unfolding e1 e2 by (rule coordinates_correct_exact[OF fl assms(6-9)])
  have D: "metadata_is_correct (evaluated (evaluate_metadata fl checks self mgt)) ''coordinates''
       = Some (Some
           (\<bar>of_int (py_int (coordinate_value (east c))) - fst (reconciled fl c g)\<bar> \<le> 2
            \<and> \<bar>of_int (py_int (coordinate_value (north c))) - snd (reconciled fl c g)\<bar> \<le> 2))"
    using evaluate_metadata_coordinates[OF assms(1), of fl checks mgt] entry cc by simp
  have E: "\<bar>of_int (py_int (coordinate_value (east c))) - fst (reconciled fl c g)\<bar> > 2
        \<or> \<bar>of_int (py_int (coordinate_value (north c))) - snd (reconciled fl c g)\<bar> > 2
          \<longrightarrow> metadata_is_correct (evaluated (evaluate_metadata fl checks self mgt))
                ''coordinates'' = Some (Some False)"
    unfolding D by auto
  have F: "coordinates_correct fl
          \<lparr>east = \<lparr>coordinate_value = 2600000\<rparr>, north = \<lparr>coordinate_value = 1200000\<rparr>\<rparr>
          \<lparr>coordinate_E = 600000, coordinate_N = 200000\<rparr>"
  proof -
    have "coordinates_correct fl
          \<lparr>east = \<lparr>coordinate_value = 2600000\<rparr>, north = \<lparr>coordinate_value = 1200000\<rparr>\<rparr>
          \<lparr>coordinate_E = 600000, coordinate_N = 200000\<rparr> \<longleftrightarrow>
       \<bar>py_int 2600000 - (py_int 600000 + fst (frame_shift
          \<lparr>east = \<lparr>coordinate_value = 2600000\<rparr>, north = \<lparr>coordinate_value = 1200000\<rparr>\<rparr>
          \<lparr>coordinate_E = 600000, coordinate_N = 200000\<rparr>))\<bar> \<le> 2
       \<and> \<bar>py_int 1200000 - (py_int 200000 + snd (frame_shift
          \<lparr>east = \<lparr>coordinate_value = 2600000\<rparr>, north = \<lparr>coordinate_value = 1200000\<rparr>\<rparr>
          \<lparr>coordinate_E = 600000, coordinate_N = 200000\<rparr>))\<bar> \<le> 2"
      using coordinates_correct_exact[OF fl,
          of "\<lparr>east = \<lparr>coordinate_value = 2600000\<rparr>, north = \<lparr>coordinate_value = 1200000\<rparr>\<rparr>"
             "\<lparr>coordinate_E = 600000, coordinate_N = 200000\<rparr>"]
      by simp
    then show ?thesis by (simp add: frame_shift_def py_int_def)
  qed
  show ?thesis by (intro conjI A B C D E F)
qed

theorem coordinates_within_tolerance_witness:
  "rounds_like_double to_double
   \<and> metadata \<lparr>layers = [], file_name = ''a.pdf'', language = ''de'',
       metadata = Some \<lparr>coordinates = Some \<lparr>east = \<lparr>coordinate_value = 2600000\<rparr>,
                                               north = \<lparr>coordinate_value = 1200000\<rparr>\<rparr>,
                        groundwater_information = None\<rparr>,
       metadata_is_correct = Map.empty\<rparr>
     = Some \<lparr>coordinates = Some \<lparr>east = \<lparr>coordinate_value = 2600000\<rparr>,
                                   north = \<lparr>coordinate_value = 1200000\<rparr>\<rparr>,
            groundwater_information = None\<rparr>
   \<and> gt_coordinates \<lparr>gt_coordinates = Some \<lparr>coordinate_E = 600003, coordinate_N = 200000\<rparr>,
                      gt_groundwater = None\<rparr>
     = Some \<lparr>coordinate_E = 600003, coordinate_N = 200000\<rparr>
   \<and> \<bar>2600000 :: rat\<bar> \<le> 2 * 10 ^ 9 \<and> \<bar>1200000 :: rat\<bar> \<le> 2 * 10 ^ 9
   \<and> \<bar>600003 :: rat\<bar> \<le> 2 * 10 ^ 9 \<and> \<bar>200000 :: rat\<bar> \<le> 2 * 10 ^ 9
   \<and> reconciled to_double
        \<lparr>east = \<lparr>coordinate_value = 2600000\<rparr>, north = \<lparr>coordinate_value = 1200000\<rparr>\<rparr>
        \<lparr>coordinate_E = 600003, coordinate_N = 200000\<rparr> = (2600003, 1200000)
   \<and> metadata_is_correct
       (evaluated (evaluate_metadata to_double
          \<lparr>is_extracted_information_correct = (\<lambda>a b. a = b),
           is_extracted_depth_correct = (\<lambda>a d. gw_depth a = d),
           is_extracted_elevation_correct = (\<lambda>a d. gw_elevation a = d),
           is_extracted_date_correct = (\<lambda>a d. gw_date a = d)\<rparr>
          \<lparr>layers = [], file_name = ''a.pdf'', language = ''de'',
           metadata = Some \<lparr>coordinates = Some \<lparr>east = \<lparr>coordinate_value = 2600000\<rparr>,
                                               north = \<lparr>coordinate_value = 1200000\<rparr>\<rparr>,
                        groundwater_information = None\<rparr>,
           metadata_is_correct = Map.empty\<rparr>
          (Some \<lparr>gt_coordinates = Some \<lparr>coordinate_E = 600003, coordinate_N = 200000\<rparr>,
                 gt_groundwater = None\<rparr>)))
       ''coordinates'' = Some (Some False)"
proof -
  let ?c = "\<lparr>east = \<lparr>coordinate_value = 2600000\<rparr>, north = \<lparr>coordinate_value = 1200000\<rparr>\<rparr>"
  let ?md = "\<lparr>coordinates = Some ?c, groundwater_information = None\<rparr>"
  let ?self = "\<lparr>layers = [], file_name = ''a.pdf'', language = ''de'',
       metadata = Some ?md, metadata_is_correct = Map.empty\<rparr>"
  let ?g = "\<lparr>coordinate_E = 600003, coordinate_N = 200000\<rparr>"
  let ?gt = "\<lparr>gt_coordinates = Some ?g, gt_groundwater = None\<rparr>"
  let ?checks = "\<lparr>is_extracted_information_correct = (\<lambda>a b. a = b),
           is_extracted_depth_correct = (\<lambda>a d. gw_depth a = d),
           is_extracted_elevation_correct = (\<lambda>a d. gw_elevation a = d),
           is_extracted_date_correct = (\<lambda>a d. gw_date a = d)\<rparr>"
  have fl: "rounds_like_double to_double" by (rule to_double_rounds_like_double)
  have a: "metadata ?self = Some ?md" by simp
  have b: "coordinates ?md = Some ?c" by simp
  have d: "gt_coordinates ?gt = Some ?g" by simp
  have r1: "\<bar>coordinate_value (east ?c)\<bar> \<le> 2 * 10 ^ 9" and r2: "\<bar>coordinate_value (north ?c)\<bar> \<le> 2 * 10 ^ 9"
    and r3: "\<bar>coordinate_E ?g\<bar> \<le> 2 * 10 ^ 9" and r4: "\<bar>coordinate_N ?g\<bar> \<le> 2 * 10 ^ 9"
    by simp_all
  note inst = coordinates_within_tolerance[OF a b refl d fl r1 r2 r3 r4, of ?checks]
  have shift: "reconciled to_double ?c ?g = (2600003, 1200000)"
    using inst[THEN conjunct1] by (simp add: py_int_def)
  have res: "metadata_is_correct (evaluated (evaluate_metadata to_double ?checks ?self (Some ?gt)))
       ''coordinates'' = Some (Some False)"
    using inst[THEN conjunct2, THEN conjunct2, THEN conjunct2, THEN conjunct1]
    unfolding shift by (simp add: py_int_def)
  have rng: "\<bar>2600000 :: rat\<bar> \<le> 2 * 10 ^ 9 \<and> \<bar>1200000 :: rat\<bar> \<le> 2 * 10 ^ 9
      \<and> \<bar>600003 :: rat\<bar> \<le> 2 * 10 ^ 9 \<and> \<bar>200000 :: rat\<bar> \<le> 2 * 10 ^ 9" by simp
  show ?thesis using fl a d rng shift res by (intro conjI) simp_all
qed

text \<open>
  When the predicted metadata object is present: if it has no coordinates, or the
  ground truth is absent or has no coordinates, \<open>metadata_is_correct['coordinates']\<close> is
  \<open>None\<close>, not \<open>False\<close>; if it has no groundwater information, or the ground truth is
  absent or has no groundwater entry list, the four groundwater signals are \<open>None\<close> and
  the call returns.
\<close>

lemma missing_metadata_is_null:
  assumes "metadata self = Some md"
  shows
    "(coordinates md = None \<or> mgt = None \<or> (\<exists>gt. mgt = Some gt \<and> gt_coordinates gt = None)
        \<longrightarrow> metadata_is_correct (evaluated (evaluate_metadata fl checks self mgt)) ''coordinates''
              = Some None)
     \<and> (groundwater_information md = None \<or> mgt = None
          \<or> (\<exists>gt. mgt = Some gt \<and> gt_groundwater gt = None)
        \<longrightarrow> metadata_is_correct (evaluated (evaluate_metadata fl checks self mgt))
                ''groundwater_information'' = Some None
            \<and> metadata_is_correct (evaluated (evaluate_metadata fl checks self mgt))
                ''groundwater_information_depth'' = Some None
            \<and> metadata_is_correct (evaluated (evaluate_metadata fl checks self mgt))
                ''groundwater_information_elevation'' = Some None
            \<and> metadata_is_correct (evaluated (evaluate_metadata fl checks self mgt))
                ''groundwater_information_date'' = Some None
            \<and> raised (evaluate_metadata fl checks self mgt) = None)"
proof (intro conjI impI)
  assume "coordinates md = None \<or> mgt = None \<or> (\<exists>gt. mgt = Some gt \<and> gt_coordinates gt = None)"
  then have "coordinates_entry fl md mgt = None"
    by (auto simp: coordinates_entry_def split: option.splits)
  then show "metadata_is_correct (evaluated (evaluate_metadata fl checks self mgt)) ''coordinates''
              = Some None"
    using evaluate_metadata_coordinates[OF assms, of fl checks mgt] by simp
next
  assume h: "groundwater_information md = None \<or> mgt = None
          \<or> (\<exists>gt. mgt = Some gt \<and> gt_groundwater gt = None)"
  note u = evaluate_metadata_undetermined[OF assms h, of fl checks]
  show "metadata_is_correct (evaluated (evaluate_metadata fl checks self mgt))
                ''groundwater_information'' = Some None"
    and "metadata_is_correct (evaluated (evaluate_metadata fl checks self mgt))
                ''groundwater_information_depth'' = Some None"
    and "metadata_is_correct (evaluated (evaluate_metadata fl checks self mgt))
                ''groundwater_information_elevation'' = Some None"
    and "metadata_is_correct (evaluated (evaluate_metadata fl checks self mgt))
                ''groundwater_information_date'' = Some None"
    and "raised (evaluate_metadata fl checks self mgt) = None"
    using u by simp_all
qed

text \<open>
  Claim C8 does not hold of the code on every input that lacks data. A
  \<open>FilePredictions\<close> built without metadata (the constructor's default \<open>None\<close>) lacks
  coordinates, and \<open>evaluate_metadata\<close> raises \<open>AttributeError\<close> at
  \<open>self.metadata.coordinates\<close> before it records anything. A ground truth whose
  groundwater list is empty lacks groundwater data, and with extracted groundwater
  information present \<open>evaluate_metadata\<close> raises \<open>IndexError\<close> at
  \<open>metadata_ground_truth["groundwater"][0]\<close>, leaving the four groundwater signals
  unset. The ground-truth side is tested against \<open>None\<close>, the predicted metadata object
  and the emptiness of the list are not.
\<close>

theorem evaluate_metadata_missing_raises:
  "raised (evaluate_metadata to_double
       \<lparr>is_extracted_information_correct = (\<lambda>a b. a = b),
        is_extracted_depth_correct = (\<lambda>a d. gw_depth a = d),
        is_extracted_elevation_correct = (\<lambda>a d. gw_elevation a = d),
        is_extracted_date_correct = (\<lambda>a d. gw_date a = d)\<rparr>
       \<lparr>layers = [], file_name = ''a.pdf'', language = ''de'', metadata = None,
        metadata_is_correct = Map.empty\<rparr>
       (Some \<lparr>gt_coordinates = Some \<lparr>coordinate_E = 600000, coordinate_N = 200000\<rparr>,
              gt_groundwater = None\<rparr>)) = Some AttributeError
   \<and> metadata_is_correct (evaluated (evaluate_metadata to_double
       \<lparr>is_extracted_information_correct = (\<lambda>a b. a = b),
        is_extracted_depth_correct = (\<lambda>a d. gw_depth a = d),
        is_extracted_elevation_correct = (\<lambda>a d. gw_elevation a = d),
        is_extracted_date_correct = (\<lambda>a d. gw_date a = d)\<rparr>
       \<lparr>layers = [], file_name = ''a.pdf'', language = ''de'', metadata = None,
        metadata_is_correct = Map.empty\<rparr>
       (Some \<lparr>gt_coordinates = Some \<lparr>coordinate_E = 600000, coordinate_N = 200000\<rparr>,
              gt_groundwater = None\<rparr>))) ''coordinates'' = None
   \<and> raised (evaluate_metadata to_double
       \<lparr>is_extracted_information_correct = (\<lambda>a b. a = b),
        is_extracted_depth_correct = (\<lambda>a d. gw_depth a = d),
        is_extracted_elevation_correct = (\<lambda>a d. gw_elevation a = d),
        is_extracted_date_correct = (\<lambda>a d. gw_date a = d)\<rparr>
       \<lparr>layers = [], file_name = ''a.pdf'', language = ''de'',
        metadata = Some \<lparr>coordinates = None,
                         groundwater_information =
                           Some \<lparr>gw_depth = Some 3, gw_date = None, gw_elevation = None\<rparr>\<rparr>,
        metadata_is_correct = Map.empty\<rparr>
       (Some \<lparr>gt_coordinates = None, gt_groundwater = Some []\<rparr>)) = Some IndexError
   \<and> metadata_is_correct (evaluated (evaluate_metadata to_double
       \<lparr>is_extracted_information_correct = (\<lambda>a b. a = b),
        is_extracted_depth_correct = (\<lambda>a d. gw_depth a = d),
        is_extracted_elevation_correct = (\<lambda>a d. gw_elevation a = d),
        is_extracted_date_correct = (\<lambda>a d. gw_date a = d)\<rparr>
       \<lparr>layers = [], file_name = ''a.pdf'', language = ''de'',
        metadata = Some \<lparr>coordinates = None,
                         groundwater_information =
                           Some \<lparr>gw_depth = Some 3, gw_date = None, gw_elevation = None\<rparr>\<rparr>,
        metadata_is_correct = Map.empty\<rparr>
       (Some \<lparr>gt_coordinates = None, gt_groundwater = Some []\<rparr>)))
       ''groundwater_information'' = None"
  by (simp add: evaluate_metadata_def Let_def coordinates_entry_def)

text \<open>
  Claim C9. When both sides carry groundwater data and the ground truth has more than
  one groundwater entry, \<open>evaluate_metadata\<close> logs one warning, does not raise, and sets
  the four signals to the comparisons of the first entry with the extracted information.
\<close>

theorem multiple_groundwater_entries:
  assumes "metadata self = Some md" and "groundwater_information md = Some extracted"
    and "mgt = Some gt" and "gt_groundwater gt = Some entries" and "length entries > 1"
  shows
    "raised (evaluate_metadata fl checks self mgt) = None
     \<and> warnings (evaluate_metadata fl checks self mgt) = [multiple_entries_warning (file_name self)]
     \<and> metadata_is_correct (evaluated (evaluate_metadata fl checks self mgt))
            ''groundwater_information''
           = Some (Some (is_extracted_information_correct checks (hd entries) extracted))
     \<and> metadata_is_correct (evaluated (evaluate_metadata fl checks self mgt))
            ''groundwater_information_depth''
           = Some (Some (is_extracted_depth_correct checks (hd entries) (gw_depth extracted)))
     \<and> metadata_is_correct (evaluated (evaluate_metadata fl checks self mgt))
            ''groundwater_information_elevation''
           = Some (Some (is_extracted_elevation_correct checks (hd entries) (gw_elevation extracted)))
     \<and> metadata_is_correct (evaluated (evaluate_metadata fl checks self mgt))
            ''groundwater_information_date''
           = Some (Some (is_extracted_date_correct checks (hd entries) (gw_date extracted)))"
proof -
  have ne: "entries \<noteq> []" using assms(5) by auto
  show ?thesis
    using evaluate_metadata_first_entry[OF assms(1-4) ne, of fl checks] assms(5) by simp
qed

theorem multiple_groundwater_entries_witness:
  "length [\<lparr>gw_depth = Some 3, gw_date = None, gw_elevation = Some 400\<rparr>,
           \<lparr>gw_depth = Some 7, gw_date = None, gw_elevation = Some 396\<rparr>] > 1
   \<and> raised (evaluate_metadata to_double
          \<lparr>is_extracted_information_correct = (\<lambda>a b. a = b),
           is_extracted_depth_correct = (\<lambda>a d. gw_depth a = d),
           is_extracted_elevation_correct = (\<lambda>a d. gw_elevation a = d),
           is_extracted_date_correct = (\<lambda>a d. gw_date a = d)\<rparr>
          \<lparr>layers = [], file_name = ''a.pdf'', language = ''de'',
           metadata = Some \<lparr>coordinates = None,
                        groundwater_information =
                          Some \<lparr>gw_depth = Some 3, gw_date = None, gw_elevation = Some 396\<rparr>\<rparr>,
           metadata_is_correct = Map.empty\<rparr>
          (Some \<lparr>gt_coordinates = None,
                 gt_groundwater =
                   Some [\<lparr>gw_depth = Some 3, gw_date = None, gw_elevation = Some 400\<rparr>,
                         \<lparr>gw_depth = Some 7, gw_date = None, gw_elevation = Some 396\<rparr>]\<rparr>)) = None
   \<and> warnings (evaluate_metadata to_double
          \<lparr>is_extracted_information_correct = (\<lambda>a b. a = b),
           is_extracted_depth_correct = (\<lambda>a d. gw_depth a = d),
           is_extracted_elevation_correct = (\<lambda>a d. gw_elevation a = d),
           is_extracted_date_correct = (\<lambda>a d. gw_date a = d)\<rparr>
          \<lparr>layers = [], file_name = ''a.pdf'', language = ''de'',
           metadata = Some \<lparr>coordinates = None,
                        groundwater_information =
                          Some \<lparr>gw_depth = Some 3, gw_date = None, gw_elevation = Some 396\<rparr>\<rparr>,
           metadata_is_correct = Map.empty\<rparr>
          (Some \<lparr>gt_coordinates = None,
                 gt_groundwater =
                   Some [\<lparr>gw_depth = Some 3, gw_date = None, gw_elevation = Some 400\<rparr>,
                         \<lparr>gw_depth = Some 7, gw_date = None, gw_elevation = Some 396\<rparr>]\<rparr>))
       = [multiple_entries_warning ''a.pdf'']
   \<and> metadata_is_correct (evaluated (evaluate_metadata to_double
          \<lparr>is_extracted_information_correct = (\<lambda>a b. a = b),
           is_extracted_depth_correct = (\<lambda>a d. gw_depth a = d),
           is_extracted_elevation_correct = (\<lambda>a d. gw_elevation a = d),
           is_extracted_date_correct = (\<lambda>a d. gw_date a = d)\<rparr>
          \<lparr>layers = [], file_name = ''a.pdf'', language = ''de'',
           metadata = Some \<lparr>coordinates = None,
                        groundwater_information =
                          Some \<lparr>gw_depth = Some 3, gw_date = None, gw_elevation = Some 396\<rparr>\<rparr>,
           metadata_is_correct = Map.empty\<rparr>
          (Some \<lparr>gt_coordinates = None,
                 gt_groundwater =
                   Some [\<lparr>gw_depth = Some 3, gw_date = None, gw_elevation = Some 400\<rparr>,
                         \<lparr>gw_depth = Some 7, gw_date = None, gw_elevation = Some 396\<rparr>]\<rparr>)))
        ''groundwater_information_depth'' = Some (Some True)
   \<and> metadata_is_correct (evaluated (evaluate_metadata to_double
          \<lparr>is_extracted_information_correct = (\<lambda>a b. a = b),
           is_extracted_depth_correct = (\<lambda>a d. gw_depth a = d),
           is_extracted_elevation_correct = (\<lambda>a d. gw_elevation a = d),
           is_extracted_date_correct = (\<lambda>a d. gw_date a = d)\<rparr>
          \<lparr>layers = [], file_name = ''a.pdf'', language = ''de'',
           metadata = Some \<lparr>coordinates = None,
                        groundwater_information =
                          Some \<lparr>gw_depth = Some 3, gw_date = None, gw_elevation = Some 396\<rparr>\<rparr>,
           metadata_is_correct = Map.empty\<rparr>
          (Some \<lparr>gt_coordinates = None,
                 gt_groundwater =
                   Some [\<lparr>gw_depth = Some 3, gw_date = None, gw_elevation = Some 400\<rparr>,
                         \<lparr>gw_depth = Some 7, gw_date = None, gw_elevation = Some 396\<rparr>]\<rparr>)))
        ''groundwater_information_elevation'' = Some (Some False)"
proof -
  let ?ex = "\<lparr>gw_depth = Some 3, gw_date = None, gw_elevation = Some 396\<rparr>"
  let ?md = "\<lparr>coordinates = None, groundwater_information = Some ?ex\<rparr>"
  let ?self = "\<lparr>layers = [], file_name = ''a.pdf'', language = ''de'',
       metadata = Some ?md, metadata_is_correct = Map.empty\<rparr>"
  let ?entries = "[\<lparr>gw_depth = Some 3, gw_date = None, gw_elevation = Some 400\<rparr>,
                   \<lparr>gw_depth = Some 7, gw_date = None, gw_elevation = Some 396\<rparr>]"
  let ?gt = "\<lparr>gt_coordinates = None, gt_groundwater = Some ?entries\<rparr>"
  let ?checks = "\<lparr>is_extracted_information_correct = (\<lambda>a b. a = b),
           is_extracted_depth_correct = (\<lambda>a d. gw_depth a = d),
           is_extracted_elevation_correct = (\<lambda>a d. gw_elevation a = d),
           is_extracted_date_correct = (\<lambda>a d. gw_date a = d)\<rparr>"
  have a: "metadata ?self = Some ?md" by simp
  have b: "groundwater_information ?md = Some ?ex" by simp
  have d: "gt_groundwater ?gt = Some ?entries" by simp
  have e: "length ?entries > 1" by simp
  note inst = multiple_groundwater_entries[OF a b refl d e, of to_double ?checks]
  have r: "raised (evaluate_metadata to_double ?checks ?self (Some ?gt)) = None"
    using inst by (elim conjE)
  have w: "warnings (evaluate_metadata to_double ?checks ?self (Some ?gt)) = [multiple_entries_warning ''a.pdf'']"
    using inst[THEN conjunct2, THEN conjunct1] by simp
  have dp: "metadata_is_correct (evaluated (evaluate_metadata to_double ?checks ?self (Some ?gt)))
        ''groundwater_information_depth'' = Some (Some True)"
    using inst[THEN conjunct2, THEN conjunct2, THEN conjunct2, THEN conjunct1] by simp
  have el: "metadata_is_correct (evaluated (evaluate_metadata to_double ?checks ?self (Some ?gt)))
        ''groundwater_information_elevation'' = Some (Some False)"
    using inst[THEN conjunct2, THEN conjunct2, THEN conjunct2, THEN conjunct2, THEN conjunct1]
    by simp
  show ?thesis using e r w dp el by (intro conjI)
qed

end
